(* ===== verification/Prelude.thy ===== *)
theory Prelude
  imports Main "HOL-Library.Word" "HOL-Library.Char_ord" "HOL-Library.List_Lexorder"
begin

text \<open>
  Shared vocabulary of the development: the faults a process can die of, C strings and decimal
  printing, the ordered containers of the C++ standard library (\<open>std::map\<close> and
  \<open>std::set\<close> as key-ordered lists), reference-counted pointers, and the run of a component
  whose handlers may fault.  The two interfaces every component relies on are locales: an ordered
  map (\<open>ordered_map\<close>) and a component whose handlers keep an invariant
  (\<open>guarded_component\<close>).
\<close>

section \<open>Faults and results\<close>

text \<open>
  A failed \<open>CHECK\<close> aborts the process; a call through a null pointer or
  through a pointer whose object is gone is no better.  All three are values here, so
  that every claim of the form "this handler returns" says so.
\<close>

datatype fault =
    CheckFailed string
  | NullDeref string
  | DanglingUse string

type_synonym 'a result = "fault + 'a"

definition check :: "bool \<Rightarrow> string \<Rightarrow> 'a result \<Rightarrow> 'a result" where
  "check b what k = (if b then k else Inl (CheckFailed what))"

definition bind_result :: "'a result \<Rightarrow> ('a \<Rightarrow> 'b result) \<Rightarrow> 'b result" where
  "bind_result r k = (case r of Inl f \<Rightarrow> Inl f | Inr x \<Rightarrow> k x)"

lemma check_simps [simp]:
  "check True w k = k"
  "check False w k = Inl (CheckFailed w)"
  by (simp_all add: check_def)

lemma check_eq_Inr [simp]: "check b w k = Inr x \<longleftrightarrow> b \<and> k = Inr x"
  by (simp add: check_def)

lemma bind_result_simps [simp]:
  "bind_result (Inl f) k = Inl f"
  "bind_result (Inr x) k = k x"
  by (simp_all add: bind_result_def)

lemma bind_result_eq_Inr [simp]:
  "bind_result r k = Inr y \<longleftrightarrow> (\<exists>x. r = Inr x \<and> k x = Inr y)"
  by (cases r) auto

section \<open>Strings\<close>

text \<open>
  \<open>c_str\<close> is what a callee sees of a \<open>std::string\<close> that is handed over as a
  zero-terminated \<open>const char*\<close>.
\<close>

definition c_str :: "string \<Rightarrow> string" where
  "c_str s = takeWhile (\<lambda>c. c \<noteq> CHR 0x00) s"

definition no_nul :: "string \<Rightarrow> bool" where
  "no_nul s \<longleftrightarrow> CHR 0x00 \<notin> set s"

lemma c_str_no_nul: "no_nul s \<Longrightarrow> c_str s = s"
  unfolding c_str_def no_nul_def by (subst takeWhile_eq_all_conv) auto

lemma no_nul_c_str [simp]: "no_nul (c_str s)"
  by (auto simp: c_str_def no_nul_def dest: set_takeWhileD)

lemma c_str_idem [simp]: "c_str (c_str s) = c_str s"
  by (simp add: c_str_no_nul)

lemma no_nul_simps [simp]:
  "no_nul []"
  "no_nul (c # s) \<longleftrightarrow> c \<noteq> CHR 0x00 \<and> no_nul s"
  "no_nul (s @ t) \<longleftrightarrow> no_nul s \<and> no_nul t"
  by (auto simp: no_nul_def)

lemma c_str_Nil [simp]: "c_str [] = []"
  by (simp add: c_str_def)

text \<open>\<open>std::to_string\<close> for integers.\<close>

fun digits10 :: "nat \<Rightarrow> string" where
  "digits10 n =
     (if n < 10 then [''0123456789'' ! n]
      else digits10 (n div 10) @ [''0123456789'' ! (n mod 10)])"

declare digits10.simps [simp del]

definition to_string_int :: "int \<Rightarrow> string" where
  "to_string_int i = (if i < 0 then CHR ''-'' # digits10 (nat (- i)) else digits10 (nat i))"

lemma digits10_nonempty [simp]: "digits10 n \<noteq> []"
  by (subst digits10.simps) simp

section \<open>Ordered containers\<close>

text \<open>
  \<open>std::map\<close> keeps its entries in key order, and several loops of the program stop at the
  first entry that fits, so the order is part of the model: a map is a list of pairs, sorted by
  key.  \<open>smap_put\<close> is \<open>m[k] = v\<close>, \<open>smap_emplace\<close> keeps an entry
  that is already there, \<open>smap_erase\<close> is \<open>erase(key)\<close>; lookup is
  \<open>map_of\<close>.
\<close>

type_synonym ('k, 'v) smap = "('k \<times> 'v) list"

fun smap_put :: "'k::linorder \<Rightarrow> 'v \<Rightarrow> ('k, 'v) smap \<Rightarrow> ('k, 'v) smap" where
  "smap_put k v [] = [(k, v)]"
| "smap_put k v ((k', v') # m) =
     (if k < k' then (k, v) # (k', v') # m
      else if k = k' then (k, v) # m
      else (k', v') # smap_put k v m)"

definition smap_emplace :: "'k::linorder \<Rightarrow> 'v \<Rightarrow> ('k, 'v) smap \<Rightarrow> ('k, 'v) smap" where
  "smap_emplace k v m = (case map_of m k of None \<Rightarrow> smap_put k v m | Some _ \<Rightarrow> m)"

definition smap_erase :: "'k \<Rightarrow> ('k, 'v) smap \<Rightarrow> ('k, 'v) smap" where
  "smap_erase k m = filter (\<lambda>(k', _). k' \<noteq> k) m"

definition smap_wf :: "('k::linorder, 'v) smap \<Rightarrow> bool" where
  "smap_wf m \<longleftrightarrow> sorted_wrt (<) (map fst m)"

lemma map_of_smap_put [simp]: "map_of (smap_put k v m) = (map_of m)(k \<mapsto> v)"
  by (induction m rule: smap_put.induct) auto

lemma set_keys_smap_put [simp]: "fst ` set (smap_put k v m) = insert k (fst ` set m)"
  by (induction m rule: smap_put.induct) auto

lemma smap_wf_simps:
  "smap_wf []"
  "smap_wf ((k, v) # m) \<longleftrightarrow> (\<forall>k' \<in> fst ` set m. k < k') \<and> smap_wf m"
  by (auto simp: smap_wf_def)

lemma smap_wf_put [simp]: "smap_wf m \<Longrightarrow> smap_wf (smap_put k v m)"
proof (induction m rule: smap_put.induct)
  case (2 k v k' v' m)
  consider "k < k'" | "k = k'" | "k' < k" by (metis linorder_cases)
  then show ?case
    using 2 by cases (auto simp: smap_wf_simps)
qed (simp add: smap_wf_simps)

lemma smap_put_same: "map_of m k = Some v \<Longrightarrow> smap_wf m \<Longrightarrow> smap_put k v m = m"
proof (induction m rule: smap_put.induct)
  case (2 k v k' v' m)
  have "k' < k" if "k \<noteq> k'"
  proof -
    have "(k, v) \<in> set m" using 2(2) that by (auto dest: map_of_SomeD)
    then show ?thesis using 2(3) by (force simp: smap_wf_simps)
  qed
  then show ?case using 2 by (auto simp: smap_wf_simps split: if_splits)
qed simp

lemma smap_wf_erase [simp]: "smap_wf m \<Longrightarrow> smap_wf (smap_erase k m)"
  unfolding smap_erase_def by (induction m) (auto simp: smap_wf_simps)

lemma map_of_smap_erase [simp]: "map_of (smap_erase k m) = (map_of m)(k := None)"
  by (induction m) (auto simp: smap_erase_def fun_eq_iff)

lemma set_smap_erase: "set (smap_erase k m) = {(k', v) \<in> set m. k' \<noteq> k}"
  by (auto simp: smap_erase_def)

lemma smap_wf_distinct: "smap_wf m \<Longrightarrow> distinct (map fst m)"
  by (simp add: smap_wf_def strict_sorted_iff)

lemma smap_wf_map_of: "smap_wf m \<Longrightarrow> (k, v) \<in> set m \<longleftrightarrow> map_of m k = Some v"
  by (metis map_of_eq_Some_iff smap_wf_distinct)

lemma smap_wf_emplace [simp]: "smap_wf m \<Longrightarrow> smap_wf (smap_emplace k v m)"
  by (simp add: smap_emplace_def split: option.split)

lemma map_of_smap_emplace:
  "map_of (smap_emplace k v m) =
     (if map_of m k = None then (map_of m)(k \<mapsto> v) else map_of m)"
  by (auto simp: smap_emplace_def split: option.split)

text \<open>What the clients of such a map rely on.\<close>

locale ordered_map =
  fixes find :: "'m \<Rightarrow> 'k \<Rightarrow> 'v option"
    and put :: "'k \<Rightarrow> 'v \<Rightarrow> 'm \<Rightarrow> 'm"
    and emplace :: "'k \<Rightarrow> 'v \<Rightarrow> 'm \<Rightarrow> 'm"
    and erase :: "'k \<Rightarrow> 'm \<Rightarrow> 'm"
    and wf :: "'m \<Rightarrow> bool"
  assumes find_put: "find (put k v m) k' = (if k' = k then Some v else find m k')"
    and find_emplace: "find (emplace k v m) k' = (if k' = k \<and> find m k = None then Some v else find m k')"
    and find_erase: "find (erase k m) k' = (if k' = k then None else find m k')"
    and wf_put: "wf m \<Longrightarrow> wf (put k v m)"
    and wf_emplace: "wf m \<Longrightarrow> wf (emplace k v m)"
    and wf_erase: "wf m \<Longrightarrow> wf (erase k m)"
begin

lemma find_erase_all: "find (fold erase ks m) k = (if k \<in> set ks then None else find m k)"
  by (induction ks arbitrary: m) (auto simp: find_erase)

lemma wf_erase_all: "wf m \<Longrightarrow> wf (fold erase ks m)"
  by (induction ks arbitrary: m) (auto simp: wf_erase)

lemma find_emplace_all:
  "find (fold (\<lambda>(k, v). emplace k v) kvs m) k =
     (case find m k of Some v \<Rightarrow> Some v | None \<Rightarrow> map_of kvs k)"
proof (induction kvs arbitrary: m)
  case (Cons kv kvs)
  then show ?case by (cases kv) (auto simp: find_emplace split: option.split)
qed (simp split: option.split)

lemma wf_emplace_all: "wf m \<Longrightarrow> wf (fold (\<lambda>(k, v). emplace k v) kvs m)"
  by (induction kvs arbitrary: m) (auto simp: wf_emplace split: prod.split)

end

interpretation smap: ordered_map map_of smap_put smap_emplace smap_erase smap_wf
  by unfold_locales (auto simp: map_of_smap_emplace)

section \<open>Reference-counted pointers\<close>

text \<open>
  An \<open>android::sp\<close> is compared by address, as a key of a map and of a set.
\<close>

datatype sp = Sp (addr: nat)

instantiation sp :: linorder
begin

definition less_eq_sp :: "sp \<Rightarrow> sp \<Rightarrow> bool" where
  "less_eq_sp p q \<longleftrightarrow> addr p \<le> addr q"

definition less_sp :: "sp \<Rightarrow> sp \<Rightarrow> bool" where
  "less_sp p q \<longleftrightarrow> addr p < addr q"

instance
  by standard (auto simp: less_eq_sp_def less_sp_def intro: sp.expand)

end

lemma Sp_less [simp]: "Sp a < Sp b \<longleftrightarrow> a < b"
  by (simp add: less_sp_def)

lemma Sp_less_eq [simp]: "Sp a \<le> Sp b \<longleftrightarrow> a \<le> b"
  by (simp add: less_eq_sp_def)

section \<open>Runs of a component\<close>

text \<open>
  A component is driven by events; a handler may fault, and a fault ends the process.
\<close>

fun run :: "('s \<Rightarrow> 'e \<Rightarrow> 's result) \<Rightarrow> 's \<Rightarrow> 'e list \<Rightarrow> 's result" where
  "run step s [] = Inr s"
| "run step s (e # es) = bind_result (step s e) (\<lambda>s'. run step s' es)"

lemma run_append: "run step s (es @ es') = bind_result (run step s es) (\<lambda>s'. run step s' es')"
proof (induction es arbitrary: s)
  case (Cons e es)
  then show ?case by (cases "step s e") auto
qed simp

text \<open>A run that dies dies in the handler of one of its events.\<close>

lemma run_fault: "run step s es = Inl f \<Longrightarrow> \<exists>s' e. e \<in> set es \<and> step s' e = Inl f"
proof (induction es arbitrary: s)
  case (Cons e es)
  show ?case
  proof (cases "step s e")
    case (Inl g)
    then have "step s e = Inl f" using Cons.prems by simp
    then show ?thesis by auto
  next
    case (Inr s1)
    then show ?thesis using Cons.IH [of s1] Cons.prems by auto
  qed
qed simp

text \<open>
  The contract all components share: the invariant holds at the start, and every handler that
  returns keeps it.
\<close>

locale guarded_component =
  fixes initial :: "'s \<Rightarrow> bool"
    and step :: "'s \<Rightarrow> 'e \<Rightarrow> 's result"
    and inv :: "'s \<Rightarrow> bool"
  assumes inv_initial: "initial s \<Longrightarrow> inv s"
    and inv_step: "inv s \<Longrightarrow> step s e = Inr s' \<Longrightarrow> inv s'"
begin

lemma inv_run_from: "inv s \<Longrightarrow> run step s es = Inr s' \<Longrightarrow> inv s'"
  by (induction es arbitrary: s) (auto intro: inv_step)

lemma inv_run: "initial s \<Longrightarrow> run step s es = Inr s' \<Longrightarrow> inv s'"
  by (blast intro: inv_initial inv_run_from)

end

text \<open>A component whose handlers never fault under its invariant never faults in a run.\<close>

locale safe_component = guarded_component +
  assumes no_fault: "inv s \<Longrightarrow> \<exists>s'. step s e = Inr s'"
begin

lemma run_returns_from: "inv s \<Longrightarrow> \<exists>s'. run step s es = Inr s'"
proof (induction es arbitrary: s)
  case (Cons e es)
  obtain s1 where s1: "step s e = Inr s1" using no_fault [OF Cons.prems] by blast
  with Cons.prems have "inv s1" by (rule inv_step)
  then show ?case using Cons.IH s1 by auto
qed simp

lemma run_returns: "initial s \<Longrightarrow> \<exists>s'. run step s es = Inr s' \<and> inv s'"
  by (meson inv_initial inv_run run_returns_from)

end

text \<open>
  A component whose events \<open>ok\<close> implement the steps of a specification: what \<open>rel\<close>
  relates at the start is related after any run.
\<close>

locale simulation =
  fixes step :: "'s \<Rightarrow> 'e \<Rightarrow> 's result"
    and spec_step :: "'e \<Rightarrow> 'a \<Rightarrow> 'a"
    and rel :: "'s \<Rightarrow> 'a \<Rightarrow> bool"
    and ok :: "'e \<Rightarrow> bool"
  assumes simulates: "rel s a \<Longrightarrow> ok e \<Longrightarrow> step s e = Inr s' \<Longrightarrow> rel s' (spec_step e a)"
begin

lemma run_simulates:
  "rel s a \<Longrightarrow> list_all ok es \<Longrightarrow> run step s es = Inr s' \<Longrightarrow> rel s' (fold spec_step es a)"
  by (induction es arbitrary: s a) (auto intro: simulates)

end

text \<open>A specification that records the events themselves.\<close>

lemma fold_snoc: "fold (\<lambda>e es. es @ [e]) es acc = acc @ es"
  by (induction es arbitrary: acc) auto

end
