(* ===== verification/Binder_Utils.thy ===== *)
theory Binder_Utils
  imports Prelude
begin

text \<open>
  \<^verbatim>\<open>common/binder_utils.{h,cc}\<close> and \<^verbatim>\<open>buffet/weave_error_conversion.h\<close>:
  the conversions between the error types of libweave, libbrillo and binder, between the string
  types, and the serialisation of dictionaries.

  Outside the repository, so arguments of the model: the UTF-8/UTF-16 conversions of
  \<^verbatim>\<open>android::String8/String16\<close>, the JSON reader and writer of libchrome (the record
  \<open>codec\<close>), and the numeric exception codes of \<^verbatim>\<open>binder::Status\<close> (the record
  \<open>binder_codes\<close>).  A \<open>String16\<close> is a sequence of 16-bit code units.
\<close>

section \<open>Binder statuses\<close>

type_synonym string16 = "16 word list"

record binder_codes =
  EX_NONE :: int
  EX_SECURITY :: int
  EX_BAD_PARCELABLE :: int
  EX_ILLEGAL_ARGUMENT :: int
  EX_NULL_POINTER :: int
  EX_ILLEGAL_STATE :: int
  EX_NETWORK_MAIN_THREAD :: int
  EX_UNSUPPORTED_OPERATION :: int
  EX_SERVICE_SPECIFIC :: int

text \<open>
  A call over binder yields either a value (the status is ok; the value is the out parameter) or
  a status that is not ok, with its exception code, its service-specific code and its message.
\<close>

datatype binder_exception =
  BinderException (exceptionCode: int) (serviceSpecificErrorCode: int) (exceptionMessage: string)

type_synonym 'a status = "binder_exception + 'a"

definition isOk :: "'a status \<Rightarrow> bool" where
  "isOk st = (case st of Inl _ \<Rightarrow> False | Inr _ \<Rightarrow> True)"

lemma isOk_simps [simp]: "isOk (Inr x)" "\<not> isOk (Inl e)"
  by (simp_all add: isOk_def)

definition fromServiceSpecificError :: "binder_codes \<Rightarrow> int \<Rightarrow> string \<Rightarrow> 'a status" where
  "fromServiceSpecificError bc err msg = Inl (BinderException (EX_SERVICE_SPECIFIC bc) err msg)"

lemma fromServiceSpecificError_not_ok [simp]: "\<not> isOk (fromServiceSpecificError bc e m)"
  by (simp add: fromServiceSpecificError_def)

section \<open>Error chains\<close>

text \<open>
  An error of either library is a chain: an entry and, inside it, the error it wraps.  The
  program builds chains only with \<open>AddTo\<close>, which is code of the libraries; the model of an
  \<open>ErrorPtr\<close> that the program writes is the list of the \<open>AddTo\<close> calls made on it,
  the latest first (the pointer is null while the list is empty).  The chains the program reads
  come from the libraries and are read through their accessors, here the selectors.  A location
  is \<open>None\<close> for \<open>FROM_HERE\<close>.
\<close>

record location =
  function_name :: string
  file_name :: string
  line_number :: int

datatype brillo_error =
  BrilloError (be_GetLocation: location) (be_GetDomain: string) (be_GetCode: string)
    (be_GetMessage: string) (be_GetInnerError: "brillo_error option")

datatype weave_error =
  WeaveError (we_GetLocation: location) (we_GetCode: string)
    (we_GetMessage: string) (we_GetInnerError: "weave_error option")

datatype weave_added =
  WeaveAdded (wa_location: "location option") (wa_code: string) (wa_message: string)

datatype brillo_added =
  BrilloAdded (ba_location: "location option") (ba_domain: string) (ba_code: string)
    (ba_message: string)

type_synonym weave_error_ptr = "weave_added list"
type_synonym brillo_error_ptr = "brillo_added list"

definition weave_AddTo ::
    "location option \<Rightarrow> string \<Rightarrow> string \<Rightarrow> weave_error_ptr \<Rightarrow> weave_error_ptr" where
  "weave_AddTo loc code msg p = WeaveAdded loc code msg # p"

definition brillo_AddTo ::
    "location option \<Rightarrow> string \<Rightarrow> string \<Rightarrow> string \<Rightarrow> brillo_error_ptr \<Rightarrow> brillo_error_ptr" where
  "brillo_AddTo loc domain code msg p = BrilloAdded loc domain code msg # p"

text \<open>
  The two \<open>ConvertError\<close> overloads: the inner error first, then an entry with the outer
  error's code and message.  The location's strings are handed over as \<open>const char*\<close>; the
  program counter is not modelled.
\<close>

definition relocate :: "location \<Rightarrow> location" where
  "relocate l = \<lparr>function_name = c_str (function_name l), file_name = c_str (file_name l),
                 line_number = line_number l\<rparr>"

fun ConvertError_to_brillo :: "weave_error \<Rightarrow> brillo_error_ptr \<Rightarrow> brillo_error_ptr" where
  "ConvertError_to_brillo (WeaveError loc code msg inner) destination =
     (let destination =
        (case inner of None \<Rightarrow> destination | Some e \<Rightarrow> ConvertError_to_brillo e destination)
      in brillo_AddTo (Some (relocate loc)) ''weave'' code msg destination)"

fun ConvertError_to_weave :: "brillo_error \<Rightarrow> weave_error_ptr \<Rightarrow> weave_error_ptr" where
  "ConvertError_to_weave (BrilloError loc domain code msg inner) destination =
     (let destination =
        (case inner of None \<Rightarrow> destination | Some e \<Rightarrow> ConvertError_to_weave e destination)
      in weave_AddTo (Some (relocate loc)) code msg destination)"

text \<open>The chain of an error, outermost entry first.\<close>

fun brillo_chain :: "brillo_error \<Rightarrow> (string \<times> string) list" where
  "brillo_chain (BrilloError loc domain code msg inner) =
     (code, msg) # (case inner of None \<Rightarrow> [] | Some e \<Rightarrow> brillo_chain e)"

fun weave_chain :: "weave_error \<Rightarrow> (string \<times> string) list" where
  "weave_chain (WeaveError loc code msg inner) =
     (code, msg) # (case inner of None \<Rightarrow> [] | Some e \<Rightarrow> weave_chain e)"

definition weave_added_chain :: "weave_error_ptr \<Rightarrow> (string \<times> string) list" where
  "weave_added_chain = map (\<lambda>a. (wa_code a, wa_message a))"

definition brillo_added_chain :: "brillo_error_ptr \<Rightarrow> (string \<times> string) list" where
  "brillo_added_chain = map (\<lambda>a. (ba_code a, ba_message a))"

lemma ConvertError_to_weave_chain:
  "weave_added_chain (ConvertError_to_weave e p) = brillo_chain e @ weave_added_chain p"
  by (induction e p rule: ConvertError_to_weave.induct)
    (auto simp: weave_added_chain_def weave_AddTo_def split: option.split)

lemma ConvertError_to_brillo_chain:
  "brillo_added_chain (ConvertError_to_brillo e p) = weave_chain e @ brillo_added_chain p"
  by (induction e p rule: ConvertError_to_brillo.induct)
    (auto simp: brillo_added_chain_def brillo_AddTo_def split: option.split)

lemma ConvertError_to_weave_nonempty [simp]: "ConvertError_to_weave e p \<noteq> []"
  by (cases e) (simp add: weave_AddTo_def)

section \<open>The conversions of binder_utils\<close>

record ('v, 'd) codec =
  utf16 :: "string \<Rightarrow> string16"
  utf8 :: "string16 \<Rightarrow> string"
  json_write :: "'v \<Rightarrow> string"
  json_read :: "string \<Rightarrow> (int \<times> string) + 'v"
  as_dictionary :: "'v \<Rightarrow> 'd option"
  of_dictionary :: "'d \<Rightarrow> 'v"
  empty_dictionary :: "'d"

text \<open>
  \<open>json_read\<close> is \<^verbatim>\<open>JSONReader::ReadAndReturnError\<close> in the strict mode: a value, or the
  null pointer with the error number and message it stored.  \<open>as_dictionary\<close> is
  \<^verbatim>\<open>GetAsDictionary\<close>, \<open>of_dictionary\<close> the upcast of a \<open>DictionaryValue\<close> and
  \<open>empty_dictionary\<close> a new one.
\<close>

definition ToStatus :: "binder_codes \<Rightarrow> bool \<Rightarrow> string option \<Rightarrow> unit status result" where
  \<comment> \<open>the error pointer is given by the message of the error it holds, if it holds one\<close>
  "ToStatus bc success error =
     (if success then Inr (Inr ())
      else (case error of
              None \<Rightarrow> Inl (NullDeref ''ToStatus: error'')
            | Some msg \<Rightarrow> Inr (fromServiceSpecificError bc 1 (c_str msg))))"

definition StatusToError :: "unit status \<Rightarrow> brillo_error_ptr \<Rightarrow> bool \<times> brillo_error_ptr" where
  "StatusToError st error =
     (case st of
        Inr _ \<Rightarrow> (True, error)
      | Inl e \<Rightarrow>
          (False, brillo_AddTo None ''binder'' (to_string_int (exceptionCode e))
                    (c_str (exceptionMessage e)) error))"

definition ToString :: "('v, 'd) codec \<Rightarrow> string16 \<Rightarrow> string" where
  "ToString cd value = c_str (utf8 cd value)"

definition ToString16 :: "('v, 'd) codec \<Rightarrow> string \<Rightarrow> string16" where
  "ToString16 cd value = utf16 cd (c_str value)"

definition ToString16_value :: "('v, 'd) codec \<Rightarrow> 'v \<Rightarrow> string16" where
  "ToString16_value cd value = ToString16 cd (json_write cd value)"

definition ParseDictionary :: "binder_codes \<Rightarrow> ('v, 'd) codec \<Rightarrow> string16 \<Rightarrow> 'd status" where
  "ParseDictionary bc cd json =
     (case json_read cd (ToString cd json) of
        Inl (error, message) \<Rightarrow> fromServiceSpecificError bc error (c_str message)
      | Inr value \<Rightarrow>
          (case as_dictionary cd value of
             None \<Rightarrow> fromServiceSpecificError bc 0 (c_str '''')
           | Some dict \<Rightarrow> Inr dict))"

section \<open>What the conversions preserve\<close>

text \<open>
  The documented behaviour of the string classes: text without a zero character survives the
  trip through UTF-16.  \<open>text_ok cd s\<close> says so for one string; the JSON codec reads back
  what it writes.
\<close>

definition text_ok :: "('v, 'd) codec \<Rightarrow> string \<Rightarrow> bool" where
  "text_ok cd s \<longleftrightarrow> no_nul s \<and> utf8 cd (utf16 cd s) = s"

definition json_ok :: "('v, 'd) codec \<Rightarrow> 'd \<Rightarrow> bool" where
  "json_ok cd d \<longleftrightarrow>
     text_ok cd (json_write cd (of_dictionary cd d)) \<and>
     json_read cd (json_write cd (of_dictionary cd d)) = Inr (of_dictionary cd d) \<and>
     as_dictionary cd (of_dictionary cd d) = Some d"

named_theorems conversions \<open>round trips of the string and dictionary conversions\<close>

lemma ToString_ToString16 [conversions]: "text_ok cd s \<Longrightarrow> ToString cd (ToString16 cd s) = s"
  by (simp add: text_ok_def ToString_def ToString16_def c_str_no_nul)

lemma map_ToString_ToString16 [conversions]:
  "\<forall>s \<in> set ss. text_ok cd s \<Longrightarrow> map (\<lambda>s. ToString cd (ToString16 cd s)) ss = ss"
  by (induction ss) (auto simp: conversions)

lemma ParseDictionary_ToString16 [conversions]:
  "json_ok cd d \<Longrightarrow> ParseDictionary bc cd (ToString16_value cd (of_dictionary cd d)) = Inr d"
  by (simp add: json_ok_def ParseDictionary_def ToString16_value_def conversions)

lemma StatusToError_simps [simp]:
  "StatusToError (Inr u) p = (True, p)"
  "StatusToError (Inl e) p =
     (False, BrilloAdded None ''binder'' (to_string_int (exceptionCode e))
               (c_str (exceptionMessage e)) # p)"
  by (simp_all add: StatusToError_def brillo_AddTo_def)

lemma ToStatus_simps [simp]:
  "ToStatus bc True p = Inr (Inr ())"
  "ToStatus bc False (Some m) = Inr (fromServiceSpecificError bc 1 (c_str m))"
  "ToStatus bc False None = Inl (NullDeref ''ToStatus: error'')"
  by (simp_all add: ToStatus_def)

lemma StatusToError_fst [simp]: "fst (StatusToError st p) = isOk st"
  by (simp add: StatusToError_def isOk_def split: sum.split)

text \<open>
  The two directions composed: what a failed call of the device reports to the daemon reaches
  the client as one entry with the code of a service-specific error and the device's message.
\<close>

lemma StatusToError_ToStatus:
  assumes "success \<or> error \<noteq> None"
  obtains st where "ToStatus bc success error = Inr st"
    and "StatusToError st p =
      (success, if success then p
                else BrilloAdded None ''binder'' (to_string_int (EX_SERVICE_SPECIFIC bc))
                       (c_str (the error)) # p)"
proof (cases success)
  case False
  with assms obtain m where "error = Some m" by auto
  with False that show ?thesis by (simp add: fromServiceSpecificError_def)
qed (simp add: that)

section \<open>Instances to evaluate on\<close>

text \<open>
  A codec, exception codes and a driver status for the closed instances of the properties: text is
  widened character by character, and a dictionary is its own text.
\<close>

definition sample_codec :: "(string, string) codec" where
  "sample_codec = \<lparr>utf16 = map (\<lambda>c. of_nat (of_char c)), utf8 = map (\<lambda>w. char_of (unat w)),
     json_write = (\<lambda>v. v), json_read = Inr, as_dictionary = Some, of_dictionary = (\<lambda>d. d),
     empty_dictionary = ''{}''\<rparr>"

definition sample_codes :: binder_codes where
  "sample_codes = \<lparr>EX_NONE = 0, EX_SECURITY = - 1, EX_BAD_PARCELABLE = - 2,
     EX_ILLEGAL_ARGUMENT = - 3, EX_NULL_POINTER = - 4, EX_ILLEGAL_STATE = - 5,
     EX_NETWORK_MAIN_THREAD = - 6, EX_UNSUPPORTED_OPERATION = - 7, EX_SERVICE_SPECIFIC = - 8\<rparr>"

definition dead_daemon :: binder_exception where
  "dead_daemon = BinderException (- 129) 0 ''''"

lemma sample_char: "char_of (unat (of_nat (of_char c) :: 16 word)) = (c :: char)"
proof -
  have "of_char c < (65536 :: nat)" using nat_of_char_less_256 [of c] by linarith
  then have "unat (of_nat (of_char c) :: 16 word) = of_char c"
    by (simp add: unat_of_nat)
  then show ?thesis by simp
qed

lemma sample_text_ok: "text_ok sample_codec s \<longleftrightarrow> no_nul s"
  by (simp add: text_ok_def sample_codec_def o_def sample_char)

lemma sample_json_ok: "json_ok sample_codec d \<longleftrightarrow> no_nul d"
  by (simp add: json_ok_def sample_text_ok) (simp add: sample_codec_def)

end
