(* ===== verification/Shill_Client.thy ===== *)
theory Shill_Client
  imports Binder_Utils
begin

text \<open>
  \<^verbatim>\<open>buffet/shill_client.{h,cc}\<close>: the daemon's view of the network.  It follows shill (the
  connection manager) over D-Bus: the list of network devices, the service each device has selected
  and the state of that service, from which it derives one connectivity state; and it connects to a
  WiFi network on request, one attempt at a time, with a callback for the outcome.

  Outside the repository, so arguments of the model: the names shill gives to properties, states
  and errors, the numeric order of \<^verbatim>\<open>Network::State\<close> and the validity of an object path (the
  record \<open>shill_names\<close>); and the answers of the D-Bus calls a handler makes (the record
  \<open>shill_env\<close>, one per invocation).  A property value is given by what \<open>TryGet\<close>
  returns for each type the program asks for.  Service proxies are shared objects compared by
  identity: each \<open>make_shared\<close> or \<open>new\<close> takes a fresh number.  What a handler does to
  others (tasks posted, callbacks run, calls to proxies) is appended to \<open>sc_effects\<close>;
  a callback that calls back into the client is a later event.
\<close>

section \<open>State\<close>

datatype Network_State = Network_kOffline | Network_kError | Network_kConnecting | Network_kOnline

record shill_names =
  kDevicesProperty :: string
  kSelectedServiceProperty :: string
  kStateProperty :: string
  kSignalStrengthProperty :: string
  kErrorProperty :: string
  kInterfaceProperty :: string
  kTypeProperty :: string
  kSSIDProperty :: string
  kSecurityProperty :: string
  kPassphraseProperty :: string
  kSaveCredentialsProperty :: string
  kAutoConnectProperty :: string
  kTypeWifi :: string
  kSecurityNone :: string
  kSecurityPsk :: string
  kStateReady :: string
  kStatePortal :: string
  kStateOnline :: string
  kStateAssociation :: string
  kStateConfiguration :: string
  kStateFailure :: string
  kStateActivationFailure :: string
  kStateIdle :: string
  kStateOffline :: string
  kStateDisconnect :: string
  kErrorOutOfRange :: string
  kErrorInternal :: string
  state_value :: "Network_State \<Rightarrow> int"
  IsValid :: "string \<Rightarrow> bool"

record any_value =
  TryGet_string :: string
  TryGet_ObjectPath :: string
  TryGet_ObjectPaths :: "string list"
  TryGet_uint8 :: "8 word"

type_synonym properties = "string \<rightharpoonup> any_value"

datatype sent_value = SentString string | SentBool bool

record shill_env =
  manager_GetProperties :: "properties option"
  device_GetProperties :: "string \<Rightarrow> properties option"
  service_GetProperties :: "string \<Rightarrow> properties option"
  ConfigureService :: "(string, sent_value) smap \<Rightarrow> brillo_error + string"
  RequestScan :: "string \<Rightarrow> brillo_error option"

datatype ServiceProxy = ServiceProxy (proxy_id: nat) (GetObjectPath: string)

record DeviceState =
  selected_service :: "ServiceProxy option"
  service_state :: Network_State

definition new_DeviceState :: DeviceState where
  "new_DeviceState = \<lparr>selected_service = None, service_state = Network_kOffline\<rparr>"

text \<open>The empty error pointer is a done callback's success.\<close>

datatype shill_effect =
    PostNotifyConnectivityListeners bool
  | RunConnectionListener nat
  | RunDone nat weave_error_ptr
  | PostDone "nat option" weave_error_ptr
  | PostConnectTimeout ServiceProxy
  | CallConnect ServiceProxy
  | CallReleaseObjectProxy ServiceProxy
  | RegisterServiceSignals ServiceProxy
  | RegisterDeviceSignals string
  | ApStart string
  | ApStop
  | TlsConnect nat string nat
  | PostSocketError nat weave_error_ptr

record ShillClient =
  sc_device_whitelist :: "string set"
  sc_disable_xmpp :: bool
  connectivity_listeners :: "nat list"
  have_called_connect :: bool
  connecting_service :: "ServiceProxy option"
  connecting_service_error :: string
  connect_done_callback :: "nat option"
  sc_devices :: "(string, DeviceState) smap"
  connectivity_state :: Network_State
  proxies_made :: nat
  sc_effects :: "shill_effect list"

definition sc_emit :: "shill_effect \<Rightarrow> ShillClient \<Rightarrow> ShillClient" where
  "sc_emit e s = s\<lparr>sc_effects := sc_effects s @ [e]\<rparr>"

definition new_ServiceProxy :: "string \<Rightarrow> ShillClient \<Rightarrow> ServiceProxy \<times> ShillClient" where
  "new_ServiceProxy path s =
     (ServiceProxy (proxies_made s) path, s\<lparr>proxies_made := Suc (proxies_made s)\<rparr>)"

section \<open>Operations\<close>

definition GetStateForService :: "shill_names \<Rightarrow> shill_env \<Rightarrow> ServiceProxy \<Rightarrow> string option" where
  "GetStateForService k env service =
     (case service_GetProperties env (GetObjectPath service) of
        None \<Rightarrow> None
      | Some properties \<Rightarrow>
          (case properties (kStateProperty k) of
             None \<Rightarrow> None
           | Some value \<Rightarrow>
               (let new_state = TryGet_string value
                in if new_state = '''' then None else Some new_state)))"

definition ShillServiceStateToNetworkState :: "shill_names \<Rightarrow> string \<Rightarrow> Network_State" where
  "ShillServiceStateToNetworkState k state =
     (if state = kStateReady k \<or> state = kStatePortal k \<or> state = kStateOnline k
      then Network_kOnline
      else if state = kStateAssociation k \<or> state = kStateConfiguration k
      then Network_kConnecting
      else if state = kStateFailure k \<or> state = kStateActivationFailure k
      then Network_kError
      else if state = kStateIdle k \<or> state = kStateOffline k \<or> state = kStateDisconnect k
      then Network_kOffline
      else Network_kOffline)"

definition CleanupConnectingService :: "ShillClient \<Rightarrow> ShillClient" where
  "CleanupConnectingService s =
     (let s = (case connecting_service s of
                 None \<Rightarrow> s
               | Some service \<Rightarrow>
                   (sc_emit (CallReleaseObjectProxy service) s)\<lparr>connecting_service := None\<rparr>)
      in s\<lparr>connect_done_callback := None, have_called_connect := False\<rparr>)"

text \<open>The most connected of a list of states, in the order of the enumeration's values.\<close>

definition most_connected :: "shill_names \<Rightarrow> Network_State list \<Rightarrow> Network_State" where
  "most_connected k sts =
     foldl (\<lambda>best st. if state_value k st > state_value k best then st else best) Network_kOffline sts"

definition UpdateConnectivityState :: "shill_names \<Rightarrow> ShillClient \<Rightarrow> ShillClient" where
  "UpdateConnectivityState k s =
     (let new_connectivity_state = most_connected k (map (\<lambda>kv. service_state (snd kv)) (sc_devices s));
          s = s\<lparr>connectivity_state := new_connectivity_state\<rparr>
      in sc_emit (PostNotifyConnectivityListeners (connectivity_state s = Network_kOnline)) s)"

definition NotifyConnectivityListeners :: "bool \<Rightarrow> ShillClient \<Rightarrow> ShillClient" where
  "NotifyConnectivityListeners am_online s =
     fold (\<lambda>l. sc_emit (RunConnectionListener l)) (connectivity_listeners s) s"

definition AddConnectionChangedCallback :: "nat \<Rightarrow> ShillClient \<Rightarrow> ShillClient" where
  "AddConnectionChangedCallback l s = s\<lparr>connectivity_listeners := connectivity_listeners s @ [l]\<rparr>"

definition IsMonitoredDevice :: "shill_names \<Rightarrow> shill_env \<Rightarrow> string \<Rightarrow> ShillClient \<Rightarrow> bool" where
  "IsMonitoredDevice k env device s =
     (if sc_device_whitelist s = {} then True
      else (case device_GetProperties env device of
              None \<Rightarrow> False
            | Some device_properties \<Rightarrow>
                (case device_properties (kInterfaceProperty k) of
                   None \<Rightarrow> False
                 | Some value \<Rightarrow> TryGet_string value \<in> sc_device_whitelist s)))"

text \<open>
  The loop of \<open>OnManagerPropertyChange\<close> over the new device list.  \<open>None\<close> is its early
  return on an invalid path; otherwise the paths still to remove and \<open>update_connectivity\<close>.
\<close>

fun device_list_loop ::
    "shill_names \<Rightarrow> shill_env \<Rightarrow> string list \<Rightarrow> string list \<Rightarrow> bool \<Rightarrow> ShillClient \<Rightarrow>
     ShillClient \<times> (string list \<times> bool) option" where
  "device_list_loop k env [] to_remove update s = (s, Some (to_remove, update))"
| "device_list_loop k env (device_path # paths) to_remove update s =
     (if \<not> IsValid k device_path then (s, None)
      else (case map_of (sc_devices s) device_path of
              Some _ \<Rightarrow> device_list_loop k env paths (removeAll device_path to_remove) update s
            | None \<Rightarrow>
                (if \<not> IsMonitoredDevice k env device_path s
                 then device_list_loop k env paths to_remove update s
                 else device_list_loop k env paths to_remove True
                        (sc_emit (RegisterDeviceSignals device_path)
                           (s\<lparr>sc_devices := smap_put device_path new_DeviceState (sc_devices s)\<rparr>)))))"

definition OnManagerPropertyChange ::
    "shill_names \<Rightarrow> shill_env \<Rightarrow> string \<Rightarrow> any_value \<Rightarrow> ShillClient \<Rightarrow> ShillClient" where
  "OnManagerPropertyChange k env property_name property_value s =
     (if property_name \<noteq> kDevicesProperty k then s
      else (case device_list_loop k env (TryGet_ObjectPaths property_value)
                   (map fst (sc_devices s)) False s of
              (s, None) \<Rightarrow> s
            | (s, Some (to_remove, update)) \<Rightarrow>
                (let s = s\<lparr>sc_devices := fold smap_erase to_remove (sc_devices s)\<rparr>
                 in if update \<or> to_remove \<noteq> [] then UpdateConnectivityState k s else s)))"

definition read_device_list ::
    "shill_names \<Rightarrow> shill_env \<Rightarrow> ShillClient \<Rightarrow> ShillClient result" where
  \<comment> \<open>the common end of \<open>Init\<close> and \<open>OnManagerPropertyChangeRegistration\<close>\<close>
  "read_device_list k env s =
     (case manager_GetProperties env of
        None \<Rightarrow> Inr s
      | Some properties \<Rightarrow>
          (case properties (kDevicesProperty k) of
             None \<Rightarrow> Inl (CheckFailed ''shill should always publish a device list.'')
           | Some value \<Rightarrow> Inr (OnManagerPropertyChange k env (kDevicesProperty k) value s)))"

definition ShillClient_Init :: "shill_names \<Rightarrow> shill_env \<Rightarrow> ShillClient \<Rightarrow> ShillClient result" where
  "ShillClient_Init k env s =
     (let s = CleanupConnectingService s;
          s = s\<lparr>sc_devices := [], connectivity_state := Network_kOffline\<rparr>
      in read_device_list k env s)"

definition blank_ShillClient :: "string set \<Rightarrow> bool \<Rightarrow> ShillClient" where
  "blank_ShillClient device_whitelist disable_xmpp =
     \<lparr>sc_device_whitelist = device_whitelist, sc_disable_xmpp = disable_xmpp,
      connectivity_listeners = [], have_called_connect = False, connecting_service = None,
      connecting_service_error = '''', connect_done_callback = None, sc_devices = [],
      connectivity_state = Network_kOffline, proxies_made = 0, sc_effects = []\<rparr>"

definition new_ShillClient ::
    "shill_names \<Rightarrow> shill_env \<Rightarrow> string set \<Rightarrow> bool \<Rightarrow> ShillClient result" where
  "new_ShillClient k env device_whitelist disable_xmpp =
     ShillClient_Init k env (blank_ShillClient device_whitelist disable_xmpp)"

definition OnShillServiceOwnerChange ::
    "shill_names \<Rightarrow> shill_env \<Rightarrow> string \<Rightarrow> string \<Rightarrow> ShillClient \<Rightarrow> ShillClient result" where
  "OnShillServiceOwnerChange k env old_owner new_owner s =
     (if new_owner = '''' then
        (let s = CleanupConnectingService s
         in Inr (s\<lparr>sc_devices := [], connectivity_state := Network_kOffline\<rparr>))
      else ShillClient_Init k env s)"

definition OnManagerPropertyChangeRegistration ::
    "shill_names \<Rightarrow> shill_env \<Rightarrow> bool \<Rightarrow> ShillClient \<Rightarrow> ShillClient result" where
  "OnManagerPropertyChangeRegistration k env success s =
     check success ''privetd requires Manager signals.'' (read_device_list k env s)"

definition OnErrorChangeForConnectingService :: "string \<Rightarrow> ShillClient \<Rightarrow> ShillClient" where
  "OnErrorChangeForConnectingService error s =
     (if error = '''' then s
      else (let callback = connect_done_callback s;
                s = CleanupConnectingService s;
                weave_error = weave_AddTo None error ''Failed to connect to WiFi network'' []
            in (case callback of None \<Rightarrow> s | Some cb \<Rightarrow> sc_emit (RunDone cb weave_error) s)))"

definition ConnectToServiceError :: "shill_names \<Rightarrow> ServiceProxy option \<Rightarrow> ShillClient \<Rightarrow> ShillClient" where
  "ConnectToServiceError k service s =
     (if service \<noteq> connecting_service s \<or> connect_done_callback s = None then s
      else (let error = (if have_called_connect s then connecting_service_error s
                         else kErrorOutOfRange k);
                error = (if error = '''' then kErrorInternal k else error)
            in OnErrorChangeForConnectingService error s))"

definition OnStateChangeForConnectingService :: "shill_names \<Rightarrow> string \<Rightarrow> ShillClient \<Rightarrow> ShillClient" where
  "OnStateChangeForConnectingService k state s =
     (case ShillServiceStateToNetworkState k state of
        Network_kOnline \<Rightarrow>
          (let callback = connect_done_callback s;
               s = s\<lparr>connect_done_callback := None\<rparr>;
               s = CleanupConnectingService s
           in (case callback of None \<Rightarrow> s | Some cb \<Rightarrow> sc_emit (RunDone cb []) s))
      | Network_kError \<Rightarrow> ConnectToServiceError k (connecting_service s) s
      | Network_kOffline \<Rightarrow> s
      | Network_kConnecting \<Rightarrow> s)"

definition OnStrengthChangeForConnectingService :: "8 word \<Rightarrow> ShillClient \<Rightarrow> ShillClient result" where
  "OnStrengthChangeForConnectingService signal_strength s =
     (if signal_strength = 0 \<or> have_called_connect s then Inr s
      else (let s = s\<lparr>have_called_connect := True\<rparr>
            in (case connecting_service s of
                  None \<Rightarrow> Inl (NullDeref ''connecting_service_'')
                | Some service \<Rightarrow> Inr (sc_emit (CallConnect service) s))))"

definition selects :: "string \<Rightarrow> DeviceState \<Rightarrow> bool" where
  "selects service_path d =
     (case selected_service d of None \<Rightarrow> False | Some service \<Rightarrow> GetObjectPath service = service_path)"

text \<open>The first device, in the map's order, that has selected a service.\<close>

fun set_first_selected :: "string \<Rightarrow> Network_State \<Rightarrow> (string, DeviceState) smap \<Rightarrow>
    (string, DeviceState) smap option" where
  "set_first_selected service_path st [] = None"
| "set_first_selected service_path st ((p, d) # m) =
     (if selects service_path d then Some ((p, d\<lparr>service_state := st\<rparr>) # m)
      else map_option ((#) (p, d)) (set_first_selected service_path st m))"

definition OnStateChangeForSelectedService ::
    "shill_names \<Rightarrow> string \<Rightarrow> string \<Rightarrow> ShillClient \<Rightarrow> ShillClient" where
  "OnStateChangeForSelectedService k service_path state s =
     (case set_first_selected service_path (ShillServiceStateToNetworkState k state) (sc_devices s) of
        None \<Rightarrow> s
      | Some m \<Rightarrow> UpdateConnectivityState k (s\<lparr>sc_devices := m\<rparr>))"

definition is_connecting :: "string \<Rightarrow> ShillClient \<Rightarrow> bool" where
  "is_connecting path s =
     (case connecting_service s of None \<Rightarrow> False | Some service \<Rightarrow> GetObjectPath service = path)"

definition OnServicePropertyChange ::
    "shill_names \<Rightarrow> string \<Rightarrow> string \<Rightarrow> any_value \<Rightarrow> ShillClient \<Rightarrow> ShillClient result" where
  "OnServicePropertyChange k service_path property_name property_value s =
     (let is_connecting_service = is_connecting service_path s in
      if property_name = kStateProperty k then
        (let state = TryGet_string property_value in
         if state = '''' then Inr s
         else (let s = OnStateChangeForSelectedService k service_path state s
               in Inr (if is_connecting_service then OnStateChangeForConnectingService k state s else s)))
      else if property_name = kSignalStrengthProperty k then
        (if is_connecting_service
         then OnStrengthChangeForConnectingService (TryGet_uint8 property_value) s
         else Inr s)
      else if property_name = kErrorProperty k then
        Inr (if is_connecting_service
             then s\<lparr>connecting_service_error := TryGet_string property_value\<rparr> else s)
      else Inr s)"

fun initial_properties ::
    "shill_names \<Rightarrow> string \<Rightarrow> properties \<Rightarrow> string list \<Rightarrow> ShillClient \<Rightarrow> ShillClient result" where
  "initial_properties k path properties [] s = Inr s"
| "initial_properties k path properties (name # names) s =
     (case properties name of
        None \<Rightarrow> initial_properties k path properties names s
      | Some value \<Rightarrow>
          bind_result (OnServicePropertyChange k path name value s)
            (initial_properties k path properties names))"

definition OnServicePropertyChangeRegistration ::
    "shill_names \<Rightarrow> shill_env \<Rightarrow> string \<Rightarrow> bool \<Rightarrow> ShillClient \<Rightarrow> ShillClient result" where
  "OnServicePropertyChangeRegistration k env path success s =
     (let (service, s) =
        (if is_connecting path s
         then (connecting_service s, if \<not> success then CleanupConnectingService s else s)
         else (case find (\<lambda>kv. selects path (snd kv)) (sc_devices s) of
                 None \<Rightarrow> (None, s)
               | Some kv \<Rightarrow> (selected_service (snd kv), s)))
      in case service of
           None \<Rightarrow> Inr s
         | Some service \<Rightarrow>
             (if \<not> success then Inr s
              else (case service_GetProperties env (GetObjectPath service) of
                      None \<Rightarrow> Inr s
                    | Some properties \<Rightarrow>
                        initial_properties k path properties
                          [kStateProperty k, kSignalStrengthProperty k, kErrorProperty k] s)))"

definition OnDevicePropertyChange ::
    "shill_names \<Rightarrow> shill_env \<Rightarrow> string \<Rightarrow> string \<Rightarrow> any_value \<Rightarrow> ShillClient \<Rightarrow> ShillClient" where
  "OnDevicePropertyChange k env device_path property_name property_value s =
     (if property_name \<noteq> kSelectedServiceProperty k then s
      else (case map_of (sc_devices s) device_path of
        None \<Rightarrow> s
      | Some device_state \<Rightarrow>
        (let service_path = TryGet_ObjectPath property_value in
         if \<not> IsValid k service_path then s
         else if selects service_path device_state then s
         else
           (let removed_old_service = (selected_service device_state \<noteq> None);
                device_state = (if removed_old_service then new_DeviceState else device_state);
                reuse_connecting_service = (service_path \<noteq> ''/'' \<and> is_connecting service_path s);
                (device_state, s) =
                  (if reuse_connecting_service then
                     (let device_state = device_state\<lparr>selected_service := connecting_service s\<rparr>
                      in (case connecting_service s of
                            None \<Rightarrow> (device_state, s)
                          | Some service \<Rightarrow>
                              (case GetStateForService k env service of
                                 None \<Rightarrow> (device_state, s)
                               | Some state \<Rightarrow>
                                   (device_state\<lparr>service_state :=
                                      ShillServiceStateToNetworkState k state\<rparr>, s))))
                   else if service_path \<noteq> ''/'' then
                     (let (service, s) = new_ServiceProxy service_path s
                      in (device_state\<lparr>selected_service := Some service\<rparr>,
                          sc_emit (RegisterServiceSignals service) s))
                   else (device_state, s));
                s = s\<lparr>sc_devices := smap_put device_path device_state (sc_devices s)\<rparr>
            in if reuse_connecting_service \<or> removed_old_service
               then UpdateConnectivityState k s else s))))"

definition OnDevicePropertyChangeRegistration ::
    "shill_names \<Rightarrow> shill_env \<Rightarrow> string \<Rightarrow> bool \<Rightarrow> ShillClient \<Rightarrow> ShillClient result" where
  "OnDevicePropertyChangeRegistration k env device_path success s =
     (case map_of (sc_devices s) device_path of
        None \<Rightarrow> Inr s
      | Some _ \<Rightarrow>
          check success ''Failed to subscribe to Device property changes.''
            (case device_GetProperties env device_path of
               None \<Rightarrow> Inr s
             | Some properties \<Rightarrow>
                 (case properties (kSelectedServiceProperty k) of
                    None \<Rightarrow> Inr s
                  | Some value \<Rightarrow>
                      Inr (OnDevicePropertyChange k env device_path (kSelectedServiceProperty k) value s))))"

definition connect_properties :: "shill_names \<Rightarrow> string \<Rightarrow> string \<Rightarrow> (string, sent_value) smap" where
  "connect_properties k ssid passphrase =
     (let m = smap_put (kTypeProperty k) (SentString (kTypeWifi k)) [];
          m = smap_put (kSSIDProperty k) (SentString ssid) m;
          m = (if passphrase = '''' then smap_put (kSecurityProperty k) (SentString (kSecurityNone k)) m
               else smap_put (kSecurityProperty k) (SentString (kSecurityPsk k))
                      (smap_put (kPassphraseProperty k) (SentString passphrase) m));
          m = smap_put (kSaveCredentialsProperty k) (SentBool True) m
      in smap_put (kAutoConnectProperty k) (SentBool True) m)"

definition ShillClient_Connect ::
    "shill_names \<Rightarrow> shill_env \<Rightarrow> string \<Rightarrow> string \<Rightarrow> nat option \<Rightarrow> ShillClient \<Rightarrow> ShillClient" where
  "ShillClient_Connect k env ssid passphrase callback s =
     (if connecting_service s \<noteq> None then
        sc_emit (PostDone callback (weave_AddTo None ''busy'' ''Already connecting to WiFi network'' [])) s
      else
        (let s = CleanupConnectingService s in
         case ConfigureService env (connect_properties k ssid passphrase) of
           Inl e \<Rightarrow> sc_emit (PostDone callback (ConvertError_to_weave e [])) s
         | Inr service_path \<Rightarrow>
             (case RequestScan env (kTypeWifi k) of
                Some e \<Rightarrow> sc_emit (PostDone callback (ConvertError_to_weave e [])) s
              | None \<Rightarrow>
                  (let (service, s) = new_ServiceProxy service_path s;
                       s = s\<lparr>connecting_service := Some service\<rparr>;
                       s = sc_emit (CallConnect service) s;
                       s = s\<lparr>connect_done_callback := callback\<rparr>;
                       s = sc_emit (RegisterServiceSignals service) s
                   in sc_emit (PostConnectTimeout service) s))))"

definition GetConnectionState :: "ShillClient \<Rightarrow> Network_State" where
  "GetConnectionState s = connectivity_state s"

definition StartAccessPoint :: "string \<Rightarrow> ShillClient \<Rightarrow> ShillClient" where
  "StartAccessPoint ssid s = sc_emit (ApStart ssid) s"

definition StopAccessPoint :: "ShillClient \<Rightarrow> ShillClient" where
  "StopAccessPoint s = sc_emit ApStop s"

text \<open>
  \<open>OpenSslSocket\<close>: \<open>stream\<close> is what \<^verbatim>\<open>SocketStream::ConnectBlocking\<close> returned for
  the host and port, and \<open>errno\<close> the system error it left behind otherwise.
\<close>

definition OpenSslSocket ::
    "(string \<Rightarrow> 16 word \<Rightarrow> nat option) \<Rightarrow> brillo_error \<Rightarrow> string \<Rightarrow> 16 word \<Rightarrow> nat \<Rightarrow> ShillClient \<Rightarrow> ShillClient" where
  "OpenSslSocket ConnectBlocking errno host port callback s =
     (if sc_disable_xmpp s then s
      else (case ConnectBlocking host port of
              None \<Rightarrow> sc_emit (PostSocketError callback (ConvertError_to_weave errno [])) s
            | Some raw_stream \<Rightarrow> sc_emit (TlsConnect raw_stream host callback) s))"

section \<open>Events\<close>

text \<open>
  Everything that can call into the client: the weave library, D-Bus signals and replies, and the
  tasks the client has posted.
\<close>

datatype shill_event =
    EvConnect shill_env string string "nat option"
  | EvConnectTimeout ServiceProxy
  | EvNotify bool
  | EvAddListener nat
  | EvStartAccessPoint string
  | EvStopAccessPoint
  | EvOpenSslSocket "nat option" brillo_error string "16 word" nat
  | EvOwnerChange shill_env string string
  | EvManagerRegistration shill_env bool
  | EvManagerProperty shill_env string any_value
  | EvDeviceRegistration shill_env string bool
  | EvDeviceProperty shill_env string string any_value
  | EvServiceRegistration shill_env string bool
  | EvServiceProperty string string any_value

fun shill_step :: "shill_names \<Rightarrow> ShillClient \<Rightarrow> shill_event \<Rightarrow> ShillClient result" where
  "shill_step k s (EvConnect env ssid passphrase cb) = Inr (ShillClient_Connect k env ssid passphrase cb s)"
| "shill_step k s (EvConnectTimeout service) = Inr (ConnectToServiceError k (Some service) s)"
| "shill_step k s (EvNotify am_online) = Inr (NotifyConnectivityListeners am_online s)"
| "shill_step k s (EvAddListener l) = Inr (AddConnectionChangedCallback l s)"
| "shill_step k s (EvStartAccessPoint ssid) = Inr (StartAccessPoint ssid s)"
| "shill_step k s EvStopAccessPoint = Inr (StopAccessPoint s)"
| "shill_step k s (EvOpenSslSocket r e host port cb) = Inr (OpenSslSocket (\<lambda>_ _. r) e host port cb s)"
| "shill_step k s (EvOwnerChange env old new) = OnShillServiceOwnerChange k env old new s"
| "shill_step k s (EvManagerRegistration env success) = OnManagerPropertyChangeRegistration k env success s"
| "shill_step k s (EvManagerProperty env name v) = Inr (OnManagerPropertyChange k env name v s)"
| "shill_step k s (EvDeviceRegistration env path success) =
     OnDevicePropertyChangeRegistration k env path success s"
| "shill_step k s (EvDeviceProperty env path name v) = Inr (OnDevicePropertyChange k env path name v s)"
| "shill_step k s (EvServiceRegistration env path success) =
     OnServicePropertyChangeRegistration k env path success s"
| "shill_step k s (EvServiceProperty path name v) = OnServicePropertyChange k path name v s"

end
