(* ===== verification/Shill_Connectivity.thy ===== *)
theory Shill_Connectivity
  imports Shill_Client
begin

text \<open>
  The invariant of \<open>ShillClient\<close> and what follows from it: the connectivity state is always the
  best state of the monitored devices, a device without a selected service is offline, a client
  that is not connecting holds no done callback, and every service proxy it ever handed out is
  older than the next one.
\<close>

section \<open>The best state\<close>

lemma most_connected_ge:
  "state_value k best \<le>
   state_value k (foldl (\<lambda>best st. if state_value k st > state_value k best then st else best) best sts)"
  by (induction sts arbitrary: best) (auto intro: order_trans less_imp_le)

lemma most_connected_append:
  "most_connected k (xs @ ys) =
   foldl (\<lambda>best st. if state_value k st > state_value k best then st else best) (most_connected k xs) ys"
  by (simp add: most_connected_def)

lemma most_connected_offline: "most_connected k (xs @ Network_kOffline # ys) = most_connected k (xs @ ys)"
proof -
  have "state_value k Network_kOffline \<le> state_value k (most_connected k xs)"
    unfolding most_connected_def by (rule most_connected_ge)
  then show ?thesis by (simp add: most_connected_append)
qed

lemma most_connected_mem: "most_connected k sts \<in> insert Network_kOffline (set sts)"
proof -
  have "foldl (\<lambda>best st. if state_value k st > state_value k best then st else best) b sts
      \<in> insert b (set sts)" for b
    by (induction sts arbitrary: b) (auto split: if_splits)
  then show ?thesis by (simp add: most_connected_def)
qed

lemma most_connected_max:
  "st \<in> insert Network_kOffline (set sts) \<Longrightarrow> state_value k st \<le> state_value k (most_connected k sts)"
proof -
  let ?f = "\<lambda>best st. if state_value k st > state_value k best then st else best"
  have "\<forall>st \<in> insert b (set sts). state_value k st \<le> state_value k (foldl ?f b sts)" for b
  proof (induction sts arbitrary: b)
    case (Cons s sts)
    show ?case using Cons.IH [of "?f b s"] by (auto split: if_splits)
  qed simp
  then show "st \<in> insert Network_kOffline (set sts) \<Longrightarrow> ?thesis"
    by (auto simp: most_connected_def)
qed

abbreviation device_states :: "(string, DeviceState) smap \<Rightarrow> Network_State list" where
  "device_states m \<equiv> map (\<lambda>kv. service_state (snd kv)) m"

lemma smap_put_new:
  "map_of m p = None \<Longrightarrow> \<exists>xs ys. m = xs @ ys \<and> smap_put p v m = xs @ (p, v) # ys"
proof (induction m rule: smap_put.induct)
  case (2 k v k' v' m)
  show ?case
  proof (cases "k < k'")
    case True
    then show ?thesis by (intro exI [of _ "[]"] exI [of _ "(k', v') # m"]) simp
  next
    case False
    with "2.prems" have "k \<noteq> k'" "map_of m k = None" by (auto split: if_splits)
    with False 2 obtain xs ys where "m = xs @ ys" "smap_put k v m = xs @ (k, v) # ys" by blast
    with False \<open>k \<noteq> k'\<close> show ?thesis by (intro exI [of _ "(k', v') # xs"] exI [of _ ys]) simp
  qed
qed simp

lemma most_connected_put_new:
  assumes "map_of m p = None"
  shows "most_connected k (device_states (smap_put p new_DeviceState m)) = most_connected k (device_states m)"
proof -
  obtain xs ys where "m = xs @ ys" and "smap_put p new_DeviceState m = xs @ (p, new_DeviceState) # ys"
    using smap_put_new [OF assms] by blast
  then show ?thesis by (simp add: new_DeviceState_def most_connected_offline)
qed

lemma device_states_put_same:
  "smap_wf m \<Longrightarrow> map_of m p = Some d \<Longrightarrow> service_state d' = service_state d \<Longrightarrow>
   device_states (smap_put p d' m) = device_states m"
proof (induction m rule: smap_put.induct)
  case (2 k v k' v' m)
  have "\<not> k < k'" if "k \<noteq> k'"
  proof
    assume "k < k'"
    moreover have "(k, d) \<in> set m" using 2 that by (auto dest: map_of_SomeD split: if_splits)
    ultimately show False using "2.prems"(1) by (force simp: smap_wf_simps)
  qed
  then show ?case using 2 by (auto simp: smap_wf_simps split: if_splits)
qed simp

section \<open>The invariant\<close>

definition proxies_of :: "ShillClient \<Rightarrow> ServiceProxy set" where
  "proxies_of s = set_option (connecting_service s) \<union>
     {service. \<exists>kv \<in> set (sc_devices s). selected_service (snd kv) = Some service} \<union>
     {service. PostConnectTimeout service \<in> set (sc_effects s)}"

definition shill_base :: "ShillClient \<Rightarrow> bool" where
  "shill_base s \<longleftrightarrow>
     smap_wf (sc_devices s) \<and>
     (\<forall>kv \<in> set (sc_devices s). selected_service (snd kv) = None \<longrightarrow> service_state (snd kv) = Network_kOffline) \<and>
     (connecting_service s = None \<longrightarrow> connect_done_callback s = None \<and> \<not> have_called_connect s) \<and>
     (\<forall>service \<in> proxies_of s. proxy_id service < proxies_made s)"

definition shill_inv :: "shill_names \<Rightarrow> ShillClient \<Rightarrow> bool" where
  "shill_inv k s \<longleftrightarrow> shill_base s \<and> connectivity_state s = most_connected k (device_states (sc_devices s))"

named_theorems shill_keeps \<open>every operation keeps the invariant\<close>

lemma shill_base_emit [shill_keeps]:
  "shill_base s \<Longrightarrow> (\<forall>service. e = PostConnectTimeout service \<longrightarrow> proxy_id service < proxies_made s) \<Longrightarrow>
   shill_base (sc_emit e s)"
  by (auto simp: shill_base_def proxies_of_def sc_emit_def)

lemma sc_emit_fields [simp]:
  "sc_devices (sc_emit e s) = sc_devices s" "connectivity_state (sc_emit e s) = connectivity_state s"
  "connecting_service (sc_emit e s) = connecting_service s"
  "connecting_service_error (sc_emit e s) = connecting_service_error s"
  "connect_done_callback (sc_emit e s) = connect_done_callback s"
  "have_called_connect (sc_emit e s) = have_called_connect s"
  "proxies_made (sc_emit e s) = proxies_made s"
  "connectivity_listeners (sc_emit e s) = connectivity_listeners s"
  "sc_disable_xmpp (sc_emit e s) = sc_disable_xmpp s"
  "sc_device_whitelist (sc_emit e s) = sc_device_whitelist s"
  "sc_effects (sc_emit e s) = sc_effects s @ [e]"
  by (simp_all add: sc_emit_def)

lemma shill_inv_emit [shill_keeps]:
  "shill_inv k s \<Longrightarrow> (\<forall>service. e = PostConnectTimeout service \<longrightarrow> proxy_id service < proxies_made s) \<Longrightarrow>
   shill_inv k (sc_emit e s)"
  by (simp add: shill_inv_def shill_base_emit)

lemma cleanup_fields [simp]:
  "sc_devices (CleanupConnectingService s) = sc_devices s"
  "connectivity_state (CleanupConnectingService s) = connectivity_state s"
  "connecting_service (CleanupConnectingService s) = None"
  "connect_done_callback (CleanupConnectingService s) = None"
  "have_called_connect (CleanupConnectingService s) = False"
  "connecting_service_error (CleanupConnectingService s) = connecting_service_error s"
  "proxies_made (CleanupConnectingService s) = proxies_made s"
  "sc_device_whitelist (CleanupConnectingService s) = sc_device_whitelist s"
  by (simp_all add: CleanupConnectingService_def split: option.split)

lemma cleanup_effects:
  "sc_effects (CleanupConnectingService s) =
   sc_effects s @ (case connecting_service s of None \<Rightarrow> [] | Some service \<Rightarrow> [CallReleaseObjectProxy service])"
  by (simp add: CleanupConnectingService_def split: option.split)

lemma proxies_of_cleanup: "proxies_of (CleanupConnectingService s) \<subseteq> proxies_of s"
  by (auto simp: proxies_of_def cleanup_effects split: option.splits)

lemma shill_base_cleanup [shill_keeps]: "shill_base s \<Longrightarrow> shill_base (CleanupConnectingService s)"
  using proxies_of_cleanup [of s] by (auto simp: shill_base_def)

lemma shill_inv_cleanup [shill_keeps]: "shill_inv k s \<Longrightarrow> shill_inv k (CleanupConnectingService s)"
  by (simp add: shill_inv_def shill_base_cleanup)

text \<open>\<open>UpdateConnectivityState\<close> establishes the equation on the connectivity state.\<close>

lemma shill_inv_Update [shill_keeps]: "shill_base s \<Longrightarrow> shill_inv k (UpdateConnectivityState k s)"
proof -
  assume base: "shill_base s"
  let ?s = "s\<lparr>connectivity_state := most_connected k (device_states (sc_devices s))\<rparr>"
  have "shill_base ?s" using base by (simp add: shill_base_def proxies_of_def)
  then have "shill_inv k ?s" by (simp add: shill_inv_def)
  then show ?thesis by (simp add: UpdateConnectivityState_def Let_def shill_inv_emit)
qed

text \<open>Replacing one device entry.\<close>

lemma set_smap_put: "set (smap_put p d m) \<subseteq> insert (p, d) (set m)"
  by (induction p d m rule: smap_put.induct) auto

lemma shill_base_put:
  assumes "shill_base s" and "selected_service d = None \<Longrightarrow> service_state d = Network_kOffline"
    and "\<And>service. selected_service d = Some service \<Longrightarrow> proxy_id service < proxies_made s"
  shows "shill_base (s\<lparr>sc_devices := smap_put p d (sc_devices s)\<rparr>)"
proof -
  let ?s = "s\<lparr>sc_devices := smap_put p d (sc_devices s)\<rparr>"
  have mem: "kv \<in> set (sc_devices ?s) \<Longrightarrow> kv = (p, d) \<or> kv \<in> set (sc_devices s)" for kv
    using set_smap_put [of p d "sc_devices s"] by auto
  then have "proxies_of ?s \<subseteq> proxies_of s \<union> set_option (selected_service d)"
    by (fastforce simp: proxies_of_def)
  then have "\<forall>service \<in> proxies_of ?s. proxy_id service < proxies_made ?s"
    using assms(1,3) by (auto simp: shill_base_def)
  moreover have "\<forall>kv \<in> set (sc_devices ?s).
      selected_service (snd kv) = None \<longrightarrow> service_state (snd kv) = Network_kOffline"
    using mem assms(1,2) by (force simp: shill_base_def)
  ultimately show ?thesis using assms(1) by (simp add: shill_base_def)
qed

lemma shill_base_erase:
  assumes "shill_base s"
  shows "shill_base (s\<lparr>sc_devices := fold smap_erase ks (sc_devices s)\<rparr>)"
proof -
  have sub: "set (fold smap_erase ks m) \<subseteq> set m" for m :: "(string, DeviceState) smap"
  proof (induction ks arbitrary: m)
    case (Cons a ks)
    have "set (fold smap_erase ks (smap_erase a m)) \<subseteq> set (smap_erase a m)" by (rule Cons.IH)
    then show ?case by (auto simp: set_smap_erase)
  qed simp
  have "proxies_of (s\<lparr>sc_devices := fold smap_erase ks (sc_devices s)\<rparr>) \<subseteq> proxies_of s"
    using sub by (auto simp: proxies_of_def)
  then show ?thesis
    using assms sub [of "sc_devices s"] smap.wf_erase_all by (auto simp: shill_base_def)
qed

lemma shill_inv_put_new:
  assumes "shill_inv k s" and "map_of (sc_devices s) p = None"
  shows "shill_inv k (s\<lparr>sc_devices := smap_put p new_DeviceState (sc_devices s)\<rparr>)"
  using assms shill_base_put [of s new_DeviceState p]
  by (simp add: shill_inv_def most_connected_put_new) (simp add: new_DeviceState_def)

section \<open>Every operation keeps it\<close>

lemma device_list_loop_keeps:
  "shill_inv k s \<Longrightarrow> shill_inv k (fst (device_list_loop k env paths to_remove update s))"
proof (induction k env paths to_remove update s rule: device_list_loop.induct)
  case (2 k env device_path paths to_remove update s)
  then show ?case
    by (auto split: option.split intro!: shill_inv_emit shill_inv_put_new)
qed simp

lemma OnManagerPropertyChange_keeps [shill_keeps]:
  assumes "shill_inv k s"
  shows "shill_inv k (OnManagerPropertyChange k env name v s)"
proof -
  obtain s' r where loop: "device_list_loop k env (TryGet_ObjectPaths v) (map fst (sc_devices s)) False s = (s', r)"
    by fastforce
  then have inv: "shill_inv k s'" using device_list_loop_keeps [OF assms] by (metis fst_conv)
  then have base: "shill_base (s'\<lparr>sc_devices := fold smap_erase ks (sc_devices s')\<rparr>)" for ks
    by (simp add: shill_inv_def shill_base_erase)
  show ?thesis
    using assms inv base
    by (auto simp: OnManagerPropertyChange_def loop Let_def shill_inv_Update split: option.split)
qed

lemma read_device_list_keeps:
  "shill_inv k s \<Longrightarrow> read_device_list k env s = Inr s' \<Longrightarrow> shill_inv k s'"
  by (auto simp: read_device_list_def OnManagerPropertyChange_keeps split: option.splits)

lemma shill_inv_no_devices:
  assumes "shill_base s"
  shows "shill_inv k (s\<lparr>sc_devices := [], connectivity_state := Network_kOffline\<rparr>)"
proof -
  have "proxies_of (s\<lparr>sc_devices := [], connectivity_state := Network_kOffline\<rparr>) \<subseteq> proxies_of s"
    by (auto simp: proxies_of_def)
  then show ?thesis
    using assms by (auto simp: shill_inv_def shill_base_def most_connected_def smap_wf_simps)
qed

lemma ShillClient_Init_keeps:
  "shill_base s \<Longrightarrow> ShillClient_Init k env s = Inr s' \<Longrightarrow> shill_inv k s'"
  by (auto simp: ShillClient_Init_def Let_def
      intro: read_device_list_keeps shill_inv_no_devices shill_base_cleanup)

lemma OnShillServiceOwnerChange_keeps:
  "shill_inv k s \<Longrightarrow> OnShillServiceOwnerChange k env old new s = Inr s' \<Longrightarrow> shill_inv k s'"
  by (auto simp: OnShillServiceOwnerChange_def Let_def shill_inv_def [of k s]
      intro: ShillClient_Init_keeps shill_inv_no_devices shill_base_cleanup split: if_splits)

lemma OnErrorChange_keeps [shill_keeps]:
  "shill_inv k s \<Longrightarrow> shill_inv k (OnErrorChangeForConnectingService error s)"
  by (simp add: OnErrorChangeForConnectingService_def Let_def shill_keeps split: option.split)

lemma ConnectToServiceError_keeps [shill_keeps]:
  "shill_inv k s \<Longrightarrow> shill_inv k (ConnectToServiceError k service s)"
  by (simp add: ConnectToServiceError_def Let_def shill_keeps)

lemma shill_inv_drop_callback:
  "shill_inv k s \<Longrightarrow> shill_inv k (s\<lparr>connect_done_callback := None\<rparr>)"
  by (simp add: shill_inv_def shill_base_def proxies_of_def)

lemma OnStateChangeForConnectingService_keeps [shill_keeps]:
  "shill_inv k s \<Longrightarrow> shill_inv k (OnStateChangeForConnectingService k state s)"
  by (simp add: OnStateChangeForConnectingService_def Let_def shill_keeps shill_inv_drop_callback
      split: Network_State.split option.split)

lemma shill_inv_called:
  "shill_inv k s \<Longrightarrow> connecting_service s \<noteq> None \<Longrightarrow> shill_inv k (s\<lparr>have_called_connect := True\<rparr>)"
  by (simp add: shill_inv_def shill_base_def proxies_of_def)

lemma OnStrengthChange_keeps:
  "shill_inv k s \<Longrightarrow> OnStrengthChangeForConnectingService strength s = Inr s' \<Longrightarrow> shill_inv k s'"
  by (auto simp: OnStrengthChangeForConnectingService_def Let_def shill_inv_emit shill_inv_called
      split: if_splits option.splits)

lemma set_first_selected_states:
  "set_first_selected path st m = Some m' \<Longrightarrow>
   map fst m' = map fst m \<and>
   (\<forall>kv' \<in> set m'. \<exists>kv \<in> set m. selected_service (snd kv') = selected_service (snd kv) \<and>
      (service_state (snd kv') = service_state (snd kv) \<or> selected_service (snd kv') \<noteq> None))"
proof (induction m arbitrary: m')
  case (Cons kv m)
  obtain p d where kv: "kv = (p, d)" by (cases kv)
  show ?case
  proof (cases "selects path d")
    case True
    with Cons.prems kv have m': "m' = (p, d\<lparr>service_state := st\<rparr>) # m" by simp
    have "selected_service d \<noteq> None" using True by (auto simp: selects_def split: option.splits)
    then show ?thesis using m' kv by fastforce
  next
    case False
    with Cons.prems kv obtain m1 where "set_first_selected path st m = Some m1" "m' = (p, d) # m1" by auto
    with Cons.IH kv show ?thesis by fastforce
  qed
qed simp

lemma shill_base_same_services:
  assumes "shill_base s" and "map fst m = map fst (sc_devices s)"
    and "\<forall>kv' \<in> set m. \<exists>kv \<in> set (sc_devices s). selected_service (snd kv') = selected_service (snd kv) \<and>
      (service_state (snd kv') = service_state (snd kv) \<or> selected_service (snd kv') \<noteq> None)"
  shows "shill_base (s\<lparr>sc_devices := m\<rparr>)"
proof -
  have "proxies_of (s\<lparr>sc_devices := m\<rparr>) \<subseteq> proxies_of s"
  proof
    fix x assume "x \<in> proxies_of (s\<lparr>sc_devices := m\<rparr>)"
    moreover have "x \<in> proxies_of s" if "kv' \<in> set m" "selected_service (snd kv') = Some x" for kv'
    proof -
      from bspec [OF assms(3) that(1)]
      obtain kv where "kv \<in> set (sc_devices s)" "selected_service (snd kv') = selected_service (snd kv)"
        by (elim bexE conjE)
      then have "x \<in> {service. \<exists>kv \<in> set (sc_devices s). selected_service (snd kv) = Some service}"
        using that(2) by (intro CollectI bexI [of _ kv]) simp_all
      then show ?thesis by (simp add: proxies_of_def)
    qed
    ultimately show "x \<in> proxies_of s" by (auto simp: proxies_of_def)
  qed
  moreover have "smap_wf m" using assms(1,2) by (simp add: shill_base_def smap_wf_def)
  moreover have "\<forall>kv \<in> set m. selected_service (snd kv) = None \<longrightarrow> service_state (snd kv) = Network_kOffline"
  proof (intro ballI impI)
    fix kv' assume kv': "kv' \<in> set m" and none: "selected_service (snd kv') = None"
    from bspec [OF assms(3) kv'] obtain kv where "kv \<in> set (sc_devices s)"
      "selected_service (snd kv) = None" "service_state (snd kv') = service_state (snd kv)"
      using none by (elim bexE conjE) simp
    then show "service_state (snd kv') = Network_kOffline"
      using assms(1) unfolding shill_base_def by simp
  qed
  ultimately show ?thesis using assms(1) unfolding shill_base_def by auto
qed

lemma OnStateChangeForSelectedService_keeps [shill_keeps]:
  assumes "shill_inv k s"
  shows "shill_inv k (OnStateChangeForSelectedService k path state s)"
proof (cases "set_first_selected path (ShillServiceStateToNetworkState k state) (sc_devices s)")
  case (Some m)
  then have "shill_base (s\<lparr>sc_devices := m\<rparr>)"
    using assms set_first_selected_states [OF Some] by (simp add: shill_inv_def shill_base_same_services)
  then show ?thesis by (simp add: OnStateChangeForSelectedService_def Some shill_inv_Update)
qed (simp add: OnStateChangeForSelectedService_def assms)

lemma OnServicePropertyChange_keeps:
  assumes "shill_inv k s" and "OnServicePropertyChange k path name v s = Inr s'"
  shows "shill_inv k s'"
proof -
  have "shill_inv k (s\<lparr>connecting_service_error := e\<rparr>)" for e
    using assms(1) by (simp add: shill_inv_def shill_base_def proxies_of_def)
  then show ?thesis
    using assms
    by (auto simp: OnServicePropertyChange_def Let_def shill_keeps OnStrengthChange_keeps split: if_splits)
qed

lemma initial_properties_keeps:
  "shill_inv k s \<Longrightarrow> initial_properties k path props names s = Inr s' \<Longrightarrow> shill_inv k s'"
  by (induction names arbitrary: s)
    (auto split: option.splits intro: OnServicePropertyChange_keeps)

lemma OnServicePropertyChangeRegistration_keeps:
  assumes "shill_inv k s" and "OnServicePropertyChangeRegistration k env path success s = Inr s'"
  shows "shill_inv k s'"
  using assms
  by (auto simp: OnServicePropertyChangeRegistration_def Let_def shill_keeps
      simp del: initial_properties.simps
      intro: initial_properties_keeps split: if_splits option.splits prod.splits)

lemma selects_new [simp]: "\<not> selects path new_DeviceState"
  by (simp add: selects_def new_DeviceState_def)

lemma shill_inv_listeners:
  "shill_inv k s \<Longrightarrow> shill_inv k (AddConnectionChangedCallback l s)"
  by (simp add: AddConnectionChangedCallback_def shill_inv_def shill_base_def proxies_of_def)

lemma shill_base_offline_device:
  assumes "shill_base s" and "map_of (sc_devices s) p = Some d" and "selected_service d = None"
  shows "d = new_DeviceState"
proof -
  have "(p, d) \<in> set (sc_devices s)" using assms(2) by (rule map_of_SomeD)
  then have "service_state d = Network_kOffline" using assms(1,3) by (fastforce simp: shill_base_def)
  with assms(3) show ?thesis by (simp add: new_DeviceState_def)
qed

lemma shill_inv_put_offline:
  assumes "shill_inv k s" and "map_of (sc_devices s) p = Some d" and "selected_service d = None"
    and "service_state d' = Network_kOffline"
    and "\<And>service. selected_service d' = Some service \<Longrightarrow> proxy_id service < proxies_made s"
  shows "shill_inv k (s\<lparr>sc_devices := smap_put p d' (sc_devices s)\<rparr>)"
proof -
  have base: "shill_base s" and wf: "smap_wf (sc_devices s)"
    using assms(1) by (simp_all add: shill_inv_def shill_base_def)
  have "service_state d' = service_state d"
    using shill_base_offline_device [OF base assms(2,3)] assms(4) by (simp add: new_DeviceState_def)
  then have "device_states (smap_put p d' (sc_devices s)) = device_states (sc_devices s)"
    by (rule device_states_put_same [OF wf assms(2)])
  then show ?thesis
    using assms(1,4,5) base shill_base_put [of s d' p] by (simp add: shill_inv_def)
qed

lemma shill_inv_new_proxy:
  "shill_inv k s \<Longrightarrow> shill_inv k (s\<lparr>proxies_made := Suc (proxies_made s)\<rparr>)"
  by (auto simp: shill_inv_def shill_base_def proxies_of_def intro: less_SucI)

lemma OnDevicePropertyChange_keeps [shill_keeps]:
  assumes "shill_inv k s"
  shows "shill_inv k (OnDevicePropertyChange k env path name v s)"
proof (cases "map_of (sc_devices s) path")
  case (Some d)
  let ?path = "TryGet_ObjectPath v"
  let ?old = "selected_service d \<noteq> None"
  show ?thesis
  proof (cases "name = kSelectedServiceProperty k \<and> IsValid k ?path \<and> \<not> selects ?path d")
    case True
    note unfold = OnDevicePropertyChange_def Some Let_def True
    have base: "shill_base s" using assms by (simp add: shill_inv_def)
    have d1: "(if ?old then new_DeviceState else d) = new_DeviceState"
      using shill_base_offline_device [OF base Some] by simp
    show ?thesis
    proof (cases "?path \<noteq> ''/'' \<and> is_connecting ?path s")
      case reuse: True
      then obtain service where service: "connecting_service s = Some service"
        by (auto simp: is_connecting_def split: option.splits)
      then have fresh: "proxy_id service < proxies_made s"
        using base by (simp add: shill_base_def proxies_of_def)
      have "shill_inv k (UpdateConnectivityState k (s\<lparr>sc_devices :=
          smap_put path (new_DeviceState\<lparr>selected_service := Some service, service_state := st\<rparr>) (sc_devices s)\<rparr>))" for st
        by (intro shill_inv_Update shill_base_put base) (use fresh in auto)
      note this [of Network_kOffline] this
      then show ?thesis
        using reuse service d1
        by (auto simp: unfold new_DeviceState_def split: option.split if_splits)
    next
      case other: False
      show ?thesis
      proof (cases "?path = ''/''")
        case True
        have "shill_base (s\<lparr>sc_devices := smap_put path new_DeviceState (sc_devices s)\<rparr>)"
          by (intro shill_base_put base) (simp_all add: new_DeviceState_def)
        moreover have "shill_inv k (s\<lparr>sc_devices := smap_put path new_DeviceState (sc_devices s)\<rparr>)"
          if "selected_service d = None"
          by (rule shill_inv_put_offline [OF assms Some that]) (simp_all add: new_DeviceState_def)
        ultimately show ?thesis
          using True \<open>name = _ \<and> _\<close> shill_base_offline_device [OF base Some]
          by (cases "selected_service d") (simp_all add: OnDevicePropertyChange_def Some Let_def shill_inv_Update)
      next
        case False
        let ?service = "ServiceProxy (proxies_made s) ?path"
        let ?s1 = "sc_emit (RegisterServiceSignals ?service) (s\<lparr>proxies_made := Suc (proxies_made s)\<rparr>)"
        let ?d2 = "new_DeviceState\<lparr>selected_service := Some ?service\<rparr>"
        have inv1: "shill_inv k ?s1" by (simp add: shill_inv_emit shill_inv_new_proxy assms)
        then have base1: "shill_base ?s1" by (simp add: shill_inv_def)
        have "shill_base (?s1\<lparr>sc_devices := smap_put path ?d2 (sc_devices ?s1)\<rparr>)"
          by (rule shill_base_put [OF base1]) auto
        moreover have "shill_inv k (?s1\<lparr>sc_devices := smap_put path ?d2 (sc_devices ?s1)\<rparr>)"
          if "selected_service d = None"
          by (rule shill_inv_put_offline [OF inv1 _ that]) (use Some in \<open>auto simp: new_DeviceState_def\<close>)
        ultimately show ?thesis
          using False other shill_base_offline_device [OF base Some]
          by (cases "selected_service d")
            (simp_all add: OnDevicePropertyChange_def Some Let_def \<open>name = _ \<and> _\<close> new_ServiceProxy_def
              shill_inv_Update)
      qed
    qed
  qed (use assms in \<open>auto simp: OnDevicePropertyChange_def Some Let_def\<close>)
qed (use assms in \<open>simp add: OnDevicePropertyChange_def\<close>)

lemma OnDevicePropertyChangeRegistration_keeps:
  "shill_inv k s \<Longrightarrow> OnDevicePropertyChangeRegistration k env path success s = Inr s' \<Longrightarrow> shill_inv k s'"
  by (auto simp: OnDevicePropertyChangeRegistration_def OnDevicePropertyChange_keeps split: option.splits)

lemma ShillClient_Connect_keeps [shill_keeps]:
  assumes "shill_inv k s"
  shows "shill_inv k (ShillClient_Connect k env ssid passphrase cb s)"
proof -
  let ?c = "CleanupConnectingService s"
  have "shill_inv k (sc_emit (PostConnectTimeout (ServiceProxy (proxies_made s) path))
      (sc_emit (RegisterServiceSignals (ServiceProxy (proxies_made s) path))
        ((sc_emit (CallConnect (ServiceProxy (proxies_made s) path))
          (?c\<lparr>proxies_made := Suc (proxies_made s),
             connecting_service := Some (ServiceProxy (proxies_made s) path)\<rparr>))
         \<lparr>connect_done_callback := cb\<rparr>)))" for path
    using shill_inv_cleanup [OF assms]
    by (auto simp: shill_inv_def shill_base_def proxies_of_def sc_emit_def intro: less_SucI)
  then show ?thesis
    using assms
    by (auto simp: ShillClient_Connect_def Let_def new_ServiceProxy_def shill_keeps
        split: sum.split option.split)
qed

lemma emit_all_keeps:
  "shill_inv k s \<Longrightarrow> shill_inv k (fold (\<lambda>l. sc_emit (RunConnectionListener l)) ls s)"
  by (induction ls arbitrary: s) (simp_all add: shill_inv_emit)

lemma shill_step_keeps: "shill_inv k s \<Longrightarrow> shill_step k s e = Inr s' \<Longrightarrow> shill_inv k s'"
proof (induction k s e rule: shill_step.induct)
  case (7 k s r e host port cb)
  then show ?case by (auto simp: OpenSslSocket_def shill_keeps split: if_splits option.splits)
qed (auto simp: shill_keeps NotifyConnectivityListeners_def emit_all_keeps shill_inv_listeners
    StartAccessPoint_def StopAccessPoint_def OnManagerPropertyChangeRegistration_def
    intro: OnShillServiceOwnerChange_keeps read_device_list_keeps OnDevicePropertyChangeRegistration_keeps
      OnServicePropertyChangeRegistration_keeps OnServicePropertyChange_keeps)

interpretation shill: guarded_component
    "\<lambda>s. \<exists>env whitelist disable. new_ShillClient k env whitelist disable = Inr s"
    "shill_step k" "shill_inv k"
  for k
proof
  show "shill_inv k s" if "\<exists>env whitelist disable. new_ShillClient k env whitelist disable = Inr s" for s
    using that by (auto simp: new_ShillClient_def shill_base_def blank_ShillClient_def smap_wf_simps
        proxies_of_def intro!: ShillClient_Init_keeps)
qed (rule shill_step_keeps)

lemma shill_reachable_inv:
  "new_ShillClient k env whitelist disable = Inr s0 \<Longrightarrow> run (shill_step k) s0 es = Inr s \<Longrightarrow> shill_inv k s"
  by (rule shill.inv_run) auto

section \<open>Properties\<close>

definition sample_shill :: shill_names where
  "sample_shill = \<lparr>kDevicesProperty = ''Devices'', kSelectedServiceProperty = ''SelectedService'',
     kStateProperty = ''State'', kSignalStrengthProperty = ''Strength'', kErrorProperty = ''Error'',
     kInterfaceProperty = ''Interface'', kTypeProperty = ''Type'', kSSIDProperty = ''SSID'',
     kSecurityProperty = ''Security'', kPassphraseProperty = ''Passphrase'',
     kSaveCredentialsProperty = ''SaveCredentials'', kAutoConnectProperty = ''AutoConnect'',
     kTypeWifi = ''wifi'', kSecurityNone = ''none'', kSecurityPsk = ''psk'', kStateReady = ''ready'',
     kStatePortal = ''portal'', kStateOnline = ''online'', kStateAssociation = ''association'',
     kStateConfiguration = ''configuration'', kStateFailure = ''failure'',
     kStateActivationFailure = ''activation-failure'', kStateIdle = ''idle'', kStateOffline = ''offline'',
     kStateDisconnect = ''disconnect'', kErrorOutOfRange = ''out-of-range'',
     kErrorInternal = ''internal-error'',
     state_value = (\<lambda>st. case st of Network_kOffline \<Rightarrow> 0 | Network_kError \<Rightarrow> 1
        | Network_kConnecting \<Rightarrow> 2 | Network_kOnline \<Rightarrow> 3),
     IsValid = (\<lambda>p. p \<noteq> [] \<and> hd p = CHR ''/'')\<rparr>"

definition any_of :: "string \<Rightarrow> string \<Rightarrow> string list \<Rightarrow> 8 word \<Rightarrow> any_value" where
  "any_of s p ps u = \<lparr>TryGet_string = s, TryGet_ObjectPath = p, TryGet_ObjectPaths = ps, TryGet_uint8 = u\<rparr>"

definition quiet_env :: shill_env where
  "quiet_env = \<lparr>manager_GetProperties = None, device_GetProperties = (\<lambda>_. None),
     service_GetProperties = (\<lambda>_. None),
     ConfigureService = (\<lambda>_. Inr ''/service/7''), RequestScan = (\<lambda>_. None)\<rparr>"

lemmas shill_eval =
  quiet_env_def any_of_def new_ShillClient_def ShillClient_Init_def blank_ShillClient_def Let_def
  read_device_list_def OnManagerPropertyChange_def OnDevicePropertyChange_def
  OnServicePropertyChange_def OnStateChangeForSelectedService_def OnStateChangeForConnectingService_def
  UpdateConnectivityState_def most_connected_def IsMonitoredDevice_def selects_def is_connecting_def
  ShillServiceStateToNetworkState_def new_ServiceProxy_def new_DeviceState_def sc_emit_def
  CleanupConnectingService_def GetConnectionState_def ShillClient_Connect_def
  OnStrengthChangeForConnectingService_def ConnectToServiceError_def OnErrorChangeForConnectingService_def
  OnShillServiceOwnerChange_def weave_AddTo_def

definition online_run :: "shill_event list" where
  "online_run =
     [EvManagerProperty quiet_env ''Devices'' (any_of [] [] [''/device/wlan0''] 0),
      EvDeviceProperty quiet_env ''/device/wlan0'' ''SelectedService'' (any_of [] ''/service/1'' [] 0),
      EvServiceProperty ''/service/1'' ''State'' (any_of ''online'' [] [] 0)]"

lemma online_run_ends:
  obtains s0 s where "new_ShillClient sample_shill quiet_env {} False = Inr s0"
    and "run (shill_step sample_shill) s0 online_run = Inr s"
    and "connectivity_state s = Network_kOnline"
    and "sc_devices s = [(''/device/wlan0'',
      \<lparr>selected_service = Some (ServiceProxy 0 ''/service/1''), service_state = Network_kOnline\<rparr>)]"
proof -
  have "bind_result (new_ShillClient sample_shill quiet_env {} False)
      (\<lambda>s0. bind_result (run (shill_step sample_shill) s0 online_run)
        (\<lambda>s. Inr (connectivity_state s, sc_devices s))) =
    Inr (Network_kOnline, [(''/device/wlan0'',
      \<lparr>selected_service = Some (ServiceProxy 0 ''/service/1''), service_state = Network_kOnline\<rparr>)])"
    by code_simp
  then show ?thesis using that by auto
qed

text \<open>
  Property C10.  In every reachable state of \<open>ShillClient\<close> the connectivity state is the best
  state among its devices (offline if there is none better): no monitored device is better
  connected, and some device has it unless it is offline.
\<close>

theorem connectivity_is_best_device_state:
  assumes "new_ShillClient k env whitelist disable = Inr s0"
    and "run (shill_step k) s0 es = Inr s"
  shows "GetConnectionState s \<in> insert Network_kOffline (set (device_states (sc_devices s))) \<and>
    (\<forall>st \<in> insert Network_kOffline (set (device_states (sc_devices s))).
      state_value k st \<le> state_value k (GetConnectionState s))"
proof -
  have "connectivity_state s = most_connected k (device_states (sc_devices s))"
    using shill_reachable_inv [OF assms] by (simp add: shill_inv_def)
  then show ?thesis
    using most_connected_mem most_connected_max unfolding GetConnectionState_def by metis
qed

theorem connectivity_is_best_device_state_witness:
  "\<exists>s0 s. new_ShillClient sample_shill quiet_env {} False = Inr s0 \<and>
     run (shill_step sample_shill) s0 online_run = Inr s \<and>
     GetConnectionState s = Network_kOnline \<and>
     GetConnectionState s \<in> insert Network_kOffline (set (device_states (sc_devices s)))"
proof -
  obtain s0 s where new: "new_ShillClient sample_shill quiet_env {} False = Inr s0"
    and run: "run (shill_step sample_shill) s0 online_run = Inr s"
    and online: "connectivity_state s = Network_kOnline"
    by (rule online_run_ends)
  with connectivity_is_best_device_state [OF new run] show ?thesis
    by (auto simp: GetConnectionState_def)
qed

text \<open>
  Property C11.  If online is the highest of the four states, the client is online exactly when some
  monitored device has selected a service that is online.
\<close>

theorem online_iff_selected_service_online:
  assumes "new_ShillClient k env whitelist disable = Inr s0"
    and "run (shill_step k) s0 es = Inr s"
    and top: "\<forall>st. st \<noteq> Network_kOnline \<longrightarrow> state_value k st < state_value k Network_kOnline"
  shows "GetConnectionState s = Network_kOnline \<longleftrightarrow>
    (\<exists>(path, d) \<in> set (sc_devices s). selected_service d \<noteq> None \<and> service_state d = Network_kOnline)"
proof -
  have inv: "shill_inv k s" using assms(1,2) by (rule shill_reachable_inv)
  then have best: "connectivity_state s = most_connected k (device_states (sc_devices s))"
    and none: "\<forall>kv \<in> set (sc_devices s). selected_service (snd kv) = None \<longrightarrow> service_state (snd kv) = Network_kOffline"
    by (simp_all add: shill_inv_def shill_base_def)
  have "most_connected k sts = Network_kOnline \<longleftrightarrow> Network_kOnline \<in> set sts" for sts
    using most_connected_mem [of k sts] most_connected_max [of Network_kOnline sts k] top
    by (metis Network_State.distinct(5) insert_iff leD)
  then show ?thesis
    using best none by (force simp: GetConnectionState_def)
qed

theorem online_iff_selected_service_online_witness:
  "\<exists>s0 s. new_ShillClient sample_shill quiet_env {} False = Inr s0 \<and>
     run (shill_step sample_shill) s0 online_run = Inr s \<and>
     (\<exists>(path, d) \<in> set (sc_devices s). selected_service d \<noteq> None \<and> service_state d = Network_kOnline)"
proof -
  obtain s0 s where new: "new_ShillClient sample_shill quiet_env {} False = Inr s0"
    and run: "run (shill_step sample_shill) s0 online_run = Inr s"
    and online: "connectivity_state s = Network_kOnline"
    by (rule online_run_ends)
  have "\<forall>st. st \<noteq> Network_kOnline \<longrightarrow>
      state_value sample_shill st < state_value sample_shill Network_kOnline"
    by (auto simp: sample_shill_def split: Network_State.split)
  from online_iff_selected_service_online [OF new run this] new run online show ?thesis
    by (auto simp: GetConnectionState_def)
qed

text \<open>
  Property C39.  In every reachable state of \<open>ShillClient\<close> its tables are well formed: devices
  are kept once each in the order of their paths, one without a selected service is offline, a
  client that is not connecting holds no callback of an attempt, and every service proxy it holds is
  older than the next one it makes, so that proxies of different attempts never coincide.
\<close>

theorem shill_state_is_well_formed:
  assumes "new_ShillClient k env whitelist disable = Inr s0"
    and "run (shill_step k) s0 es = Inr s"
  shows "smap_wf (sc_devices s) \<and>
    (\<forall>path d. map_of (sc_devices s) path = Some d \<and> selected_service d = None \<longrightarrow>
       service_state d = Network_kOffline) \<and>
    (connecting_service s = None \<longrightarrow> connect_done_callback s = None \<and> \<not> have_called_connect s) \<and>
    (\<forall>service \<in> proxies_of s. proxy_id service < proxies_made s)"
proof -
  have "shill_base s" using shill_reachable_inv [OF assms] by (simp add: shill_inv_def)
  moreover have "(path, d) \<in> set (sc_devices s)" if "map_of (sc_devices s) path = Some d" for path d
    using that by (rule map_of_SomeD)
  ultimately show ?thesis unfolding shill_base_def by force
qed

theorem shill_state_is_well_formed_witness:
  "\<exists>s0 s. new_ShillClient sample_shill quiet_env {} False = Inr s0 \<and>
     run (shill_step sample_shill) s0 online_run = Inr s \<and>
     GetConnectionState s = Network_kOnline \<and> smap_wf (sc_devices s)"
proof -
  obtain s0 s where new: "new_ShillClient sample_shill quiet_env {} False = Inr s0"
    and run: "run (shill_step sample_shill) s0 online_run = Inr s"
    and online: "connectivity_state s = Network_kOnline"
    by (rule online_run_ends)
  with shill_state_is_well_formed [OF new run] show ?thesis
    by (auto simp: GetConnectionState_def)
qed

end
