(* ===== verification/Shill_Attempts.thy ===== *)
theory Shill_Attempts
  imports Shill_Connectivity
begin

text \<open>
  Connection attempts of \<open>ShillClient\<close>: how often the callback of an attempt can be called, which
  error it gets, and what a timeout that comes late does; the device list; and the absence of null
  dereferences.
\<close>

section \<open>How often a done callback is called\<close>

fun completes :: "nat \<Rightarrow> shill_effect \<Rightarrow> bool" where
  "completes cb (RunDone c _) = (c = cb)"
| "completes cb (PostDone c _) = (c = Some cb)"
| "completes cb _ = False"

fun requests :: "nat \<Rightarrow> shill_event \<Rightarrow> bool" where
  "requests cb (EvConnect _ _ _ c) = (c = Some cb)"
| "requests cb _ = False"

definition completions :: "nat \<Rightarrow> ShillClient \<Rightarrow> nat" where
  "completions cb s = length (filter (completes cb) (sc_effects s))"

definition pending :: "nat \<Rightarrow> ShillClient \<Rightarrow> nat" where
  "pending cb s = (if connect_done_callback s = Some cb then 1 else 0)"

text \<open>What a callback has cost so far: its completions, and the one still owed.\<close>

definition debt :: "nat \<Rightarrow> ShillClient \<Rightarrow> nat" where
  "debt cb s = completions cb s + pending cb s"

named_theorems debts \<open>no operation but Connect adds to the debt\<close>

lemma debt_fields [simp]:
  "debt cb (s\<lparr>sc_devices := m\<rparr>) = debt cb s"
  "debt cb (s\<lparr>sc_devices := m, connectivity_state := st\<rparr>) = debt cb s"
  "debt cb (s\<lparr>connectivity_state := st\<rparr>) = debt cb s"
  "debt cb (s\<lparr>have_called_connect := b\<rparr>) = debt cb s"
  "debt cb (s\<lparr>connecting_service_error := e\<rparr>) = debt cb s"
  "debt cb (s\<lparr>proxies_made := n\<rparr>) = debt cb s"
  "debt cb (s\<lparr>connectivity_listeners := ls\<rparr>) = debt cb s"
  by (simp_all add: debt_def completions_def pending_def)

lemma debt_emit [simp]: "debt cb (sc_emit e s) = debt cb s + (if completes cb e then 1 else 0)"
  by (simp add: debt_def completions_def pending_def)

lemma completions_simps [simp]:
  "completions cb (sc_emit e s) = completions cb s + (if completes cb e then 1 else 0)"
  "completions cb (CleanupConnectingService s) = completions cb s"
  "completions cb (s\<lparr>connect_done_callback := c\<rparr>) = completions cb s"
  "completions cb (s\<lparr>connecting_service := v\<rparr>) = completions cb s"
  "completions cb (s\<lparr>proxies_made := n\<rparr>) = completions cb s"
  by (simp_all add: completions_def cleanup_effects split: option.split)

lemma debt_cleanup: "debt cb (CleanupConnectingService s) = completions cb s"
  by (simp add: debt_def pending_def)

lemma debt_cleanup_le [debts]: "debt cb (CleanupConnectingService s) \<le> debt cb s"
  unfolding debt_cleanup by (simp add: debt_def)

lemma completions_le_debt: "completions cb s \<le> debt cb s"
  by (simp add: debt_def)

lemma debt_Update [debts]: "debt cb (UpdateConnectivityState k s) = debt cb s"
  by (simp add: UpdateConnectivityState_def Let_def)

lemma debt_device_list_loop:
  "debt cb (fst (device_list_loop k env paths rem update s)) = debt cb s"
  by (induction k env paths rem update s rule: device_list_loop.induct) (auto split: option.split)

lemma debt_OnManagerPropertyChange [debts]: "debt cb (OnManagerPropertyChange k env name v s) = debt cb s"
  using debt_device_list_loop [of cb k env "TryGet_ObjectPaths v" "map fst (sc_devices s)" False s]
  by (auto simp: OnManagerPropertyChange_def Let_def debt_Update split: prod.split option.split)

lemma debt_read_device_list: "read_device_list k env s = Inr s' \<Longrightarrow> debt cb s' = debt cb s"
  by (auto simp: read_device_list_def debts split: option.splits)

lemma debt_Init: "ShillClient_Init k env s = Inr s' \<Longrightarrow> debt cb s' \<le> debt cb s"
  unfolding ShillClient_Init_def Let_def
  by (drule debt_read_device_list [where cb = cb]) (simp add: debts)

lemma debt_run_done:
  "debt cb (case connect_done_callback s of None \<Rightarrow> CleanupConnectingService s
            | Some c \<Rightarrow> sc_emit (RunDone c e) (CleanupConnectingService s)) = debt cb s"
  by (simp add: debt_cleanup debt_def pending_def split: option.split)

lemma debt_OnErrorChange [debts]: "debt cb (OnErrorChangeForConnectingService error s) = debt cb s"
  by (simp add: OnErrorChangeForConnectingService_def Let_def debt_run_done)

lemma debt_ConnectToServiceError [debts]: "debt cb (ConnectToServiceError k service s) = debt cb s"
  by (simp add: ConnectToServiceError_def Let_def debts)

lemma cleanup_drop_callback:
  "CleanupConnectingService (s\<lparr>connect_done_callback := None\<rparr>) = CleanupConnectingService s"
  by (simp add: CleanupConnectingService_def sc_emit_def Let_def split: option.split)

lemma debt_OnStateChangeForConnectingService [debts]:
  "debt cb (OnStateChangeForConnectingService k state s) = debt cb s"
  unfolding OnStateChangeForConnectingService_def Let_def cleanup_drop_callback
  by (simp add: debt_ConnectToServiceError debt_run_done split: Network_State.split)

lemma debt_OnStateChangeForSelectedService [debts]:
  "debt cb (OnStateChangeForSelectedService k path state s) = debt cb s"
  by (simp add: OnStateChangeForSelectedService_def debts split: option.split)

lemma debt_OnServicePropertyChange:
  "OnServicePropertyChange k path name v s = Inr s' \<Longrightarrow> debt cb s' = debt cb s"
  by (auto simp: OnServicePropertyChange_def OnStrengthChangeForConnectingService_def Let_def debts
      split: if_splits option.splits)

lemma debt_initial_properties:
  "initial_properties k path props names s = Inr s' \<Longrightarrow> debt cb s' = debt cb s"
  by (induction names arbitrary: s) (auto dest: debt_OnServicePropertyChange split: option.splits)

lemma debt_OnServicePropertyChangeRegistration:
  "OnServicePropertyChangeRegistration k env path success s = Inr s' \<Longrightarrow> debt cb s' \<le> debt cb s"
  by (auto simp: OnServicePropertyChangeRegistration_def Let_def debts simp del: initial_properties.simps
      dest: debt_initial_properties [where cb = cb] split: if_splits option.splits prod.splits)

lemma debt_OnDevicePropertyChange [debts]:
  "debt cb (OnDevicePropertyChange k env path name v s) = debt cb s"
  by (simp add: OnDevicePropertyChange_def Let_def new_ServiceProxy_def debts split: option.split)

lemma debt_OnDevicePropertyChangeRegistration:
  "OnDevicePropertyChangeRegistration k env path success s = Inr s' \<Longrightarrow> debt cb s' = debt cb s"
  by (auto simp: OnDevicePropertyChangeRegistration_def debts split: option.splits)

lemma debt_Connect:
  "debt cb (ShillClient_Connect k env ssid passphrase c s) \<le> debt cb s + (if c = Some cb then 1 else 0)"
  by (auto simp: ShillClient_Connect_def Let_def new_ServiceProxy_def debt_def pending_def
      split: sum.split option.split)

lemma debt_listeners: "debt cb (fold (\<lambda>l. sc_emit (RunConnectionListener l)) ls s) = debt cb s"
  by (induction ls arbitrary: s) simp_all

lemma debt_step:
  "shill_step k s e = Inr s' \<Longrightarrow> debt cb s' \<le> debt cb s + (if requests cb e then 1 else 0)"
proof (induction k s e rule: shill_step.induct)
  case (1 k s env ssid passphrase c)
  then show ?case using debt_Connect [of cb k env ssid passphrase c s] by auto
next
  case (7 k s r e host port c)
  then show ?case by (auto simp: OpenSslSocket_def split: if_splits option.splits)
next
  case (8 k s env old new)
  then show ?case
    by (auto simp: OnShillServiceOwnerChange_def Let_def debts intro: debt_Init split: if_splits)
qed (auto simp: debts NotifyConnectivityListeners_def debt_listeners AddConnectionChangedCallback_def
    StartAccessPoint_def StopAccessPoint_def OnManagerPropertyChangeRegistration_def
    dest: debt_read_device_list [where cb = cb] debt_OnDevicePropertyChangeRegistration [where cb = cb]
      debt_OnServicePropertyChangeRegistration [where cb = cb] debt_OnServicePropertyChange [where cb = cb])

lemma debt_run:
  "run (shill_step k) s es = Inr s' \<Longrightarrow> debt cb s' \<le> debt cb s + length (filter (requests cb) es)"
proof (induction es arbitrary: s)
  case (Cons e es)
  then obtain s1 where "shill_step k s e = Inr s1" and "run (shill_step k) s1 es = Inr s'" by auto
  then show ?case using Cons.IH [of s1] debt_step [of k s e s1 cb] by auto
qed simp


section \<open>The service of the current attempt\<close>

text \<open>
  A handler keeps the service of the attempt, drops it, or takes a proxy younger than every proxy
  there was; proxies are only ever added.
\<close>

definition attempt_moves :: "ShillClient \<Rightarrow> ShillClient \<Rightarrow> bool" where
  "attempt_moves s s' \<longleftrightarrow> proxies_made s \<le> proxies_made s' \<and>
     (\<forall>service. connecting_service s' = Some service \<longrightarrow>
        connecting_service s = Some service \<or> proxies_made s \<le> proxy_id service)"

named_theorems attempts \<open>every operation moves the attempt on\<close>

lemma attempt_moves_refl [simp]: "attempt_moves s s"
  by (simp add: attempt_moves_def)

lemma attempt_moves_trans: "attempt_moves s s1 \<Longrightarrow> attempt_moves s1 s2 \<Longrightarrow> attempt_moves s s2"
  by (fastforce simp: attempt_moves_def)

lemma attempt_moves_fields [simp]:
  "attempt_moves s (sc_emit e s') = attempt_moves s s'"
  "attempt_moves s (s'\<lparr>sc_devices := m\<rparr>) = attempt_moves s s'"
  "attempt_moves s (s'\<lparr>sc_devices := m, connectivity_state := st\<rparr>) = attempt_moves s s'"
  "attempt_moves s (s'\<lparr>connectivity_state := st\<rparr>) = attempt_moves s s'"
  "attempt_moves s (s'\<lparr>have_called_connect := b\<rparr>) = attempt_moves s s'"
  "attempt_moves s (s'\<lparr>connecting_service_error := err\<rparr>) = attempt_moves s s'"
  "attempt_moves s (s'\<lparr>connect_done_callback := cb\<rparr>) = attempt_moves s s'"
  "attempt_moves s (s'\<lparr>connectivity_listeners := ls\<rparr>) = attempt_moves s s'"
  "proxies_made s \<le> n \<Longrightarrow> attempt_moves s (s\<lparr>proxies_made := n\<rparr>)"
  by (simp_all add: attempt_moves_def)

lemma attempt_cleanup [attempts, simp]:
  "attempt_moves s s' \<Longrightarrow> attempt_moves s (CleanupConnectingService s')"
  by (simp add: attempt_moves_def)

lemma attempt_Update [attempts, simp]: "attempt_moves s (UpdateConnectivityState k s') = attempt_moves s s'"
  by (simp add: UpdateConnectivityState_def Let_def)

lemma attempt_device_list_loop:
  "attempt_moves s (fst (device_list_loop k env paths rem update s')) = attempt_moves s s'"
  by (induction k env paths rem update s' rule: device_list_loop.induct) (auto split: option.split)

lemma attempt_OnManagerPropertyChange [attempts]: "attempt_moves s (OnManagerPropertyChange k env name v s)"
  using attempt_device_list_loop [of s k env "TryGet_ObjectPaths v" "map fst (sc_devices s)" False s]
  by (auto simp: OnManagerPropertyChange_def Let_def split: prod.split option.split)

lemma attempt_read_device_list: "read_device_list k env s = Inr s' \<Longrightarrow> attempt_moves s s'"
  by (auto simp: read_device_list_def attempts split: option.splits)

lemma attempt_Init: "ShillClient_Init k env s = Inr s' \<Longrightarrow> attempt_moves s s'"
  unfolding ShillClient_Init_def Let_def
  by (drule attempt_read_device_list, erule attempt_moves_trans [rotated]) simp

lemma attempt_OnErrorChange [attempts]: "attempt_moves s (OnErrorChangeForConnectingService error s)"
  by (simp add: OnErrorChangeForConnectingService_def Let_def split: option.split)

lemma attempt_ConnectToServiceError [attempts]: "attempt_moves s (ConnectToServiceError k service s)"
  by (simp add: ConnectToServiceError_def Let_def attempts)

lemma attempt_OnStateChangeForConnectingService [attempts]:
  "attempt_moves s (OnStateChangeForConnectingService k state s)"
  by (simp add: OnStateChangeForConnectingService_def Let_def attempts split: Network_State.split option.split)

lemma attempt_OnServicePropertyChange:
  assumes "OnServicePropertyChange k path name v s = Inr s'"
  shows "attempt_moves s s'"
proof -
  have sel: "attempt_moves s (OnStateChangeForSelectedService k path state s)" for state
    by (simp add: OnStateChangeForSelectedService_def split: option.split)
  note attempt_moves_trans [OF sel attempt_OnStateChangeForConnectingService]
  then show ?thesis using assms sel
    by (auto simp: OnServicePropertyChange_def OnStrengthChangeForConnectingService_def Let_def
        split: if_splits option.splits)
qed

lemma attempt_initial_properties:
  "initial_properties k path props names s = Inr s' \<Longrightarrow> attempt_moves s s'"
proof (induction names arbitrary: s)
  case (Cons name names)
  show ?case
  proof (cases "props name")
    case (Some v)
    with Cons.prems obtain s1 where "OnServicePropertyChange k path name v s = Inr s1"
      and "initial_properties k path props names s1 = Inr s'" by auto
    then show ?thesis using Cons.IH attempt_OnServicePropertyChange attempt_moves_trans by blast
  qed (use Cons in simp)
qed simp

lemma attempt_OnServicePropertyChangeRegistration:
  "OnServicePropertyChangeRegistration k env path success s = Inr s' \<Longrightarrow> attempt_moves s s'"
  by (auto simp: OnServicePropertyChangeRegistration_def Let_def simp del: initial_properties.simps
      dest: attempt_initial_properties split: if_splits option.splits prod.splits)

lemma attempt_OnDevicePropertyChange [attempts]:
  "attempt_moves s (OnDevicePropertyChange k env path name v s)"
  by (auto simp: OnDevicePropertyChange_def Let_def new_ServiceProxy_def split: option.split)

lemma attempt_OnDevicePropertyChangeRegistration:
  "OnDevicePropertyChangeRegistration k env path success s = Inr s' \<Longrightarrow> attempt_moves s s'"
  by (auto simp: OnDevicePropertyChangeRegistration_def attempts split: option.splits)

lemma attempt_Connect [attempts]: "attempt_moves s (ShillClient_Connect k env ssid passphrase c s)"
  by (auto simp: ShillClient_Connect_def Let_def new_ServiceProxy_def attempt_moves_def
      split: sum.split option.split)

lemma attempt_listeners: "attempt_moves s (fold (\<lambda>l. sc_emit (RunConnectionListener l)) ls s') = attempt_moves s s'"
  by (induction ls arbitrary: s') simp_all

lemma attempt_step: "shill_step k s e = Inr s' \<Longrightarrow> attempt_moves s s'"
proof (induction k s e rule: shill_step.induct)
  case (7 k s r e host port c)
  then show ?case by (auto simp: OpenSslSocket_def split: if_splits option.splits)
next
  case (8 k s env old new)
  then show ?case
    by (auto simp: OnShillServiceOwnerChange_def Let_def intro: attempt_Init split: if_splits)
qed (auto simp: attempts NotifyConnectivityListeners_def attempt_listeners AddConnectionChangedCallback_def
    StartAccessPoint_def StopAccessPoint_def OnManagerPropertyChangeRegistration_def
    dest: attempt_read_device_list attempt_OnDevicePropertyChangeRegistration
      attempt_OnServicePropertyChangeRegistration attempt_OnServicePropertyChange)

lemma attempt_run: "run (shill_step k) s es = Inr s' \<Longrightarrow> attempt_moves s s'"
proof (induction es arbitrary: s)
  case (Cons e es)
  then obtain s1 where "shill_step k s e = Inr s1" and "run (shill_step k) s1 es = Inr s'" by auto
  then show ?case using Cons.IH attempt_step attempt_moves_trans by blast
qed simp


section \<open>Faults\<close>

text \<open>
  D-Bus as the client expects it: signal registrations succeed and the manager, when it answers,
  publishes a device list.
\<close>

definition publishes :: "shill_names \<Rightarrow> shill_env \<Rightarrow> bool" where
  "publishes k env =
     (case manager_GetProperties env of None \<Rightarrow> True | Some properties \<Rightarrow> properties (kDevicesProperty k) \<noteq> None)"

fun benign :: "shill_names \<Rightarrow> shill_event \<Rightarrow> bool" where
  "benign k (EvOwnerChange env old new) = publishes k env"
| "benign k (EvManagerRegistration env success) = (success \<and> publishes k env)"
| "benign k (EvDeviceRegistration env path success) = success"
| "benign k e = True"

lemma read_device_list_returns: "publishes k env \<Longrightarrow> \<exists>s'. read_device_list k env s = Inr s'"
  by (auto simp: publishes_def read_device_list_def split: option.splits)

lemma OnServicePropertyChange_returns: "\<exists>s'. OnServicePropertyChange k path name v s = Inr s'"
  by (auto simp: OnServicePropertyChange_def OnStrengthChangeForConnectingService_def is_connecting_def
      Let_def split: option.split)

lemma initial_properties_return: "\<exists>s'. initial_properties k path props names s = Inr s'"
proof (induction names arbitrary: s)
  case (Cons name names)
  show ?case
  proof (cases "props name")
    case (Some v)
    obtain s1 where "OnServicePropertyChange k path name v s = Inr s1"
      using OnServicePropertyChange_returns by blast
    then show ?thesis using Cons.IH [of s1] Some by simp
  qed (use Cons.IH in simp)
qed simp

lemma OnServicePropertyChangeRegistration_returns:
  "\<exists>s'. OnServicePropertyChangeRegistration k env path success s = Inr s'"
  using initial_properties_return
  by (auto simp: OnServicePropertyChangeRegistration_def Let_def simp del: initial_properties.simps
      split: option.split prod.split)

lemma shill_step_returns: "benign k e \<Longrightarrow> \<exists>s'. shill_step k s e = Inr s'"
proof (cases e)
  case (EvOwnerChange env old new)
  assume "benign k e"
  then show ?thesis using read_device_list_returns EvOwnerChange
    by (auto simp: OnShillServiceOwnerChange_def ShillClient_Init_def Let_def)
next
  case (EvDeviceRegistration env path success)
  assume "benign k e"
  then show ?thesis using EvDeviceRegistration
    by (auto simp: OnDevicePropertyChangeRegistration_def split: option.split)
qed (auto simp: OnManagerPropertyChangeRegistration_def OnServicePropertyChange_returns
    OnServicePropertyChangeRegistration_returns read_device_list_returns)

text \<open>The client under benign events, a component that never faults.\<close>

definition benign_step :: "shill_names \<Rightarrow> ShillClient \<Rightarrow> shill_event \<Rightarrow> ShillClient result" where
  "benign_step k s e = (if benign k e then shill_step k s e else Inr s)"

interpretation benign_shill: safe_component
    "\<lambda>s. \<exists>env whitelist disable. new_ShillClient k env whitelist disable = Inr s"
    "benign_step k" "shill_inv k"
  for k
proof
  show "shill_inv k s'" if "shill_inv k s" "benign_step k s e = Inr s'" for s e s'
    using that shill_step_keeps by (auto simp: benign_step_def split: if_splits)
  show "\<exists>s'. benign_step k s e = Inr s'" for s e
    by (simp add: benign_step_def shill_step_returns)
qed (rule shill.inv_initial)

lemma run_benign: "\<forall>e \<in> set es. benign k e \<Longrightarrow> run (benign_step k) s es = run (shill_step k) s es"
proof (induction es arbitrary: s)
  case (Cons e es)
  then show ?case by (cases "shill_step k s e") (simp_all add: benign_step_def)
qed simp

section \<open>Sample runs\<close>

definition attempt_run_events :: "shill_event list" where
  "attempt_run_events =
     [EvConnect quiet_env ''home'' ''secret'' (Some 5),
      EvServiceProperty ''/service/7'' ''Strength'' (any_of [] [] [] 40),
      EvServiceProperty ''/service/7'' ''Error'' (any_of ''bad-passphrase'' [] [] 0),
      EvServiceProperty ''/service/7'' ''State'' (any_of ''failure'' [] [] 0)]"

text \<open>The first attempt fails; a second one is started.\<close>

lemma attempt_run_ends:
  obtains s0 s s' where "new_ShillClient sample_shill quiet_env {} False = Inr s0"
    and "run (shill_step sample_shill) s0 attempt_run_events = Inr s"
    and "connecting_service s = None" and "connecting_service_error s = ''bad-passphrase''"
    and "sc_effects s =
      [CallConnect (ServiceProxy 0 ''/service/7''), RegisterServiceSignals (ServiceProxy 0 ''/service/7''),
       PostConnectTimeout (ServiceProxy 0 ''/service/7''), CallConnect (ServiceProxy 0 ''/service/7''),
       CallReleaseObjectProxy (ServiceProxy 0 ''/service/7''),
       RunDone 5 (weave_AddTo None ''bad-passphrase'' ''Failed to connect to WiFi network'' [])]"
    and "run (shill_step sample_shill) s [EvConnect quiet_env ''home'' ''secret'' (Some 6)] = Inr s'"
    and "connecting_service s' = Some (ServiceProxy 1 ''/service/7'')"
    and "connect_done_callback s' = Some 6"
proof -
  have "bind_result (new_ShillClient sample_shill quiet_env {} False)
      (\<lambda>s0. bind_result (run (shill_step sample_shill) s0 attempt_run_events)
        (\<lambda>s. bind_result (run (shill_step sample_shill) s
            [EvConnect quiet_env ''home'' ''secret'' (Some 6)])
          (\<lambda>s'. Inr (connecting_service s, connecting_service_error s, sc_effects s,
            connecting_service s', connect_done_callback s')))) =
    Inr (None, ''bad-passphrase'',
      [CallConnect (ServiceProxy 0 ''/service/7''), RegisterServiceSignals (ServiceProxy 0 ''/service/7''),
       PostConnectTimeout (ServiceProxy 0 ''/service/7''), CallConnect (ServiceProxy 0 ''/service/7''),
       CallReleaseObjectProxy (ServiceProxy 0 ''/service/7''),
       RunDone 5 (weave_AddTo None ''bad-passphrase'' ''Failed to connect to WiFi network'' [])],
      Some (ServiceProxy 1 ''/service/7''), Some 6)"
    by code_simp
  then show ?thesis using that by (auto simp del: run.simps)
qed

lemma second_attempt:
  "\<exists>s' :: ShillClient. connecting_service s' = Some (ServiceProxy 1 ''/service/7'') \<and> connect_done_callback s' = Some 6"
  by (rule attempt_run_ends) (intro exI conjI)

section \<open>Properties\<close>

text \<open>
  Property C12.  The callback of a connection request is completed at most once: over any run, its
  completions, together with the one still pending, never exceed the number of requests it came
  with.
\<close>

theorem done_callback_at_most_once:
  assumes "new_ShillClient k env whitelist disable = Inr s0"
    and "run (shill_step k) s0 es = Inr s"
  shows "completions cb s + pending cb s \<le> length (filter (requests cb) es)"
proof -
  have "debt cb s0 \<le> debt cb (blank_ShillClient whitelist disable)"
    using assms(1) debt_Init by (auto simp: new_ShillClient_def)
  then have "debt cb s0 = 0"
    by (simp add: debt_def completions_def pending_def blank_ShillClient_def)
  then show ?thesis using debt_run [OF assms(2), of cb] by (simp add: debt_def)
qed

theorem done_callback_at_most_once_witness:
  "\<exists>s0 s. new_ShillClient sample_shill quiet_env {} False = Inr s0 \<and>
     run (shill_step sample_shill) s0 attempt_run_events = Inr s \<and>
     length (filter (requests 5) attempt_run_events) = 1 \<and> completions 5 s + pending 5 s \<le> 1"
proof -
  obtain s0 s where new: "new_ShillClient sample_shill quiet_env {} False = Inr s0"
    and run: "run (shill_step sample_shill) s0 attempt_run_events = Inr s"
    by (rule attempt_run_ends)
  have one: "length (filter (requests 5) attempt_run_events) = 1" by (simp add: attempt_run_events_def)
  then show ?thesis using done_callback_at_most_once [OF new run, of 5] new run by auto
qed

text \<open>
  Property C13.  The timeout of an attempt that is over does nothing, whatever has happened since:
  later attempts, even to the same network, are not cut short by it.
\<close>

theorem stale_timeout_is_harmless:
  assumes "new_ShillClient k env whitelist disable = Inr s0"
    and "run (shill_step k) s0 es = Inr s"
    and "PostConnectTimeout service \<in> set (sc_effects s)"
    and "connecting_service s \<noteq> Some service"
    and "run (shill_step k) s es' = Inr s'"
  shows "shill_step k s' (EvConnectTimeout service) = Inr s'"
proof -
  have "shill_base s" using shill_reachable_inv [OF assms(1,2)] by (simp add: shill_inv_def)
  then have "proxy_id service < proxies_made s"
    using assms(3) by (simp add: shill_base_def proxies_of_def)
  then have "connecting_service s' \<noteq> Some service"
    using attempt_run [OF assms(5)] assms(4) by (auto simp: attempt_moves_def)
  then show ?thesis by (auto simp: ConnectToServiceError_def)
qed

theorem stale_timeout_is_harmless_witness:
  "\<exists>s'. connecting_service s' = Some (ServiceProxy 1 ''/service/7'') \<and>
     shill_step sample_shill s' (EvConnectTimeout (ServiceProxy 0 ''/service/7'')) = Inr s'"
proof -
  obtain s0 s s' where new: "new_ShillClient sample_shill quiet_env {} False = Inr s0"
    and run: "run (shill_step sample_shill) s0 attempt_run_events = Inr s"
    and idle: "connecting_service s = None"
    and eff: "sc_effects s =
      [CallConnect (ServiceProxy 0 ''/service/7''), RegisterServiceSignals (ServiceProxy 0 ''/service/7''),
       PostConnectTimeout (ServiceProxy 0 ''/service/7''), CallConnect (ServiceProxy 0 ''/service/7''),
       CallReleaseObjectProxy (ServiceProxy 0 ''/service/7''),
       RunDone 5 (weave_AddTo None ''bad-passphrase'' ''Failed to connect to WiFi network'' [])]"
    and again: "run (shill_step sample_shill) s [EvConnect quiet_env ''home'' ''secret'' (Some 6)] = Inr s'"
    and now: "connecting_service s' = Some (ServiceProxy 1 ''/service/7'')"
    by (rule attempt_run_ends)
  have "PostConnectTimeout (ServiceProxy 0 ''/service/7'') \<in> set (sc_effects s)" by (simp add: eff)
  from stale_timeout_is_harmless [OF new run this _ again] idle now show ?thesis by auto
qed

text \<open>
  The timeout of the attempt under way ends it: the service's object proxy is
  released, the attempt's callback is called once with an error that has a code, and the client is
  ready for the next attempt.
\<close>

theorem current_timeout_reports_and_resets:
  assumes "connecting_service s = Some service" and "connect_done_callback s = Some cb"
    and "kErrorOutOfRange k \<noteq> []" and "kErrorInternal k \<noteq> []"
  shows "\<exists>s' code. shill_step k s (EvConnectTimeout service) = Inr s' \<and> code \<noteq> [] \<and>
    sc_effects s' = sc_effects s @ [CallReleaseObjectProxy service,
      RunDone cb (weave_AddTo None code ''Failed to connect to WiFi network'' [])] \<and>
    connecting_service s' = None \<and> connect_done_callback s' = None \<and> \<not> have_called_connect s'"
  using assms
  by (auto simp: ConnectToServiceError_def OnErrorChangeForConnectingService_def Let_def cleanup_effects)

theorem current_timeout_reports_and_resets_witness:
  "\<exists>s s1. connecting_service s = Some (ServiceProxy 1 ''/service/7'') \<and>
     shill_step sample_shill s (EvConnectTimeout (ServiceProxy 1 ''/service/7'')) = Inr s1 \<and>
     connecting_service s1 = None"
proof -
  obtain s' :: ShillClient where now: "connecting_service s' = Some (ServiceProxy 1 ''/service/7'')"
    and cb: "connect_done_callback s' = Some 6"
    using second_attempt by blast
  have "kErrorOutOfRange sample_shill \<noteq> []" "kErrorInternal sample_shill \<noteq> []"
    by (simp_all add: sample_shill_def)
  from current_timeout_reports_and_resets [OF now cb this] now show ?thesis by blast
qed

text \<open>
  Property C14.  As long as signal registrations succeed and the manager publishes its device list,
  no event ends the process: in particular no handler uses a service pointer that is null.
\<close>

theorem shill_returns_on_benign_events:
  assumes "publishes k env" and "\<forall>e \<in> set es. benign k e"
  shows "\<exists>s0 s. new_ShillClient k env whitelist disable = Inr s0 \<and> run (shill_step k) s0 es = Inr s \<and>
    shill_inv k s"
proof -
  obtain s0 where new: "new_ShillClient k env whitelist disable = Inr s0"
    using read_device_list_returns [OF assms(1)] by (auto simp: new_ShillClient_def ShillClient_Init_def)
  then obtain s where "run (benign_step k) s0 es = Inr s" "shill_inv k s"
    using benign_shill.run_returns by blast
  then show ?thesis using new run_benign [OF assms(2), of s0] by auto
qed

theorem shill_returns_on_benign_events_witness:
  "\<exists>s0 s. new_ShillClient sample_shill quiet_env {} False = Inr s0 \<and>
     run (shill_step sample_shill) s0 attempt_run_events = Inr s"
proof -
  have "publishes sample_shill quiet_env" by (simp add: publishes_def quiet_env_def)
  moreover have "\<forall>e \<in> set attempt_run_events. benign sample_shill e" by (simp add: attempt_run_events_def)
  ultimately show ?thesis
    using shill_returns_on_benign_events [of sample_shill quiet_env attempt_run_events "{}" False] by blast
qed

text \<open>
  Property C40.  When shill disappears in the middle of an attempt, the attempt is dropped: its
  callback is not completed then, nor by anything that happens later short of a new request with the
  same callback.  The client is offline at once, and tells nobody: all it does is to release the
  proxy of the service it was connecting to.
\<close>

theorem owner_loss_drops_the_attempt:
  assumes "shill_step k s (EvOwnerChange env old []) = Inr s1"
    and "run (shill_step k) s1 es = Inr s2"
    and "\<forall>e \<in> set es. \<not> requests cb e"
  shows "completions cb s2 \<le> completions cb s \<and> GetConnectionState s1 = Network_kOffline \<and>
    sc_effects s1 = sc_effects s @
      (case connecting_service s of None \<Rightarrow> [] | Some service \<Rightarrow> [CallReleaseObjectProxy service])"
proof -
  have s1: "s1 = CleanupConnectingService s\<lparr>sc_devices := [], connectivity_state := Network_kOffline\<rparr>"
    using assms(1) by (simp add: OnShillServiceOwnerChange_def Let_def)
  have "filter (requests cb) es = []" using assms(3) by (simp add: filter_empty_conv)
  then have "debt cb s2 \<le> debt cb s1" using debt_run [OF assms(2), of cb] by simp
  also have "\<dots> = completions cb s" by (simp add: s1 debt_cleanup)
  finally show ?thesis
    using completions_le_debt [of cb s2] by (simp add: s1 cleanup_effects GetConnectionState_def)
qed

theorem owner_loss_drops_the_attempt_witness:
  "\<exists>s s1 s2. connect_done_callback s = Some 6 \<and>
     shill_step sample_shill s (EvOwnerChange quiet_env '':1.5'' []) = Inr s1 \<and>
     run (shill_step sample_shill) s1 [EvNotify True] = Inr s2 \<and> completions 6 s2 \<le> completions 6 s"
proof -
  obtain s' :: ShillClient where cb: "connect_done_callback s' = Some 6" using second_attempt by blast
  obtain s1 where step: "shill_step sample_shill s' (EvOwnerChange quiet_env '':1.5'' []) = Inr s1"
    by (simp add: OnShillServiceOwnerChange_def Let_def)
  obtain s2 where run: "run (shill_step sample_shill) s1 [EvNotify True] = Inr s2" by simp
  from owner_loss_drops_the_attempt [OF step run, of 6] show ?thesis using cb step run by auto
qed

text \<open>
  The error shill reported for an earlier attempt is never cleared: when a later
  attempt has seen a signal and then times out, its callback gets the earlier attempt's error.
\<close>

theorem earlier_error_is_reported_again:
  assumes "connecting_service s = None" and "connecting_service_error s = code" and "code \<noteq> []"
    and "ConfigureService env (connect_properties k ssid passphrase) = Inr path"
    and "RequestScan env (kTypeWifi k) = None"
    and "TryGet_uint8 strength \<noteq> 0" and "kSignalStrengthProperty k \<noteq> kStateProperty k"
  shows "\<exists>s'. run (shill_step k) s
      [EvConnect env ssid passphrase (Some cb),
       EvServiceProperty path (kSignalStrengthProperty k) strength,
       EvConnectTimeout (ServiceProxy (proxies_made s) path)] = Inr s' \<and>
    last (sc_effects s') = RunDone cb (weave_AddTo None code ''Failed to connect to WiFi network'' [])"
  using assms
  by (simp add: ShillClient_Connect_def new_ServiceProxy_def OnServicePropertyChange_def is_connecting_def
      OnStrengthChangeForConnectingService_def ConnectToServiceError_def
      OnErrorChangeForConnectingService_def Let_def)

theorem earlier_error_is_reported_again_witness:
  "\<exists>s s'. connecting_service_error s = ''bad-passphrase'' \<and>
     run (shill_step sample_shill) s
      [EvConnect quiet_env ''guest'' [] (Some 6),
       EvServiceProperty ''/service/7'' (kSignalStrengthProperty sample_shill) (any_of [] [] [] 40),
       EvConnectTimeout (ServiceProxy (proxies_made s) ''/service/7'')] = Inr s' \<and>
     last (sc_effects s') =
       RunDone 6 (weave_AddTo None ''bad-passphrase'' ''Failed to connect to WiFi network'' [])"
proof -
  obtain s0 s where "run (shill_step sample_shill) s0 attempt_run_events = Inr s" and idle: "connecting_service s = None"
    and err: "connecting_service_error s = ''bad-passphrase''"
    by (rule attempt_run_ends)
  have conf: "ConfigureService quiet_env p = Inr ''/service/7''" "RequestScan quiet_env q = None" for p q
    by (simp_all add: quiet_env_def)
  have "TryGet_uint8 (any_of [] [] [] 40) \<noteq> 0"
    and "kSignalStrengthProperty sample_shill \<noteq> kStateProperty sample_shill"
    by (simp_all add: any_of_def sample_shill_def)
  from earlier_error_is_reported_again [OF idle err _ conf this, of "''guest''" "[]" 6] err
  show ?thesis by blast
qed

lemma IsMonitored_same [simp]:
  "IsMonitoredDevice k env p (sc_emit e s) = IsMonitoredDevice k env p s"
  "IsMonitoredDevice k env p (s\<lparr>sc_devices := m\<rparr>) = IsMonitoredDevice k env p s"
  by (simp_all add: IsMonitoredDevice_def split: option.split)

definition follows :: "shill_names \<Rightarrow> shill_env \<Rightarrow> ShillClient \<Rightarrow> string list \<Rightarrow> string \<Rightarrow> DeviceState option" where
  "follows k env s paths p =
     (case map_of (sc_devices s) p of
        Some d \<Rightarrow> Some d
      | None \<Rightarrow> if p \<in> set paths \<and> IsMonitoredDevice k env p s then Some new_DeviceState else None)"

lemma follows_known: "map_of (sc_devices s) path = Some d \<Longrightarrow> follows k env s (path # paths) = follows k env s paths"
  by (rule ext) (auto simp: follows_def split: option.split)

lemma follows_unmonitored:
  "\<not> IsMonitoredDevice k env path s \<Longrightarrow> follows k env s (path # paths) = follows k env s paths"
  by (rule ext) (auto simp: follows_def split: option.split)

lemma follows_added:
  "map_of (sc_devices s) path = None \<Longrightarrow> IsMonitoredDevice k env path s \<Longrightarrow>
   follows k env (sc_emit e (s\<lparr>sc_devices := smap_put path new_DeviceState (sc_devices s)\<rparr>)) paths =
   follows k env s (path # paths)"
  by (rule ext) (auto simp: follows_def split: option.split)

lemma device_list_loop_spec:
  assumes "\<forall>p \<in> set paths. IsValid k p" and "set rem \<subseteq> dom (map_of (sc_devices s))"
  shows "\<exists>s' rem' update'. device_list_loop k env paths rem update s = (s', Some (rem', update')) \<and>
    set rem' = set rem - set paths \<and> map_of (sc_devices s') = follows k env s paths"
  using assms
proof (induction paths arbitrary: rem update s)
  case Nil
  have "follows k env s [] = map_of (sc_devices s)"
    by (rule ext) (simp add: follows_def split: option.split)
  then show ?case by simp
next
  case (Cons path paths)
  have valid: "IsValid k path" "\<forall>p \<in> set paths. IsValid k p" using Cons.prems(1) by auto
  show ?case
  proof (cases "map_of (sc_devices s) path")
    case (Some d)
    have sub: "set (removeAll path rem) \<subseteq> dom (map_of (sc_devices s))" using Cons.prems(2) by auto
    from Cons.IH [OF valid(2) sub, of update] show ?thesis
      using valid(1) by (auto simp: Some follows_known)
  next
    case None
    then have notin: "path \<notin> set rem" using Cons.prems(2) by auto
    show ?thesis
    proof (cases "IsMonitoredDevice k env path s")
      case True
      let ?s = "sc_emit (RegisterDeviceSignals path)
        (s\<lparr>sc_devices := smap_put path new_DeviceState (sc_devices s)\<rparr>)"
      have sub: "set rem \<subseteq> dom (map_of (sc_devices ?s))" using Cons.prems(2) by auto
      from Cons.IH [OF valid(2) sub, of True] show ?thesis
        using valid(1) notin True by (auto simp: None follows_added)
    next
      case False
      from Cons.IH [OF valid(2) Cons.prems(2), of update] show ?thesis
        using False valid(1) notin by (auto simp: None follows_unmonitored)
    qed
  qed
qed

text \<open>
  Property C15.  After the manager has published a device list of valid paths, the client follows
  exactly the listed devices it knew already, in the state they had, and the listed new ones that
  the whitelist admits, without a selected service; every other device is gone.
\<close>

theorem devices_follow_the_manager:
  assumes "\<forall>p \<in> set (TryGet_ObjectPaths v). IsValid k p"
  shows "map_of (sc_devices (OnManagerPropertyChange k env (kDevicesProperty k) v s)) p =
    (if p \<in> set (TryGet_ObjectPaths v)
     then (case map_of (sc_devices s) p of
             Some d \<Rightarrow> Some d
           | None \<Rightarrow> if IsMonitoredDevice k env p s then Some new_DeviceState else None)
     else None)"
proof -
  let ?paths = "TryGet_ObjectPaths v" and ?keys = "map fst (sc_devices s)"
  have keys: "set ?keys = dom (map_of (sc_devices s))" by (simp add: dom_map_of_conv_image_fst)
  then obtain s' rem' update' where
    loop: "device_list_loop k env ?paths ?keys False s = (s', Some (rem', update'))"
    and rem': "set rem' = set ?keys - set ?paths"
    and found: "map_of (sc_devices s') = follows k env s ?paths"
    using device_list_loop_spec [OF assms, of ?keys s env False] by blast
  have "sc_devices (OnManagerPropertyChange k env (kDevicesProperty k) v s) =
      fold smap_erase rem' (sc_devices s')"
    by (simp add: OnManagerPropertyChange_def loop Let_def UpdateConnectivityState_def)
  then have "map_of (sc_devices (OnManagerPropertyChange k env (kDevicesProperty k) v s)) p =
      (if p \<in> set rem' then None else map_of (sc_devices s') p)"
    by (simp only: smap.find_erase_all)
  then show ?thesis using found rem' keys by (auto simp: follows_def split: option.splits)
qed

theorem devices_follow_the_manager_witness:
  "map_of (sc_devices (OnManagerPropertyChange sample_shill quiet_env ''Devices''
      (any_of [] [] [''/device/eth0''] 0) (blank_ShillClient {} False))) ''/device/eth0'' =
    Some new_DeviceState"
proof -
  have "\<forall>p \<in> set (TryGet_ObjectPaths (any_of [] [] [''/device/eth0''] 0)). IsValid sample_shill p"
    by (simp add: any_of_def sample_shill_def)
  from devices_follow_the_manager [OF this, of quiet_env "blank_ShillClient {} False" "''/device/eth0''"]
  show ?thesis by (simp add: any_of_def sample_shill_def blank_ShillClient_def IsMonitoredDevice_def)
qed

end
