(* ===== verification/Binder_Interfaces.thy ===== *)
theory Binder_Interfaces
  imports Binder_Utils
begin

text \<open>
  The binder interfaces \<^verbatim>\<open>brillo/android/weave/IWeaveCommand.aidl\<close> and
  \<^verbatim>\<open>IWeaveService.aidl\<close> as their client sees them: for each a record of the remote methods
  over the state of the remote object, and a locale (\<open>weave_command_remote\<close>,
  \<open>weave_service_remote\<close>) with what the client library relies on.
\<close>

record 's IWeaveCommand =
  getId :: "'s \<Rightarrow> string16 status"
  getName :: "'s \<Rightarrow> string16 status"
  getComponent :: "'s \<Rightarrow> string16 status"
  getState :: "'s \<Rightarrow> string16 status"
  getOrigin :: "'s \<Rightarrow> string16 status"
  getParameters :: "'s \<Rightarrow> string16 status"
  getProgress :: "'s \<Rightarrow> string16 status"
  getResults :: "'s \<Rightarrow> string16 status"
  setProgress :: "string16 \<Rightarrow> 's \<Rightarrow> 's \<times> unit status"
  complete :: "string16 \<Rightarrow> 's \<Rightarrow> 's \<times> unit status"
  abort :: "string16 \<Rightarrow> string16 \<Rightarrow> 's \<Rightarrow> 's \<times> unit status"
  cancel :: "'s \<Rightarrow> 's \<times> unit status"
  pause :: "'s \<Rightarrow> 's \<times> unit status"
  setError :: "string16 \<Rightarrow> string16 \<Rightarrow> 's \<Rightarrow> 's \<times> unit status"

text \<open>
  A remote call whose handler faults ends the remote process: the state is left as it was and the
  binder driver reports a status of its own.
\<close>

definition deliver :: "binder_exception \<Rightarrow> 's \<Rightarrow> ('s \<times> 'a status) result \<Rightarrow> 's \<times> 'a status" where
  "deliver tf s r = (case r of Inl _ \<Rightarrow> (s, Inl tf) | Inr reply \<Rightarrow> reply)"

lemma deliver_simps [simp]:
  "deliver tf s (Inr reply) = reply"
  "deliver tf s (Inl f) = (s, Inl tf)"
  by (simp_all add: deliver_def)

text \<open>
  The contract: a command that is gone answers every call with the same error and is not changed
  by any; no call of the client makes a command go away.
\<close>

locale weave_command_remote =
  fixes remote :: "'s IWeaveCommand"
    and gone :: "'s \<Rightarrow> bool"
    and destroyed :: binder_exception
  assumes gone_getters:
      "gone s \<Longrightarrow> getId remote s = Inl destroyed"
      "gone s \<Longrightarrow> getName remote s = Inl destroyed"
      "gone s \<Longrightarrow> getComponent remote s = Inl destroyed"
      "gone s \<Longrightarrow> getState remote s = Inl destroyed"
      "gone s \<Longrightarrow> getOrigin remote s = Inl destroyed"
      "gone s \<Longrightarrow> getParameters remote s = Inl destroyed"
      "gone s \<Longrightarrow> getProgress remote s = Inl destroyed"
      "gone s \<Longrightarrow> getResults remote s = Inl destroyed"
    and gone_setters:
      "gone s \<Longrightarrow> setProgress remote p s = (s, Inl destroyed)"
      "gone s \<Longrightarrow> complete remote p s = (s, Inl destroyed)"
      "gone s \<Longrightarrow> abort remote ec em s = (s, Inl destroyed)"
      "gone s \<Longrightarrow> cancel remote s = (s, Inl destroyed)"
      "gone s \<Longrightarrow> pause remote s = (s, Inl destroyed)"
      "gone s \<Longrightarrow> setError remote ec em s = (s, Inl destroyed)"
    and keeps_alive:
      "\<not> gone s \<Longrightarrow> \<not> gone (fst (setProgress remote p s))"
      "\<not> gone s \<Longrightarrow> \<not> gone (fst (complete remote p s))"
      "\<not> gone s \<Longrightarrow> \<not> gone (fst (abort remote ec em s))"
      "\<not> gone s \<Longrightarrow> \<not> gone (fst (cancel remote s))"
      "\<not> gone s \<Longrightarrow> \<not> gone (fst (pause remote s))"
      "\<not> gone s \<Longrightarrow> \<not> gone (fst (setError remote ec em s))"


record 's IWeaveService =
  addComponent :: "string16 \<Rightarrow> string16 list \<Rightarrow> 's \<Rightarrow> 's \<times> unit status"
  registerCommandHandler :: "string16 \<Rightarrow> string16 \<Rightarrow> 's \<Rightarrow> 's \<times> unit status"
  updateState :: "string16 \<Rightarrow> string16 \<Rightarrow> 's \<Rightarrow> 's \<times> unit status"

text \<open>
  The client library aborts if the registration of a handler fails, so it relies on a daemon that
  never refuses one.
\<close>

locale weave_service_remote =
  fixes remote :: "'s IWeaveService"
  assumes register_ok: "snd (registerCommandHandler remote component command s) = Inr ()"
begin

lemma register_reply:
  "registerCommandHandler remote component command s =
   (fst (registerCommandHandler remote component command s), Inr ())"
  using register_ok [of component command s] by (metis prod.collapse)

end


text \<open>The constants of \<^verbatim>\<open>IWeaveServiceManagerNotificationListener.aidl\<close>.\<close>

definition CLOUD_ID :: int where "CLOUD_ID = 1"
definition DEVICE_ID :: int where "DEVICE_ID = 2"
definition DEVICE_NAME :: int where "DEVICE_NAME = 3"
definition DEVICE_DESCRIPTION :: int where "DEVICE_DESCRIPTION = 4"
definition DEVICE_LOCATION :: int where "DEVICE_LOCATION = 5"
definition OEM_NAME :: int where "OEM_NAME = 6"
definition MODEL_NAME :: int where "MODEL_NAME = 7"
definition MODEL_ID :: int where "MODEL_ID = 8"
definition PAIRING_SESSION_ID :: int where "PAIRING_SESSION_ID = 9"
definition PAIRING_MODE :: int where "PAIRING_MODE = 10"
definition PAIRING_CODE :: int where "PAIRING_CODE = 11"
definition TRAITS :: int where "TRAITS = 12"
definition COMPONENTS :: int where "COMPONENTS = 13"
definition STATE :: int where "STATE = 14"

lemmas notification_id_defs =
  CLOUD_ID_def DEVICE_ID_def DEVICE_NAME_def DEVICE_DESCRIPTION_def DEVICE_LOCATION_def OEM_NAME_def
  MODEL_NAME_def MODEL_ID_def PAIRING_SESSION_ID_def PAIRING_MODE_def PAIRING_CODE_def TRAITS_def
  COMPONENTS_def STATE_def

end
