(* ===== verification/Binder_Command_Proxy.thy ===== *)
theory Binder_Command_Proxy
  imports Binder_Interfaces
begin

text \<open>
  \<^verbatim>\<open>buffet/binder_command_proxy.{h,cc}\<close>: the daemon's side of one command.  The proxy
  holds a weak pointer to libweave's \<^verbatim>\<open>weave::Command\<close>; its state is \<open>Some c\<close> while
  the command exists and \<open>None\<close> once it is destroyed.  The command itself is code of libweave:
  its methods are the fields of \<open>weave_command_api\<close>.  A method that can fail returns the new
  command, its boolean, and the message of the error it stored, if it stored one.

  The proxy provides the interface \<open>weave_command_remote\<close> to the clients
  (\<open>interpretation daemon\<close>).
\<close>

section \<open>The command object of libweave\<close>

type_synonym 'c command_reply = "'c \<times> bool \<times> string option"

record ('c, 'd) weave_command_api =
  cmd_GetID :: "'c \<Rightarrow> string"
  cmd_GetName :: "'c \<Rightarrow> string"
  cmd_GetComponent :: "'c \<Rightarrow> string"
  cmd_GetState :: "'c \<Rightarrow> string" \<comment> \<open>through \<open>EnumToString\<close>\<close>
  cmd_GetOrigin :: "'c \<Rightarrow> string" \<comment> \<open>through \<open>EnumToString\<close>\<close>
  cmd_GetParameters :: "'c \<Rightarrow> 'd"
  cmd_GetProgress :: "'c \<Rightarrow> 'd"
  cmd_GetResults :: "'c \<Rightarrow> 'd"
  cmd_SetProgress :: "'d \<Rightarrow> 'c \<Rightarrow> 'c command_reply"
  cmd_Complete :: "'d \<Rightarrow> 'c \<Rightarrow> 'c command_reply"
  cmd_Abort :: "weave_error_ptr \<Rightarrow> 'c \<Rightarrow> 'c command_reply"
  cmd_Cancel :: "'c \<Rightarrow> 'c command_reply"
  cmd_Pause :: "'c \<Rightarrow> 'c command_reply"
  cmd_SetError :: "weave_error_ptr \<Rightarrow> 'c \<Rightarrow> 'c command_reply"

text \<open>
  The contract libweave documents for these methods: when one returns false, it has stored an
  error.
\<close>

definition reply_ok :: "'c command_reply \<Rightarrow> bool" where
  "reply_ok r = (case r of (_, success, error) \<Rightarrow> success \<or> error \<noteq> None)"

definition command_api_ok :: "('c, 'd) weave_command_api \<Rightarrow> bool" where
  "command_api_ok api \<longleftrightarrow>
     (\<forall>d c. reply_ok (cmd_SetProgress api d c)) \<and> (\<forall>d c. reply_ok (cmd_Complete api d c)) \<and>
     (\<forall>e c. reply_ok (cmd_Abort api e c)) \<and> (\<forall>c. reply_ok (cmd_Cancel api c)) \<and>
     (\<forall>c. reply_ok (cmd_Pause api c)) \<and> (\<forall>e c. reply_ok (cmd_SetError api e c))"

lemma command_api_okD [dest?]:
  assumes "command_api_ok api"
  shows "reply_ok (cmd_SetProgress api d c)" "reply_ok (cmd_Complete api d c)"
    "reply_ok (cmd_Abort api e c)" "reply_ok (cmd_Cancel api c)"
    "reply_ok (cmd_Pause api c)" "reply_ok (cmd_SetError api e c)"
  using assms by (simp_all add: command_api_ok_def)

section \<open>The proxy\<close>

definition ReportDestroyedError :: "binder_codes \<Rightarrow> 'a status" where
  "ReportDestroyedError bc = fromServiceSpecificError bc 1 ''Command has been destroyed''"

definition BinderCommandProxy_getId ::
    "binder_codes \<Rightarrow> ('c, 'd) weave_command_api \<Rightarrow> ('v, 'd) codec \<Rightarrow> 'c option \<Rightarrow> string16 status" where
  "BinderCommandProxy_getId bc api cd command =
     (case command of None \<Rightarrow> ReportDestroyedError bc
      | Some c \<Rightarrow> Inr (ToString16 cd (cmd_GetID api c)))"

definition BinderCommandProxy_getName ::
    "binder_codes \<Rightarrow> ('c, 'd) weave_command_api \<Rightarrow> ('v, 'd) codec \<Rightarrow> 'c option \<Rightarrow> string16 status" where
  "BinderCommandProxy_getName bc api cd command =
     (case command of None \<Rightarrow> ReportDestroyedError bc
      | Some c \<Rightarrow> Inr (ToString16 cd (cmd_GetName api c)))"

definition BinderCommandProxy_getComponent ::
    "binder_codes \<Rightarrow> ('c, 'd) weave_command_api \<Rightarrow> ('v, 'd) codec \<Rightarrow> 'c option \<Rightarrow> string16 status" where
  "BinderCommandProxy_getComponent bc api cd command =
     (case command of None \<Rightarrow> ReportDestroyedError bc
      | Some c \<Rightarrow> Inr (ToString16 cd (cmd_GetComponent api c)))"

definition BinderCommandProxy_getState ::
    "binder_codes \<Rightarrow> ('c, 'd) weave_command_api \<Rightarrow> ('v, 'd) codec \<Rightarrow> 'c option \<Rightarrow> string16 status" where
  "BinderCommandProxy_getState bc api cd command =
     (case command of None \<Rightarrow> ReportDestroyedError bc
      | Some c \<Rightarrow> Inr (ToString16 cd (cmd_GetState api c)))"

definition BinderCommandProxy_getOrigin ::
    "binder_codes \<Rightarrow> ('c, 'd) weave_command_api \<Rightarrow> ('v, 'd) codec \<Rightarrow> 'c option \<Rightarrow> string16 status" where
  "BinderCommandProxy_getOrigin bc api cd command =
     (case command of None \<Rightarrow> ReportDestroyedError bc
      | Some c \<Rightarrow> Inr (ToString16 cd (cmd_GetOrigin api c)))"

definition BinderCommandProxy_getParameters ::
    "binder_codes \<Rightarrow> ('c, 'd) weave_command_api \<Rightarrow> ('v, 'd) codec \<Rightarrow> 'c option \<Rightarrow> string16 status" where
  "BinderCommandProxy_getParameters bc api cd command =
     (case command of None \<Rightarrow> ReportDestroyedError bc
      | Some c \<Rightarrow> Inr (ToString16_value cd (of_dictionary cd (cmd_GetParameters api c))))"

definition BinderCommandProxy_getProgress ::
    "binder_codes \<Rightarrow> ('c, 'd) weave_command_api \<Rightarrow> ('v, 'd) codec \<Rightarrow> 'c option \<Rightarrow> string16 status" where
  "BinderCommandProxy_getProgress bc api cd command =
     (case command of None \<Rightarrow> ReportDestroyedError bc
      | Some c \<Rightarrow> Inr (ToString16_value cd (of_dictionary cd (cmd_GetProgress api c))))"

definition BinderCommandProxy_getResults ::
    "binder_codes \<Rightarrow> ('c, 'd) weave_command_api \<Rightarrow> ('v, 'd) codec \<Rightarrow> 'c option \<Rightarrow> string16 status" where
  "BinderCommandProxy_getResults bc api cd command =
     (case command of None \<Rightarrow> ReportDestroyedError bc
      | Some c \<Rightarrow> Inr (ToString16_value cd (of_dictionary cd (cmd_GetResults api c))))"

text \<open>
  The methods that change the command return the proxy's new state with the status.  \<open>answer\<close>
  is their common last line \<open>ToStatus(command->..., &error)\<close>.
\<close>

type_synonym 'c proxy_reply = "('c option \<times> unit status) result"

definition answer :: "binder_codes \<Rightarrow> 'c command_reply \<Rightarrow> 'c proxy_reply" where
  "answer bc r = (case r of (c, success, error) \<Rightarrow>
     bind_result (ToStatus bc success error) (\<lambda>st. Inr (Some c, st)))"

definition BinderCommandProxy_setProgress ::
    "binder_codes \<Rightarrow> ('c, 'd) weave_command_api \<Rightarrow> ('v, 'd) codec \<Rightarrow> string16 \<Rightarrow> 'c option \<Rightarrow> 'c proxy_reply" where
  "BinderCommandProxy_setProgress bc api cd progress command =
     (case command of None \<Rightarrow> Inr (None, ReportDestroyedError bc)
      | Some c \<Rightarrow>
          (case ParseDictionary bc cd progress of
             Inl e \<Rightarrow> Inr (Some c, Inl e)
           | Inr dict \<Rightarrow> answer bc (cmd_SetProgress api dict c)))"

definition BinderCommandProxy_complete ::
    "binder_codes \<Rightarrow> ('c, 'd) weave_command_api \<Rightarrow> ('v, 'd) codec \<Rightarrow> string16 \<Rightarrow> 'c option \<Rightarrow> 'c proxy_reply" where
  "BinderCommandProxy_complete bc api cd results command =
     (case command of None \<Rightarrow> Inr (None, ReportDestroyedError bc)
      | Some c \<Rightarrow>
          (case ParseDictionary bc cd results of
             Inl e \<Rightarrow> Inr (Some c, Inl e)
           | Inr dict \<Rightarrow> answer bc (cmd_Complete api dict c)))"

definition BinderCommandProxy_abort ::
    "binder_codes \<Rightarrow> ('c, 'd) weave_command_api \<Rightarrow> ('v, 'd) codec \<Rightarrow> string16 \<Rightarrow> string16 \<Rightarrow> 'c option \<Rightarrow> 'c proxy_reply" where
  "BinderCommandProxy_abort bc api cd errorCode errorMessage command =
     (case command of None \<Rightarrow> Inr (None, ReportDestroyedError bc)
      | Some c \<Rightarrow>
          (let command_error =
             weave_AddTo None (ToString cd errorCode) (ToString cd errorMessage) []
           in answer bc (cmd_Abort api command_error c)))"

definition BinderCommandProxy_cancel ::
    "binder_codes \<Rightarrow> ('c, 'd) weave_command_api \<Rightarrow> 'c option \<Rightarrow> 'c proxy_reply" where
  "BinderCommandProxy_cancel bc api command =
     (case command of None \<Rightarrow> Inr (None, ReportDestroyedError bc)
      | Some c \<Rightarrow> answer bc (cmd_Cancel api c))"

definition BinderCommandProxy_pause ::
    "binder_codes \<Rightarrow> ('c, 'd) weave_command_api \<Rightarrow> 'c option \<Rightarrow> 'c proxy_reply" where
  "BinderCommandProxy_pause bc api command =
     (case command of None \<Rightarrow> Inr (None, ReportDestroyedError bc)
      | Some c \<Rightarrow> answer bc (cmd_Pause api c))"

definition BinderCommandProxy_setError ::
    "binder_codes \<Rightarrow> ('c, 'd) weave_command_api \<Rightarrow> ('v, 'd) codec \<Rightarrow> string16 \<Rightarrow> string16 \<Rightarrow> 'c option \<Rightarrow> 'c proxy_reply" where
  "BinderCommandProxy_setError bc api cd errorCode errorMessage command =
     (case command of None \<Rightarrow> Inr (None, ReportDestroyedError bc)
      | Some c \<Rightarrow>
          (let command_error =
             weave_AddTo None (ToString cd errorCode) (ToString cd errorMessage) []
           in answer bc (cmd_SetError api command_error c)))"

lemmas proxy_getter_defs =
  BinderCommandProxy_getId_def BinderCommandProxy_getName_def BinderCommandProxy_getComponent_def
  BinderCommandProxy_getState_def BinderCommandProxy_getOrigin_def
  BinderCommandProxy_getParameters_def BinderCommandProxy_getProgress_def
  BinderCommandProxy_getResults_def

lemmas proxy_setter_defs =
  BinderCommandProxy_setProgress_def BinderCommandProxy_complete_def BinderCommandProxy_abort_def
  BinderCommandProxy_cancel_def BinderCommandProxy_pause_def BinderCommandProxy_setError_def

lemma answer_ok:
  "reply_ok (c, success, error) \<Longrightarrow>
   answer bc (c, success, error) =
     Inr (Some c, if success then Inr ()
                  else fromServiceSpecificError bc 1 (c_str (the error)))"
  by (auto simp: answer_def reply_ok_def)

lemma answer_returns: "reply_ok r \<Longrightarrow> \<exists>c st. answer bc r = Inr (c, st)"
  by (cases r) (auto simp: answer_ok)

text \<open>Under libweave's contract no call of a client can crash the daemon.\<close>

lemma proxy_setters_return:
  assumes "command_api_ok api"
  shows "\<exists>r. BinderCommandProxy_setProgress bc api cd p command = Inr r"
    and "\<exists>r. BinderCommandProxy_complete bc api cd p command = Inr r"
    and "\<exists>r. BinderCommandProxy_abort bc api cd ec em command = Inr r"
    and "\<exists>r. BinderCommandProxy_cancel bc api command = Inr r"
    and "\<exists>r. BinderCommandProxy_pause bc api command = Inr r"
    and "\<exists>r. BinderCommandProxy_setError bc api cd ec em command = Inr r"
  unfolding proxy_setter_defs Let_def
  by (auto split: option.split sum.split intro: answer_returns command_api_okD [OF assms])

section \<open>The proxy as a remote object\<close>

text \<open>
  What a client holds: every method of the proxy behind the binder driver.  If the daemon
  crashes in a call, the driver reports \<open>tf\<close>.
\<close>

definition daemon_command ::
    "binder_codes \<Rightarrow> ('c, 'd) weave_command_api \<Rightarrow> ('v, 'd) codec \<Rightarrow> binder_exception \<Rightarrow>
     'c option IWeaveCommand" where
  "daemon_command bc api cd tf =
     \<lparr>getId = BinderCommandProxy_getId bc api cd,
      getName = BinderCommandProxy_getName bc api cd,
      getComponent = BinderCommandProxy_getComponent bc api cd,
      getState = BinderCommandProxy_getState bc api cd,
      getOrigin = BinderCommandProxy_getOrigin bc api cd,
      getParameters = BinderCommandProxy_getParameters bc api cd,
      getProgress = BinderCommandProxy_getProgress bc api cd,
      getResults = BinderCommandProxy_getResults bc api cd,
      setProgress = (\<lambda>p s. deliver tf s (BinderCommandProxy_setProgress bc api cd p s)),
      complete = (\<lambda>r s. deliver tf s (BinderCommandProxy_complete bc api cd r s)),
      abort = (\<lambda>ec em s. deliver tf s (BinderCommandProxy_abort bc api cd ec em s)),
      cancel = (\<lambda>s. deliver tf s (BinderCommandProxy_cancel bc api s)),
      pause = (\<lambda>s. deliver tf s (BinderCommandProxy_pause bc api s)),
      setError = (\<lambda>ec em s. deliver tf s (BinderCommandProxy_setError bc api cd ec em s))\<rparr>"

lemma answer_keeps: "answer bc r = Inr (command, st) \<Longrightarrow> command \<noteq> None"
  by (cases r) (auto simp: answer_def)

lemma deliver_answer_keeps: "fst (deliver tf (Some c) (answer bc r)) \<noteq> None"
  by (auto simp: deliver_def dest: answer_keeps split: sum.split prod.split)

definition command_destroyed :: "binder_codes \<Rightarrow> binder_exception" where
  "command_destroyed bc = BinderException (EX_SERVICE_SPECIFIC bc) 1 ''Command has been destroyed''"

lemma ReportDestroyedError_eq: "ReportDestroyedError bc = Inl (command_destroyed bc)"
  by (simp add: ReportDestroyedError_def command_destroyed_def fromServiceSpecificError_def)

interpretation daemon: weave_command_remote
    "daemon_command bc api cd tf" "\<lambda>s. s = None" "command_destroyed bc"
  for bc api cd tf
  by unfold_locales
    (auto simp: daemon_command_def proxy_getter_defs proxy_setter_defs deliver_def
      ReportDestroyedError_eq Let_def dest: answer_keeps split: sum.splits prod.split)

end
