(* ===== verification/Weaved_Command.thy ===== *)
theory Weaved_Command
  imports Binder_Command_Proxy
begin

text \<open>
  \<^verbatim>\<open>libweaved/command.{h,cc}\<close>: the client library's wrapper around a remote command, and
  its behaviour against the daemon's proxy of \<^verbatim>\<open>buffet/binder_command_proxy.cc\<close>.

  A method that only reads takes the remote object's state; one that changes it returns the new
  state with its boolean and the caller's error pointer.  \<open>GetParameters\<close> also threads the
  cache \<open>parameter_cache_\<close>.  Warnings that only go to the log are not modelled.
\<close>

section \<open>The wrapper\<close>

datatype Command_State =
  kQueued | kInProgress | kPaused | kError | kDone | kCancelled | kAborted | kExpired

datatype Command_Origin = kLocal | kCloud

text \<open>The exception code and message of a status, whether it is an error or not.\<close>

definition status_exceptionCode :: "binder_codes \<Rightarrow> 'a status \<Rightarrow> int" where
  "status_exceptionCode bc st = (case st of Inl e \<Rightarrow> exceptionCode e | Inr _ \<Rightarrow> EX_NONE bc)"

definition status_exceptionMessage :: "'a status \<Rightarrow> string" where
  "status_exceptionMessage st = (case st of Inl e \<Rightarrow> exceptionMessage e | Inr _ \<Rightarrow> '''')"

definition BinderExceptionString :: "binder_codes \<Rightarrow> int \<Rightarrow> string" where
  "BinderExceptionString bc exception_code =
     (if exception_code = EX_NONE bc then ''_none''
      else if exception_code = EX_SECURITY bc then ''_security''
      else if exception_code = EX_BAD_PARCELABLE bc then ''_bad_parcelable''
      else if exception_code = EX_ILLEGAL_ARGUMENT bc then ''_illegal_argument''
      else if exception_code = EX_NULL_POINTER bc then ''_null_pointer''
      else if exception_code = EX_ILLEGAL_STATE bc then ''_illegal_state''
      else if exception_code = EX_NETWORK_MAIN_THREAD bc then ''_network_error''
      else if exception_code = EX_UNSUPPORTED_OPERATION bc then ''_unsupported_operation''
      else if exception_code = EX_SERVICE_SPECIFIC bc then ''_general_failure''
      else ''_unknown'')"

definition Command_GetID :: "('v, 'd) codec \<Rightarrow> 's IWeaveCommand \<Rightarrow> 's \<Rightarrow> string" where
  "Command_GetID cd binder_proxy s =
     (case getId binder_proxy s of Inl _ \<Rightarrow> '''' | Inr id16 \<Rightarrow> ToString cd id16)"

definition Command_GetName :: "('v, 'd) codec \<Rightarrow> 's IWeaveCommand \<Rightarrow> 's \<Rightarrow> string" where
  "Command_GetName cd binder_proxy s =
     (case getId binder_proxy s of Inl _ \<Rightarrow> '''' | Inr name16 \<Rightarrow> ToString cd name16)"

definition Command_GetComponent :: "('v, 'd) codec \<Rightarrow> 's IWeaveCommand \<Rightarrow> 's \<Rightarrow> string" where
  "Command_GetComponent cd binder_proxy s =
     (case getId binder_proxy s of Inl _ \<Rightarrow> '''' | Inr component16 \<Rightarrow> ToString cd component16)"

definition Command_GetState :: "('v, 'd) codec \<Rightarrow> 's IWeaveCommand \<Rightarrow> 's \<Rightarrow> Command_State" where
  "Command_GetState cd binder_proxy s =
     (let state = (case getState binder_proxy s of Inl _ \<Rightarrow> '''' | Inr state16 \<Rightarrow> ToString cd state16)
      in if state = ''queued'' then kQueued
         else if state = ''inProgress'' then kInProgress
         else if state = ''paused'' then kPaused
         else if state = ''error'' then kError
         else if state = ''done'' then kDone
         else if state = ''cancelled'' then kCancelled
         else if state = ''aborted'' then kAborted
         else if state = ''expired'' then kExpired
         else kQueued)"

definition Command_GetOrigin :: "('v, 'd) codec \<Rightarrow> 's IWeaveCommand \<Rightarrow> 's \<Rightarrow> Command_Origin" where
  "Command_GetOrigin cd binder_proxy s =
     (let origin = (case getState binder_proxy s of Inl _ \<Rightarrow> '''' | Inr origin16 \<Rightarrow> ToString cd origin16)
      in if origin = ''local'' then kLocal
         else if origin = ''cloud'' then kCloud
         else kLocal)"

definition Command_GetParameters ::
    "binder_codes \<Rightarrow> ('v, 'd) codec \<Rightarrow> 's IWeaveCommand \<Rightarrow> 's \<Rightarrow> 'd option \<Rightarrow> 'd \<times> 'd option" where
  "Command_GetParameters bc cd binder_proxy s parameter_cache =
     (case parameter_cache of
        Some d \<Rightarrow> (d, Some d)
      | None \<Rightarrow>
          (let d = (case getParameters binder_proxy s of
                      Inl _ \<Rightarrow> empty_dictionary cd
                    | Inr params_string16 \<Rightarrow>
                        (case ParseDictionary bc cd params_string16 of
                           Inl _ \<Rightarrow> empty_dictionary cd
                         | Inr d \<Rightarrow> d))
           in (d, Some d)))"

text \<open>
  \<open>GetParameter<T>\<close>: \<open>get_value\<close> is \<^verbatim>\<open>DictionaryValue::Get\<close> and
  \<open>from_value\<close> is \<^verbatim>\<open>brillo::FromValue\<close>, given the variable it may write.
\<close>

definition Command_GetParameter ::
    "binder_codes \<Rightarrow> ('v, 'd) codec \<Rightarrow> ('d \<Rightarrow> string \<Rightarrow> 'v option) \<Rightarrow> ('v \<Rightarrow> 't \<Rightarrow> 't) \<Rightarrow> 't \<Rightarrow>
     's IWeaveCommand \<Rightarrow> 's \<Rightarrow> 'd option \<Rightarrow> string \<Rightarrow> 't \<times> 'd option" where
  "Command_GetParameter bc cd get_value from_value param_value binder_proxy s cache name =
     (case Command_GetParameters bc cd binder_proxy s cache of (parameters, cache) \<Rightarrow>
        (case get_value parameters name of
           None \<Rightarrow> (param_value, cache)
         | Some value \<Rightarrow> (from_value value param_value, cache)))"

type_synonym 's client_reply = "'s \<times> bool \<times> brillo_error_ptr"

definition client_answer :: "'s \<times> unit status \<Rightarrow> brillo_error_ptr \<Rightarrow> 's client_reply" where
  "client_answer r error = (case r of (s, st) \<Rightarrow> (s, StatusToError st error))"

definition Command_SetProgress ::
    "('v, 'd) codec \<Rightarrow> 's IWeaveCommand \<Rightarrow> 'd \<Rightarrow> 's \<Rightarrow> brillo_error_ptr \<Rightarrow> 's client_reply" where
  "Command_SetProgress cd binder_proxy progress s error =
     client_answer (setProgress binder_proxy (ToString16_value cd (of_dictionary cd progress)) s) error"

definition Command_Complete ::
    "('v, 'd) codec \<Rightarrow> 's IWeaveCommand \<Rightarrow> 'd \<Rightarrow> 's \<Rightarrow> brillo_error_ptr \<Rightarrow> 's client_reply" where
  "Command_Complete cd binder_proxy results s error =
     client_answer (complete binder_proxy (ToString16_value cd (of_dictionary cd results)) s) error"

definition Command_Abort ::
    "('v, 'd) codec \<Rightarrow> 's IWeaveCommand \<Rightarrow> string \<Rightarrow> string \<Rightarrow> 's \<Rightarrow> brillo_error_ptr \<Rightarrow> 's client_reply" where
  "Command_Abort cd binder_proxy error_code error_message s error =
     client_answer (abort binder_proxy (ToString16 cd error_code) (ToString16 cd error_message) s) error"

definition Command_AbortWithCustomError ::
    "('v, 'd) codec \<Rightarrow> 's IWeaveCommand \<Rightarrow> brillo_error \<Rightarrow> 's \<Rightarrow> brillo_error_ptr \<Rightarrow> 's client_reply" where
  "Command_AbortWithCustomError cd binder_proxy command_error s error =
     (let error_code = ''_'' @ be_GetCode command_error
      in Command_Abort cd binder_proxy error_code (be_GetMessage command_error) s error)"

definition Command_AbortWithCustomError_status ::
    "binder_codes \<Rightarrow> ('v, 'd) codec \<Rightarrow> 's IWeaveCommand \<Rightarrow> 'a status \<Rightarrow> 's \<Rightarrow> brillo_error_ptr \<Rightarrow> 's client_reply" where
  "Command_AbortWithCustomError_status bc cd binder_proxy st s error =
     (let error_code = BinderExceptionString bc (status_exceptionCode bc st)
      in Command_Abort cd binder_proxy error_code (c_str (status_exceptionMessage st)) s error)"

definition Command_Cancel ::
    "'s IWeaveCommand \<Rightarrow> 's \<Rightarrow> brillo_error_ptr \<Rightarrow> 's client_reply" where
  "Command_Cancel binder_proxy s error = client_answer (cancel binder_proxy s) error"

definition Command_Pause ::
    "'s IWeaveCommand \<Rightarrow> 's \<Rightarrow> brillo_error_ptr \<Rightarrow> 's client_reply" where
  "Command_Pause binder_proxy s error = client_answer (pause binder_proxy s) error"

definition Command_SetError ::
    "('v, 'd) codec \<Rightarrow> 's IWeaveCommand \<Rightarrow> string \<Rightarrow> string \<Rightarrow> 's \<Rightarrow> brillo_error_ptr \<Rightarrow> 's client_reply" where
  "Command_SetError cd binder_proxy error_code error_message s error =
     client_answer (setError binder_proxy (ToString16 cd error_code) (ToString16 cd error_message) s) error"

definition Command_SetCustomError ::
    "('v, 'd) codec \<Rightarrow> 's IWeaveCommand \<Rightarrow> brillo_error \<Rightarrow> 's \<Rightarrow> brillo_error_ptr \<Rightarrow> 's client_reply" where
  "Command_SetCustomError cd binder_proxy command_error s error =
     (let error_code = ''_'' @ be_GetCode command_error
      in Command_SetError cd binder_proxy error_code (be_GetMessage command_error) s error)"

definition Command_SetCustomError_status ::
    "binder_codes \<Rightarrow> ('v, 'd) codec \<Rightarrow> 's IWeaveCommand \<Rightarrow> 'a status \<Rightarrow> 's \<Rightarrow> brillo_error_ptr \<Rightarrow> 's client_reply" where
  "Command_SetCustomError_status bc cd binder_proxy st s error =
     (let error_code = BinderExceptionString bc (status_exceptionCode bc st)
      in Command_SetError cd binder_proxy error_code (c_str (status_exceptionMessage st)) s error)"

lemmas Command_getter_defs =
  Command_GetID_def Command_GetName_def Command_GetComponent_def Command_GetState_def
  Command_GetOrigin_def

lemmas Command_setter_defs =
  Command_SetProgress_def Command_Complete_def Command_Abort_def Command_Cancel_def
  Command_Pause_def Command_SetError_def Command_AbortWithCustomError_def
  Command_AbortWithCustomError_status_def Command_SetCustomError_def
  Command_SetCustomError_status_def

section \<open>A command that is gone\<close>

text \<open>What the client library does with any remote command that keeps the contract.\<close>

definition destroyed_error :: "binder_exception \<Rightarrow> brillo_added" where
  "destroyed_error e = BrilloAdded None ''binder'' (to_string_int (exceptionCode e))
     (c_str (exceptionMessage e))"

context weave_command_remote begin

lemma client_answer_gone [simp]:
  "client_answer (s, Inl destroyed) error = (s, False, destroyed_error destroyed # error)"
  by (simp add: client_answer_def destroyed_error_def)

lemma gone_reads:
  assumes "gone s"
  shows "Command_GetID cd remote s = ''''" "Command_GetName cd remote s = ''''"
    "Command_GetComponent cd remote s = ''''" "Command_GetState cd remote s = kQueued"
    "Command_GetOrigin cd remote s = kLocal"
    "Command_GetParameters bc cd remote s None = (empty_dictionary cd, Some (empty_dictionary cd))"
  using assms by (simp_all add: Command_getter_defs Command_GetParameters_def gone_getters Let_def)

lemma gone_writes:
  assumes "gone s"
  shows "Command_SetProgress cd remote d s error = (s, False, destroyed_error destroyed # error)"
    "Command_Complete cd remote d s error = (s, False, destroyed_error destroyed # error)"
    "Command_Abort cd remote ec em s error = (s, False, destroyed_error destroyed # error)"
    "Command_Cancel remote s error = (s, False, destroyed_error destroyed # error)"
    "Command_Pause remote s error = (s, False, destroyed_error destroyed # error)"
    "Command_SetError cd remote ec em s error = (s, False, destroyed_error destroyed # error)"
  using assms by (simp_all add: Command_setter_defs gone_setters)

lemma cached_parameters:
  "Command_GetParameters bc cd remote s cache = (d, cache') \<Longrightarrow>
   cache' = Some d \<and> Command_GetParameters bc cd remote s' cache' = (d, cache')"
  by (auto simp: Command_GetParameters_def Let_def split: option.splits)

end

section \<open>The wrapper against the daemon's proxy\<close>

lemma daemon_command_simps [simp]:
  "getId (daemon_command bc api cd tf) = BinderCommandProxy_getId bc api cd"
  "getState (daemon_command bc api cd tf) = BinderCommandProxy_getState bc api cd"
  "getParameters (daemon_command bc api cd tf) = BinderCommandProxy_getParameters bc api cd"
  "setProgress (daemon_command bc api cd tf) p s = deliver tf s (BinderCommandProxy_setProgress bc api cd p s)"
  "complete (daemon_command bc api cd tf) p s = deliver tf s (BinderCommandProxy_complete bc api cd p s)"
  "abort (daemon_command bc api cd tf) ec em s = deliver tf s (BinderCommandProxy_abort bc api cd ec em s)"
  "cancel (daemon_command bc api cd tf) s = deliver tf s (BinderCommandProxy_cancel bc api s)"
  "pause (daemon_command bc api cd tf) s = deliver tf s (BinderCommandProxy_pause bc api s)"
  "setError (daemon_command bc api cd tf) ec em s = deliver tf s (BinderCommandProxy_setError bc api cd ec em s)"
  by (simp_all add: daemon_command_def)

text \<open>
  The abstract service the wrapper promises: the method of libweave's command is called with the
  caller's own arguments, its boolean is returned, and a failure adds one entry to the caller's
  error, with the message libweave gave.
\<close>

definition expected_reply ::
    "binder_codes \<Rightarrow> 'c command_reply \<Rightarrow> brillo_error_ptr \<Rightarrow> 'c option client_reply" where
  "expected_reply bc r error =
     (case r of (c, success, msg) \<Rightarrow>
        (Some c, success,
         if success then error
         else BrilloAdded None ''binder'' (to_string_int (EX_SERVICE_SPECIFIC bc))
                (c_str (the msg)) # error))"

lemma client_answer_deliver:
  "reply_ok r \<Longrightarrow> client_answer (deliver tf s (answer bc r)) error = expected_reply bc r error"
  by (cases r) (auto simp: answer_ok client_answer_def expected_reply_def fromServiceSpecificError_def)

lemma Command_SetProgress_daemon:
  assumes "command_api_ok api" and "json_ok cd d"
  shows "Command_SetProgress cd (daemon_command bc api cd tf) d (Some c) error =
    expected_reply bc (cmd_SetProgress api d c) error"
  using assms(2)
  by (simp add: Command_SetProgress_def BinderCommandProxy_setProgress_def conversions
      client_answer_deliver command_api_okD [OF assms(1)])

lemma Command_Complete_daemon:
  assumes "command_api_ok api" and "json_ok cd d"
  shows "Command_Complete cd (daemon_command bc api cd tf) d (Some c) error =
    expected_reply bc (cmd_Complete api d c) error"
  using assms(2)
  by (simp add: Command_Complete_def BinderCommandProxy_complete_def conversions
      client_answer_deliver command_api_okD [OF assms(1)])

lemma Command_Abort_daemon:
  assumes "command_api_ok api" and "text_ok cd ec" and "text_ok cd em"
  shows "Command_Abort cd (daemon_command bc api cd tf) ec em (Some c) error =
    expected_reply bc (cmd_Abort api [WeaveAdded None ec em] c) error"
  using assms(2,3)
  by (simp add: Command_Abort_def BinderCommandProxy_abort_def conversions weave_AddTo_def
      client_answer_deliver command_api_okD [OF assms(1)])

lemma Command_SetError_daemon:
  assumes "command_api_ok api" and "text_ok cd ec" and "text_ok cd em"
  shows "Command_SetError cd (daemon_command bc api cd tf) ec em (Some c) error =
    expected_reply bc (cmd_SetError api [WeaveAdded None ec em] c) error"
  using assms(2,3)
  by (simp add: Command_SetError_def BinderCommandProxy_setError_def conversions weave_AddTo_def
      client_answer_deliver command_api_okD [OF assms(1)])

lemma Command_Cancel_daemon:
  assumes "command_api_ok api"
  shows "Command_Cancel (daemon_command bc api cd tf) (Some c) error =
    expected_reply bc (cmd_Cancel api c) error"
  by (simp add: Command_Cancel_def BinderCommandProxy_cancel_def
      client_answer_deliver command_api_okD [OF assms])

lemma Command_Pause_daemon:
  assumes "command_api_ok api"
  shows "Command_Pause (daemon_command bc api cd tf) (Some c) error =
    expected_reply bc (cmd_Pause api c) error"
  by (simp add: Command_Pause_def BinderCommandProxy_pause_def
      client_answer_deliver command_api_okD [OF assms])

lemma BinderExceptionString_underscore:
  "\<exists>rest. BinderExceptionString bc code = CHR ''_'' # rest"
  by (simp add: BinderExceptionString_def)

section \<open>Properties\<close>

definition state_name :: "Command_State \<Rightarrow> string" where
  "state_name st = (case st of
       kQueued \<Rightarrow> ''queued'' | kInProgress \<Rightarrow> ''inProgress'' | kPaused \<Rightarrow> ''paused''
     | kError \<Rightarrow> ''error'' | kDone \<Rightarrow> ''done'' | kCancelled \<Rightarrow> ''cancelled''
     | kAborted \<Rightarrow> ''aborted'' | kExpired \<Rightarrow> ''expired'')"

lemma state_name_cases: "state_name st \<noteq> ''local'' \<and> state_name st \<noteq> ''cloud''"
  by (cases st) (simp_all add: state_name_def)

lemma Command_GetState_text:
  "Command_GetState cd remote s = st' \<Longrightarrow>
   getState remote s = Inr w \<Longrightarrow> ToString cd w = state_name st \<Longrightarrow> st' = st"
  by (cases st) (simp_all add: Command_GetState_def state_name_def)

text \<open>
  The six methods of the client's \<open>Command\<close> that change a command, run against
  the daemon's \<open>BinderCommandProxy\<close>, are the corresponding methods of libweave's command: the
  dictionary or the error code and message arrive unchanged, the boolean comes back, the command is
  in the state libweave left it in, and the caller's error pointer gets exactly one entry, with
  libweave's message, exactly when the method failed.
\<close>

theorem command_methods_refine:
  assumes "command_api_ok api" and "json_ok cd d" and "text_ok cd ec" and "text_ok cd em"
  shows "Command_SetProgress cd (daemon_command bc api cd tf) d (Some c) error =
      expected_reply bc (cmd_SetProgress api d c) error \<and>
    Command_Complete cd (daemon_command bc api cd tf) d (Some c) error =
      expected_reply bc (cmd_Complete api d c) error \<and>
    Command_Abort cd (daemon_command bc api cd tf) ec em (Some c) error =
      expected_reply bc (cmd_Abort api [WeaveAdded None ec em] c) error \<and>
    Command_Cancel (daemon_command bc api cd tf) (Some c) error =
      expected_reply bc (cmd_Cancel api c) error \<and>
    Command_Pause (daemon_command bc api cd tf) (Some c) error =
      expected_reply bc (cmd_Pause api c) error \<and>
    Command_SetError cd (daemon_command bc api cd tf) ec em (Some c) error =
      expected_reply bc (cmd_SetError api [WeaveAdded None ec em] c) error"
  using assms
  by (simp add: Command_SetProgress_daemon Command_Complete_daemon Command_Abort_daemon
      Command_Cancel_daemon Command_Pause_daemon Command_SetError_daemon)

definition sample_api :: "(nat, string) weave_command_api" where
  "sample_api = \<lparr>cmd_GetID = (\<lambda>_. ''cmd_1''), cmd_GetName = (\<lambda>_. ''robot.jump''),
     cmd_GetComponent = (\<lambda>_. ''myComponent''), cmd_GetState = (\<lambda>_. ''inProgress''),
     cmd_GetOrigin = (\<lambda>_. ''cloud''), cmd_GetParameters = (\<lambda>_. ''{height:53}''),
     cmd_GetProgress = (\<lambda>_. ''{}''), cmd_GetResults = (\<lambda>_. ''{}''),
     cmd_SetProgress = (\<lambda>d c. (Suc c, True, None)),
     cmd_Complete = (\<lambda>d c. (c, False, Some ''schema'')),
     cmd_Abort = (\<lambda>e c. (length e, True, None)), cmd_Cancel = (\<lambda>c. (0, True, None)),
     cmd_Pause = (\<lambda>c. (c, False, Some ''not running'')),
     cmd_SetError = (\<lambda>e c. (c + length e, True, None))\<rparr>"

lemma sample_api_ok: "command_api_ok sample_api"
  by (simp add: command_api_ok_def sample_api_def reply_ok_def)

theorem command_methods_refine_witness:
  "Command_Complete sample_codec (daemon_command sample_codes sample_api sample_codec dead_daemon)
     ''{foo:42}'' (Some 7) [] =
   (Some 7, False, [BrilloAdded None ''binder'' ''-8'' ''schema''])"
proof -
  have "Command_Complete sample_codec (daemon_command sample_codes sample_api sample_codec dead_daemon)
      ''{foo:42}'' (Some 7) [] =
    expected_reply sample_codes (cmd_Complete sample_api ''{foo:42}'' 7) []"
    using command_methods_refine [OF sample_api_ok, of sample_codec "''{foo:42}''" "''e''" "''m''"]
    by (simp add: sample_text_ok sample_json_ok)
  then show ?thesis
    by (simp add: expected_reply_def sample_api_def sample_codes_def to_string_int_def
        digits10.simps c_str_def)
qed

text \<open>
  Reading over the wire: while the command exists, the client's \<open>GetID\<close>,
  \<open>GetState\<close> and \<open>GetParameters\<close> give libweave's id, state and dictionary; the dictionary
  is cached, so every later call returns it whatever has happened to the command since.
\<close>

theorem command_reads_refine:
  assumes "text_ok cd (cmd_GetID api c)" and "text_ok cd (state_name st)"
    and "cmd_GetState api c = state_name st" and "json_ok cd (cmd_GetParameters api c)"
  shows "Command_GetID cd (daemon_command bc api cd tf) (Some c) = cmd_GetID api c \<and>
    Command_GetState cd (daemon_command bc api cd tf) (Some c) = st \<and>
    Command_GetParameters bc cd (daemon_command bc api cd tf) (Some c) None =
      (cmd_GetParameters api c, Some (cmd_GetParameters api c)) \<and>
    (\<forall>later. Command_GetParameters bc cd (daemon_command bc api cd tf) later
        (snd (Command_GetParameters bc cd (daemon_command bc api cd tf) (Some c) None)) =
      (cmd_GetParameters api c, Some (cmd_GetParameters api c)))"
proof -
  have "Command_GetState cd (daemon_command bc api cd tf) (Some c) = st"
    using assms(2,3)
    by (intro Command_GetState_text [OF refl, where w = "ToString16 cd (state_name st)"])
      (simp_all add: BinderCommandProxy_getState_def conversions)
  then show ?thesis
    using assms(1,4)
    by (simp add: Command_GetID_def BinderCommandProxy_getId_def conversions
        Command_GetParameters_def BinderCommandProxy_getParameters_def Let_def)
qed

theorem command_reads_refine_witness:
  "Command_GetState sample_codec (daemon_command sample_codes sample_api sample_codec dead_daemon)
     (Some 7) = kInProgress"
  using command_reads_refine [of sample_codec sample_api 7 kInProgress sample_codes dead_daemon]
  by (simp add: sample_text_ok sample_json_ok sample_api_def state_name_def)

text \<open>
  Once libweave has destroyed a command, every read of the client's wrapper gives the
  default value, and every method that would change it fails, changes nothing, and adds the error
  "Command has been destroyed".
\<close>

theorem destroyed_command_is_inert:
  "Command_GetID cd (daemon_command bc api cd tf) None = [] \<and>
   Command_GetState cd (daemon_command bc api cd tf) None = kQueued \<and>
   fst (Command_GetParameters bc cd (daemon_command bc api cd tf) None None) = empty_dictionary cd \<and>
   (let failed = (None, False,
          BrilloAdded None ''binder'' (to_string_int (EX_SERVICE_SPECIFIC bc))
            ''Command has been destroyed'' # error) in
     Command_SetProgress cd (daemon_command bc api cd tf) d None error = failed \<and>
     Command_Complete cd (daemon_command bc api cd tf) d None error = failed \<and>
     Command_Abort cd (daemon_command bc api cd tf) ec em None error = failed \<and>
     Command_Cancel (daemon_command bc api cd tf) None error = failed \<and>
     Command_Pause (daemon_command bc api cd tf) None error = failed \<and>
     Command_SetError cd (daemon_command bc api cd tf) ec em None error = failed)"
  by (simp add: daemon.gone_reads daemon.gone_writes destroyed_error_def command_destroyed_def
      c_str_no_nul)

text \<open>
  A status of the caller's own, or a brillo error, given to
  \<open>AbortWithCustomError\<close> or \<open>SetCustomError\<close>, reaches libweave as an error with a code that
  begins with an underscore: the error's own code with one put before it, or the name of the
  status's exception code.
\<close>

theorem custom_errors_are_prefixed:
  assumes "command_api_ok api" and "text_ok cd (CHR ''_'' # be_GetCode e)" and "text_ok cd (be_GetMessage e)"
    and "text_ok cd (BinderExceptionString bc (status_exceptionCode bc st))"
    and "text_ok cd (c_str (status_exceptionMessage st))"
  shows "Command_AbortWithCustomError cd (daemon_command bc api cd tf) e (Some c) error =
      expected_reply bc
        (cmd_Abort api [WeaveAdded None (CHR ''_'' # be_GetCode e) (be_GetMessage e)] c) error \<and>
    Command_SetCustomError cd (daemon_command bc api cd tf) e (Some c) error =
      expected_reply bc
        (cmd_SetError api [WeaveAdded None (CHR ''_'' # be_GetCode e) (be_GetMessage e)] c) error \<and>
    (\<exists>code. Command_AbortWithCustomError_status bc cd (daemon_command bc api cd tf) st (Some c) error =
      expected_reply bc (cmd_Abort api
        [WeaveAdded None (CHR ''_'' # code) (c_str (status_exceptionMessage st))] c) error \<and>
     Command_SetCustomError_status bc cd (daemon_command bc api cd tf) st (Some c) error =
      expected_reply bc (cmd_SetError api
        [WeaveAdded None (CHR ''_'' # code) (c_str (status_exceptionMessage st))] c) error)"
proof -
  obtain code where code: "BinderExceptionString bc (status_exceptionCode bc st) = CHR ''_'' # code"
    using BinderExceptionString_underscore by blast
  show ?thesis
    using assms(2-5)
    by (auto simp: Command_AbortWithCustomError_def code
        Command_SetCustomError_def Command_AbortWithCustomError_status_def
        Command_SetCustomError_status_def Command_Abort_daemon Command_SetError_daemon assms(1))
qed

theorem custom_errors_are_prefixed_witness:
  "Command_AbortWithCustomError sample_codec
     (daemon_command sample_codes sample_api sample_codec dead_daemon)
     (BrilloError \<lparr>function_name = [], file_name = [], line_number = 0\<rparr> ''d'' ''code'' ''msg'' None)
     (Some 7) [] = (Some 1, True, [])"
  using custom_errors_are_prefixed [OF sample_api_ok, of sample_codec
      "BrilloError \<lparr>function_name = [], file_name = [], line_number = 0\<rparr> ''d'' ''code'' ''msg'' None"
      sample_codes "Inr ()" dead_daemon 7 "[]"]
  by (simp add: sample_text_ok expected_reply_def sample_api_def BinderExceptionString_def
      status_exceptionCode_def status_exceptionMessage_def)

text \<open>
  Property C9.  The wrapper's \<open>GetName\<close> and \<open>GetComponent\<close> ask the daemon for the id: they
  return the command's id, whatever its name and component are; and \<open>GetOrigin\<close> asks for the
  state, so a command in any of the eight states is reported as local even when libweave says it
  came from the cloud.
\<close>

theorem name_component_origin_are_misread:
  assumes "text_ok cd (cmd_GetID api c)" and "text_ok cd (state_name st)"
    and "cmd_GetState api c = state_name st"
  shows "Command_GetName cd (daemon_command bc api cd tf) (Some c) = cmd_GetID api c \<and>
    Command_GetComponent cd (daemon_command bc api cd tf) (Some c) = cmd_GetID api c \<and>
    Command_GetOrigin cd (daemon_command bc api cd tf) (Some c) = kLocal"
  using assms(1,2) state_name_cases [of st]
  by (simp add: Command_GetName_def Command_GetComponent_def Command_GetOrigin_def
      BinderCommandProxy_getId_def BinderCommandProxy_getState_def assms(3) conversions)

theorem name_component_origin_are_misread_witness:
  "cmd_GetName sample_api 7 = ''robot.jump'' \<and> cmd_GetOrigin sample_api 7 = ''cloud'' \<and>
   Command_GetName sample_codec (daemon_command sample_codes sample_api sample_codec dead_daemon)
     (Some 7) = ''cmd_1'' \<and>
   Command_GetOrigin sample_codec (daemon_command sample_codes sample_api sample_codec dead_daemon)
     (Some 7) = kLocal"
  using name_component_origin_are_misread
      [of sample_codec sample_api 7 kInProgress sample_codes dead_daemon]
  by (simp add: sample_text_ok sample_api_def state_name_def)

end
