(* ===== verification/Weaved_Service.thy ===== *)
theory Weaved_Service
  imports Weaved_Command
begin

text \<open>
  \<^verbatim>\<open>libweaved/service.{h,cc}\<close>: the client library's connection to the daemon.

  First the methods of one \<open>ServiceImpl\<close> object, then the client process around it: the
  subscription that owns the one live instance, the tasks in its message loop, and the binder
  objects (\<open>WeaveClient\<close>, \<open>NotificationListener\<close>, death registrations) that refer to an
  instance by weak pointer.  Instances are numbered in the order of their construction, so a weak
  pointer is a number that locks while the subscription holds the instance with that number.

  A user callback is a number; running it is an effect, and what it calls is a later event.  A
  remote call's reply comes with the event.  \<open>'w\<close> stands for a reference to a remote command.
\<close>

section \<open>The service object\<close>

record PairingInfo =
  session_id :: string
  pairing_mode :: string
  pairing_code :: string

record CommandHandlerEntry =
  che_component :: string
  che_command_name :: string
  che_callback :: nat

record ServiceImpl =
  si_manager :: "sp option"
  si_weave_service :: "sp option"
  si_pairing_info_callback :: "nat option"
  si_pairing_info :: PairingInfo
  si_command_handlers :: "CommandHandlerEntry list"

datatype 'w client_effect =
    ManagerConnect sp nat \<comment> \<open>\<open>connect\<close>, with the \<open>WeaveClient\<close> of an instance\<close>
  | ManagerRegisterListener sp nat
  | RunConnectionCallback nat
  | RunCommandHandler nat 'w
  | AbortCommand 'w string16 string16
  | RunPairingCallback nat "PairingInfo option"
  | UnregisterForDeath sp

definition new_ServiceImpl :: ServiceImpl where
  "new_ServiceImpl = \<lparr>si_manager = None, si_weave_service = None, si_pairing_info_callback = None,
     si_pairing_info = \<lparr>session_id = '''', pairing_mode = '''', pairing_code = ''''\<rparr>,
     si_command_handlers = []\<rparr>"

definition destroy_ServiceImpl :: "ServiceImpl \<Rightarrow> 'w client_effect list" where
  "destroy_ServiceImpl si =
     (case si_weave_service si of None \<Rightarrow> [] | Some service \<Rightarrow> [UnregisterForDeath service])"

definition ServiceImpl_AddComponent ::
    "('v, 'd) codec \<Rightarrow> 's IWeaveService \<Rightarrow> string \<Rightarrow> string list \<Rightarrow> ServiceImpl \<Rightarrow> 's \<Rightarrow>
     brillo_error_ptr \<Rightarrow> 's client_reply result" where
  "ServiceImpl_AddComponent cd remote component traits si s error =
     check (si_weave_service si \<noteq> None) ''weave_service_.get()''
       (let trait_list = map (ToString16 cd) traits
        in Inr (client_answer
                  (IWeaveService.addComponent remote (ToString16 cd component) trait_list s) error))"

definition full_name :: "string \<Rightarrow> string \<Rightarrow> string" where
  \<comment> \<open>\<open>StringPrintf("%s.%s", ...)\<close>\<close>
  "full_name trait_name name = c_str trait_name @ ''.'' @ c_str name"

definition ServiceImpl_AddCommandHandler ::
    "('v, 'd) codec \<Rightarrow> 's IWeaveService \<Rightarrow> string \<Rightarrow> string \<Rightarrow> string \<Rightarrow> nat \<Rightarrow> ServiceImpl \<Rightarrow> 's \<Rightarrow>
     (ServiceImpl \<times> 's) result" where
  "ServiceImpl_AddCommandHandler cd remote component trait_name command_name callback si s =
     check (component \<noteq> '''' \<and> command_name \<noteq> '''') ''!component.empty() && !command_name.empty()''
      (check (si_weave_service si \<noteq> None) ''weave_service_.get()''
        (let full_command_name = full_name trait_name command_name;
             entry = \<lparr>che_component = component, che_command_name = full_command_name,
                      che_callback = callback\<rparr>;
             si = si\<lparr>si_command_handlers := si_command_handlers si @ [entry]\<rparr>
         in case registerCommandHandler remote (ToString16 cd component)
                   (ToString16 cd full_command_name) s of
              (s, status) \<Rightarrow> check (isOk status) ''status.isOk()'' (Inr (si, s))))"

definition ServiceImpl_SetStateProperties ::
    "('v, 'd) codec \<Rightarrow> 's IWeaveService \<Rightarrow> string \<Rightarrow> 'd \<Rightarrow> ServiceImpl \<Rightarrow> 's \<Rightarrow>
     brillo_error_ptr \<Rightarrow> 's client_reply result" where
  "ServiceImpl_SetStateProperties cd remote component dict si s error =
     check (component \<noteq> '''') ''!component.empty()''
      (check (si_weave_service si \<noteq> None) ''weave_service_.get()''
        (Inr (client_answer (updateState remote (ToString16 cd component)
                (ToString16_value cd (of_dictionary cd dict)) s) error)))"

text \<open>\<open>dict_Set\<close> is \<^verbatim>\<open>DictionaryValue::Set\<close> of libchrome.\<close>

definition ServiceImpl_SetStateProperty ::
    "('v, 'd) codec \<Rightarrow> (string \<Rightarrow> 'v \<Rightarrow> 'd \<Rightarrow> 'd) \<Rightarrow> 's IWeaveService \<Rightarrow> string \<Rightarrow> string \<Rightarrow> string \<Rightarrow> 'v \<Rightarrow>
     ServiceImpl \<Rightarrow> 's \<Rightarrow> brillo_error_ptr \<Rightarrow> 's client_reply result" where
  "ServiceImpl_SetStateProperty cd dict_Set remote component trait_name property_name value si s error =
     (let name = full_name trait_name property_name;
          dict = dict_Set name value (empty_dictionary cd)
      in ServiceImpl_SetStateProperties cd remote component dict si s error)"

definition pairing_complete :: "PairingInfo \<Rightarrow> bool" where
  "pairing_complete info \<longleftrightarrow>
     session_id info \<noteq> '''' \<and> pairing_mode info \<noteq> '''' \<and> pairing_code info \<noteq> ''''"

definition ServiceImpl_SetPairingInfoListener ::
    "nat option \<Rightarrow> ServiceImpl \<Rightarrow> ServiceImpl \<times> 'w client_effect list" where
  "ServiceImpl_SetPairingInfoListener callback si =
     (let si = si\<lparr>si_pairing_info_callback := callback\<rparr>
      in case callback of
           None \<Rightarrow> (si, [])
         | Some cb \<Rightarrow>
             (si, if pairing_complete (si_pairing_info si)
                  then [RunPairingCallback cb (Some (si_pairing_info si))] else []))"

definition ServiceImpl_OnServiceConnected ::
    "nat \<Rightarrow> sp \<Rightarrow> ServiceImpl \<Rightarrow> ServiceImpl \<times> 'w client_effect list" where
  "ServiceImpl_OnServiceConnected self service si =
     (si\<lparr>si_weave_service := Some service\<rparr>, [RunConnectionCallback self])"

definition ServiceImpl_OnCommand ::
    "string \<Rightarrow> string \<Rightarrow> 'w \<Rightarrow> ServiceImpl \<Rightarrow> 'w client_effect list" where
  "ServiceImpl_OnCommand component_name command_name command si =
     (case find (\<lambda>entry. che_component entry = component_name \<and> che_command_name entry = command_name)
             (si_command_handlers si) of
        None \<Rightarrow> []
      | Some entry \<Rightarrow> [RunCommandHandler (che_callback entry) command])"

text \<open>
  \<open>OnNotification\<close> gets the ids, each with what the getter that belongs to it replies (the
  reply is not looked at for the other ids).
\<close>

definition store_pairing :: "int \<Rightarrow> string \<Rightarrow> PairingInfo \<Rightarrow> PairingInfo" where
  "store_pairing nid v info =
     (if nid = PAIRING_SESSION_ID then info\<lparr>session_id := v\<rparr>
      else if nid = PAIRING_MODE then info\<lparr>pairing_mode := v\<rparr>
      else if nid = PAIRING_CODE then info\<lparr>pairing_code := v\<rparr>
      else info)"

fun notification_loop :: "('v, 'd) codec \<Rightarrow> (int \<times> string16 status) list \<Rightarrow> ServiceImpl \<Rightarrow> bool \<Rightarrow>
    (ServiceImpl \<times> bool) result" where
  "notification_loop cd [] si pairing_info_changed = Inr (si, pairing_info_changed)"
| "notification_loop cd ((nid, reply) # ids) si pairing_info_changed =
     (if nid = PAIRING_SESSION_ID \<or> nid = PAIRING_MODE \<or> nid = PAIRING_CODE then
        (case si_manager si of
           None \<Rightarrow> Inl (NullDeref ''weave_service_manager_'')
         | Some _ \<Rightarrow>
             (case reply of
                Inl _ \<Rightarrow> notification_loop cd ids si pairing_info_changed
              | Inr string_value \<Rightarrow>
                  notification_loop cd ids
                    (si\<lparr>si_pairing_info := store_pairing nid (ToString cd string_value) (si_pairing_info si)\<rparr>)
                    True))
      else notification_loop cd ids si pairing_info_changed)"

definition ServiceImpl_OnNotification ::
    "('v, 'd) codec \<Rightarrow> (int \<times> string16 status) list \<Rightarrow> ServiceImpl \<Rightarrow>
     (ServiceImpl \<times> 'w client_effect list) result" where
  "ServiceImpl_OnNotification cd ids si =
     bind_result (notification_loop cd ids si False) (\<lambda>(si, pairing_info_changed).
       Inr (si,
         if \<not> pairing_info_changed then []
         else (case si_pairing_info_callback si of
                 None \<Rightarrow> []
               | Some cb \<Rightarrow>
                   [RunPairingCallback cb
                      (if pairing_complete (si_pairing_info si) then Some (si_pairing_info si) else None)])))"

section \<open>The client process\<close>

datatype client_task = TaskTryConnecting nat | TaskReconnect nat

record 'w client_process =
  cp_live :: "(nat \<times> ServiceImpl) option"
  cp_made :: nat
  cp_tasks :: "client_task list"
  cp_weave_clients :: "nat list"
  cp_listeners :: "nat list"
  cp_deaths :: "(sp \<times> nat) list"
  cp_effects :: "'w client_effect list"

definition lock :: "'w client_process \<Rightarrow> nat \<Rightarrow> ServiceImpl option" where
  "lock p wid = (case cp_live p of None \<Rightarrow> None | Some (i, si) \<Rightarrow> if i = wid then Some si else None)"

definition cp_emit :: "'w client_effect list \<Rightarrow> 'w client_process \<Rightarrow> 'w client_process" where
  "cp_emit es p = p\<lparr>cp_effects := cp_effects p @ es\<rparr>"

definition post_task :: "client_task \<Rightarrow> 'w client_process \<Rightarrow> 'w client_process" where
  "post_task t p = p\<lparr>cp_tasks := cp_tasks p @ [t]\<rparr>"

definition BeginConnect :: "nat \<Rightarrow> 'w client_process \<Rightarrow> 'w client_process" where
  "BeginConnect self p = post_task (TaskTryConnecting self) p"

text \<open>
  \<open>make_shared<ServiceImpl>\<close>, \<open>BeginConnect\<close> and \<open>SetService\<close>, which destroys the
  instance the subscription held.
\<close>

definition start_instance :: "'w client_process \<Rightarrow> 'w client_process" where
  "start_instance p =
     (let service = cp_made p;
          p = p\<lparr>cp_made := Suc service\<rparr>;
          p = BeginConnect service p;
          old = cp_live p;
          p = p\<lparr>cp_live := Some (service, new_ServiceImpl)\<rparr>
      in case old of None \<Rightarrow> p | Some (_, si) \<Rightarrow> cp_emit (destroy_ServiceImpl si) p)"

definition Service_Connect :: "'w client_process" where
  "Service_Connect =
     start_instance \<lparr>cp_live = None, cp_made = 0, cp_tasks = [], cp_weave_clients = [],
       cp_listeners = [], cp_deaths = [], cp_effects = []\<rparr>"

definition OnWeaveServiceDisconnected :: "nat \<Rightarrow> 'w client_process \<Rightarrow> 'w client_process" where
  "OnWeaveServiceDisconnected self p = post_task (TaskReconnect self) p"

text \<open>
  \<open>TryConnecting\<close> of the live instance: \<open>GetService\<close> is the binder the service manager
  returns, \<open>register_success\<close> whether the death registration succeeds.
\<close>

definition TryConnecting ::
    "sp option \<Rightarrow> bool \<Rightarrow> nat \<Rightarrow> ServiceImpl \<Rightarrow> 'w client_process \<Rightarrow> 'w client_process" where
  "TryConnecting GetService register_success self si p =
     (case GetService of
        None \<Rightarrow> post_task (TaskTryConnecting self) p
      | Some ibinder \<Rightarrow>
          (if \<not> register_success then OnWeaveServiceDisconnected self p
           else (let p = p\<lparr>cp_deaths := cp_deaths p @ [(ibinder, self)]\<rparr>;
                     p = p\<lparr>cp_live := Some (self, si\<lparr>si_manager := Some ibinder\<rparr>)\<rparr>;
                     p = p\<lparr>cp_weave_clients := cp_weave_clients p @ [self]\<rparr>;
                     p = cp_emit [ManagerConnect ibinder self] p;
                     p = p\<lparr>cp_listeners := cp_listeners p @ [self]\<rparr>
                 in cp_emit [ManagerRegisterListener ibinder self] p)))"

definition ReconnectOnServiceDisconnection :: "nat \<Rightarrow> ServiceImpl \<Rightarrow> 'w client_process \<Rightarrow> 'w client_process" where
  "ReconnectOnServiceDisconnection self si p =
     start_instance (p\<lparr>cp_live := Some (self, si\<lparr>si_weave_service := None\<rparr>)\<rparr>)"

definition destroy_Subscription :: "'w client_process \<Rightarrow> 'w client_process" where
  "destroy_Subscription p =
     (case cp_live p of
        None \<Rightarrow> p
      | Some (_, si) \<Rightarrow>
          cp_emit (destroy_ServiceImpl si)
            (p\<lparr>cp_live := None,
               cp_deaths := (case si_weave_service si of
                               None \<Rightarrow> cp_deaths p
                             | Some service \<Rightarrow> filter (\<lambda>d. fst d \<noteq> service) (cp_deaths p))\<rparr>))"

text \<open>The binder objects.\<close>

definition WeaveClient_onServiceConnected :: "nat \<Rightarrow> sp \<Rightarrow> 'w client_process \<Rightarrow> 'w client_process" where
  "WeaveClient_onServiceConnected wid service p =
     (case lock p wid of
        None \<Rightarrow> p
      | Some si \<Rightarrow>
          (case ServiceImpl_OnServiceConnected wid service si of
             (si, es) \<Rightarrow> cp_emit es (p\<lparr>cp_live := Some (wid, si)\<rparr>)))"

definition WeaveClient_onCommand ::
    "('v, 'd) codec \<Rightarrow> nat \<Rightarrow> string16 \<Rightarrow> string16 \<Rightarrow> 'w \<Rightarrow> 'w client_process \<Rightarrow> 'w client_process" where
  "WeaveClient_onCommand cd wid componentName commandName command p =
     (case lock p wid of
        Some si \<Rightarrow>
          cp_emit (ServiceImpl_OnCommand (ToString cd componentName) (ToString cd commandName) command si) p
      | None \<Rightarrow>
          cp_emit [AbortCommand command (utf16 cd ''service_unavailable'')
                     (utf16 cd ''Command handler is unavailable'')] p)"

definition NotificationListener_notifyServiceManagerChange ::
    "('v, 'd) codec \<Rightarrow> nat \<Rightarrow> (int \<times> string16 status) list \<Rightarrow> 'w client_process \<Rightarrow> 'w client_process result" where
  "NotificationListener_notifyServiceManagerChange cd wid notificationIds p =
     (case lock p wid of
        None \<Rightarrow> Inr p
      | Some si \<Rightarrow>
          bind_result (ServiceImpl_OnNotification cd notificationIds si) (\<lambda>(si, es).
            Inr (cp_emit es (p\<lparr>cp_live := Some (wid, si)\<rparr>))))"


section \<open>Events\<close>

text \<open>
  The client code calls a service it has locked, and it has only the pointers that its connection
  callback was given.  A remote object whose every reply is \<open>st\<close> stands for the daemon.
\<close>

datatype ('v, 'd) api_call =
    ApiAddComponent string "string list" "unit status"
  | ApiAddCommandHandler string string string nat "unit status"
  | ApiSetStateProperties string 'd "unit status"
  | ApiSetStateProperty string string string 'v "unit status"
  | ApiSetPairingInfoListener "nat option"

definition answering :: "unit status \<Rightarrow> unit IWeaveService" where
  "answering st = \<lparr>addComponent = \<lambda>_ _ s. (s, st), registerCommandHandler = \<lambda>_ _ s. (s, st),
     updateState = \<lambda>_ _ s. (s, st)\<rparr>"

fun api_step :: "('v, 'd) codec \<Rightarrow> (string \<Rightarrow> 'v \<Rightarrow> 'd \<Rightarrow> 'd) \<Rightarrow> nat \<Rightarrow> ServiceImpl \<Rightarrow>
    ('v, 'd) api_call \<Rightarrow> 'w client_process \<Rightarrow> 'w client_process result" where
  "api_step cd dict_Set wid si (ApiAddComponent component traits st) p =
     bind_result (ServiceImpl_AddComponent cd (answering st) component traits si () []) (\<lambda>_. Inr p)"
| "api_step cd dict_Set wid si (ApiAddCommandHandler component trait_name command_name callback st) p =
     bind_result
       (ServiceImpl_AddCommandHandler cd (answering st) component trait_name command_name callback si ())
       (\<lambda>(si, _). Inr (p\<lparr>cp_live := Some (wid, si)\<rparr>))"
| "api_step cd dict_Set wid si (ApiSetStateProperties component dict st) p =
     bind_result (ServiceImpl_SetStateProperties cd (answering st) component dict si () []) (\<lambda>_. Inr p)"
| "api_step cd dict_Set wid si (ApiSetStateProperty component trait_name name v st) p =
     bind_result
       (ServiceImpl_SetStateProperty cd dict_Set (answering st) component trait_name name v si () [])
       (\<lambda>_. Inr p)"
| "api_step cd dict_Set wid si (ApiSetPairingInfoListener callback) p =
     (case ServiceImpl_SetPairingInfoListener callback si of
        (si, es) \<Rightarrow> Inr (cp_emit es (p\<lparr>cp_live := Some (wid, si)\<rparr>)))"

fun run_task :: "sp option \<Rightarrow> bool \<Rightarrow> client_task \<Rightarrow> 'w client_process \<Rightarrow> 'w client_process" where
  "run_task GetService register_success (TaskTryConnecting wid) p =
     (case lock p wid of None \<Rightarrow> p | Some si \<Rightarrow> TryConnecting GetService register_success wid si p)"
| "run_task GetService register_success (TaskReconnect wid) p =
     (case lock p wid of None \<Rightarrow> p | Some si \<Rightarrow> ReconnectOnServiceDisconnection wid si p)"

datatype ('w, 'v, 'd) client_event =
    EvTask nat "sp option" bool
  | EvServiceConnected nat sp
  | EvClientCommand nat string16 string16 'w
  | EvClientNotify nat "(int \<times> string16 status) list"
  | EvBinderDied nat
  | EvApi nat "('v, 'd) api_call"
  | EvDestroySubscription

text \<open>An event of a binder object that was never created, or of a task that is not there, is no event.\<close>

fun client_step :: "('v, 'd) codec \<Rightarrow> (string \<Rightarrow> 'v \<Rightarrow> 'd \<Rightarrow> 'd) \<Rightarrow> 'w client_process \<Rightarrow>
    ('w, 'v, 'd) client_event \<Rightarrow> 'w client_process result" where
  "client_step cd dict_Set p (EvTask n GetService register_success) =
     Inr (if n < length (cp_tasks p)
          then run_task GetService register_success (cp_tasks p ! n)
                 (p\<lparr>cp_tasks := take n (cp_tasks p) @ drop (Suc n) (cp_tasks p)\<rparr>)
          else p)"
| "client_step cd dict_Set p (EvServiceConnected wid service) =
     Inr (if wid \<in> set (cp_weave_clients p) then WeaveClient_onServiceConnected wid service p else p)"
| "client_step cd dict_Set p (EvClientCommand wid component command w) =
     Inr (if wid \<in> set (cp_weave_clients p) then WeaveClient_onCommand cd wid component command w p else p)"
| "client_step cd dict_Set p (EvClientNotify wid ids) =
     (if wid \<in> set (cp_listeners p)
      then NotificationListener_notifyServiceManagerChange cd wid ids p else Inr p)"
| "client_step cd dict_Set p (EvBinderDied wid) =
     Inr (if wid \<in> snd ` set (cp_deaths p) \<and> lock p wid \<noteq> None
          then OnWeaveServiceDisconnected wid p else p)"
| "client_step cd dict_Set p (EvApi wid call) =
     (case lock p wid of
        None \<Rightarrow> Inr p
      | Some si \<Rightarrow>
          (if RunConnectionCallback wid \<in> set (cp_effects p)
           then api_step cd dict_Set wid si call p else Inr p))"
| "client_step cd dict_Set p EvDestroySubscription = Inr (destroy_Subscription p)"

section \<open>The invariant\<close>

text \<open>
  Ids are never reused; a live instance that is not connected to the manager has a task that will
  bring it on; one whose connection callback has run has its service.
\<close>

primrec task_instance :: "client_task \<Rightarrow> nat" where
  "task_instance (TaskTryConnecting wid) = wid"
| "task_instance (TaskReconnect wid) = wid"

definition ids_used :: "'w client_process \<Rightarrow> nat set" where
  "ids_used p = task_instance ` set (cp_tasks p) \<union> set (cp_weave_clients p) \<union>
     {wid. RunConnectionCallback wid \<in> set (cp_effects p)} \<union> fst ` set_option (cp_live p)"

definition will_connect :: "'w client_process \<Rightarrow> nat \<Rightarrow> bool" where
  "will_connect p wid \<longleftrightarrow>
     TaskTryConnecting wid \<in> set (cp_tasks p) \<or> TaskReconnect wid \<in> set (cp_tasks p)"

definition instance_ok :: "'w client_process \<Rightarrow> nat \<Rightarrow> ServiceImpl \<Rightarrow> bool" where
  "instance_ok p wid si \<longleftrightarrow>
     (si_manager si = None \<longrightarrow> wid \<notin> set (cp_weave_clients p) \<and> will_connect p wid) \<and>
     (RunConnectionCallback wid \<in> set (cp_effects p) \<longrightarrow> si_weave_service si \<noteq> None)"

definition client_inv :: "'w client_process \<Rightarrow> bool" where
  "client_inv p \<longleftrightarrow> (\<forall>wid \<in> ids_used p. wid < cp_made p) \<and>
     set (cp_listeners p) \<subseteq> set (cp_weave_clients p) \<and>
     (\<forall>wid si. cp_live p = Some (wid, si) \<longrightarrow> instance_ok p wid si)"

lemma lock_eq_Some [simp]: "lock p wid = Some si \<longleftrightarrow> cp_live p = Some (wid, si)"
  by (auto simp: lock_def split: option.split)

text \<open>Effects that are not connection callbacks leave the invariant alone.\<close>

definition no_connection :: "'w client_effect list \<Rightarrow> bool" where
  "no_connection es \<longleftrightarrow> (\<forall>wid. RunConnectionCallback wid \<notin> set es)"

lemma cp_emit_fields [simp]:
  "cp_live (cp_emit es p) = cp_live p" "cp_made (cp_emit es p) = cp_made p"
  "cp_tasks (cp_emit es p) = cp_tasks p" "cp_weave_clients (cp_emit es p) = cp_weave_clients p"
  "cp_listeners (cp_emit es p) = cp_listeners p" "cp_deaths (cp_emit es p) = cp_deaths p"
  "cp_effects (cp_emit es p) = cp_effects p @ es"
  by (simp_all add: cp_emit_def)

lemma post_task_fields [simp]:
  "cp_live (post_task t p) = cp_live p" "cp_made (post_task t p) = cp_made p"
  "cp_tasks (post_task t p) = cp_tasks p @ [t]" "cp_weave_clients (post_task t p) = cp_weave_clients p"
  "cp_listeners (post_task t p) = cp_listeners p" "cp_deaths (post_task t p) = cp_deaths p"
  "cp_effects (post_task t p) = cp_effects p"
  by (simp_all add: post_task_def)

lemma client_inv_emit:
  "client_inv p \<Longrightarrow> no_connection es \<Longrightarrow> client_inv (cp_emit es p)"
  by (auto simp: client_inv_def ids_used_def instance_ok_def will_connect_def no_connection_def)

lemma client_inv_post:
  "client_inv p \<Longrightarrow> task_instance t < cp_made p \<Longrightarrow> client_inv (post_task t p)"
  by (auto simp: client_inv_def ids_used_def instance_ok_def will_connect_def)

lemma client_inv_live:
  "client_inv p \<Longrightarrow> cp_live p = Some (wid, si) \<Longrightarrow> si_manager si' = si_manager si \<Longrightarrow>
   (si_weave_service si \<noteq> None \<longrightarrow> si_weave_service si' \<noteq> None) \<Longrightarrow>
   client_inv (p\<lparr>cp_live := Some (wid, si')\<rparr>)"
  by (auto simp: client_inv_def ids_used_def instance_ok_def will_connect_def)

lemma no_connection_simps [simp]:
  "no_connection []"
  "no_connection (destroy_ServiceImpl si)"
  "no_connection (ServiceImpl_OnCommand component command w si)"
  by (auto simp: no_connection_def destroy_ServiceImpl_def ServiceImpl_OnCommand_def split: option.splits)

lemma start_instance_inv:
  assumes "\<forall>wid \<in> ids_used p. wid < cp_made p" and "set (cp_listeners p) \<subseteq> set (cp_weave_clients p)"
  shows "client_inv (start_instance p)"
proof -
  have fresh: "RunConnectionCallback (cp_made p) \<notin> set (cp_effects p)" "cp_made p \<notin> set (cp_weave_clients p)"
    using assms(1) by (auto simp: ids_used_def)
  let ?p = "post_task (TaskTryConnecting (cp_made p)) (p\<lparr>cp_made := Suc (cp_made p)\<rparr>)
    \<lparr>cp_live := Some (cp_made p, new_ServiceImpl)\<rparr>"
  have "client_inv ?p"
    using assms fresh
    by (auto simp: client_inv_def ids_used_def instance_ok_def will_connect_def new_ServiceImpl_def
        less_Suc_eq)
  then show ?thesis
    by (auto simp: start_instance_def BeginConnect_def Let_def client_inv_emit split: option.split)
qed

lemma Service_Connect_inv: "client_inv Service_Connect"
  unfolding Service_Connect_def by (rule start_instance_inv) (simp_all add: ids_used_def)

lemma TryConnecting_inv:
  assumes "\<forall>wid \<in> ids_used p. wid < cp_made p" and "set (cp_listeners p) \<subseteq> set (cp_weave_clients p)"
    and "cp_live p = Some (wid, si)"
    and "si_manager si = None \<longrightarrow> wid \<notin> set (cp_weave_clients p)"
    and "RunConnectionCallback wid \<in> set (cp_effects p) \<longrightarrow> si_weave_service si \<noteq> None"
  shows "client_inv (TryConnecting GetService register_success wid si p)"
  using assms
  by (auto simp: TryConnecting_def OnWeaveServiceDisconnected_def client_inv_def ids_used_def
      instance_ok_def will_connect_def Let_def split: option.split)

lemma Reconnect_inv:
  assumes "\<forall>wid \<in> ids_used p. wid < cp_made p" and "set (cp_listeners p) \<subseteq> set (cp_weave_clients p)"
    and "cp_live p = Some (wid, si)"
  shows "client_inv (ReconnectOnServiceDisconnection wid si p)"
  unfolding ReconnectOnServiceDisconnection_def
  by (rule start_instance_inv) (use assms in \<open>auto simp: ids_used_def\<close>)

lemma run_task_inv:
  assumes "client_inv p" and "n < length (cp_tasks p)"
  shows "client_inv (run_task GetService register_success (cp_tasks p ! n)
    (p\<lparr>cp_tasks := take n (cp_tasks p) @ drop (Suc n) (cp_tasks p)\<rparr>))"
proof -
  let ?t = "cp_tasks p ! n"
  let ?p = "p\<lparr>cp_tasks := take n (cp_tasks p) @ drop (Suc n) (cp_tasks p)\<rparr>"
  have tasks: "set (cp_tasks p) = insert ?t (set (cp_tasks ?p))"
    using arg_cong [OF id_take_nth_drop [OF assms(2)], of set] by simp
  have used: "\<forall>wid \<in> ids_used ?p. wid < cp_made ?p"
    and lis: "set (cp_listeners ?p) \<subseteq> set (cp_weave_clients ?p)"
    using assms(1) tasks by (auto simp: client_inv_def ids_used_def)
  show ?thesis
  proof (cases "lock p (task_instance ?t)")
    case None
    have "client_inv ?p"
      unfolding client_inv_def
    proof (intro conjI used lis allI impI)
      fix wid si assume live: "cp_live ?p = Some (wid, si)"
      then have "task_instance ?t \<noteq> wid" using None by (auto simp: lock_def)
      then have "?t \<noteq> TaskTryConnecting wid" "?t \<noteq> TaskReconnect wid" by auto
      moreover have "instance_ok p wid si" using assms(1) live by (simp add: client_inv_def)
      ultimately show "instance_ok ?p wid si"
        using tasks by (auto simp: instance_ok_def will_connect_def)
    qed
    then show ?thesis using None by (cases ?t) (auto simp: lock_def)
  next
    case (Some si)
    then have live: "cp_live ?p = Some (task_instance ?t, si)" and ok: "instance_ok p (task_instance ?t) si"
      using assms(1) by (simp_all add: client_inv_def)
    show ?thesis
    proof (cases ?t)
      case (TaskTryConnecting wid)
      then show ?thesis
        using live TryConnecting_inv [OF used lis live] ok by (simp add: lock_def instance_ok_def)
    next
      case (TaskReconnect wid)
      then show ?thesis using live Reconnect_inv [OF used lis live] by (simp add: lock_def)
    qed
  qed
qed


lemma notification_loop_fields:
  "notification_loop cd ids si changed = Inr (si', changed') \<Longrightarrow>
   si_manager si' = si_manager si \<and> si_weave_service si' = si_weave_service si \<and>
   si_pairing_info_callback si' = si_pairing_info_callback si \<and>
   si_command_handlers si' = si_command_handlers si"
  by (induction cd ids si changed rule: notification_loop.induct) (auto split: if_splits option.splits sum.splits)

lemma notification_loop_returns:
  "si_manager si \<noteq> None \<Longrightarrow> \<exists>r. notification_loop cd ids si changed = Inr r"
  by (induction cd ids si changed rule: notification_loop.induct) (auto split: option.split sum.split)

lemma notify_inv:
  assumes "client_inv p"
    and "NotificationListener_notifyServiceManagerChange cd wid ids p = Inr p'"
  shows "client_inv p'"
proof (cases "lock p wid")
  case None
  then show ?thesis using assms by (simp add: NotificationListener_notifyServiceManagerChange_def)
next
  case (Some si)
  then obtain si' es where notify: "ServiceImpl_OnNotification cd ids si = Inr (si', es)"
    and p': "p' = cp_emit es (p\<lparr>cp_live := Some (wid, si')\<rparr>)"
    using assms(2) by (auto simp: NotificationListener_notifyServiceManagerChange_def lock_def)
  then obtain changed where loop: "notification_loop cd ids si False = Inr (si', changed)"
    by (auto simp: ServiceImpl_OnNotification_def)
  have es: "no_connection es"
    using notify by (auto simp: ServiceImpl_OnNotification_def no_connection_def split: if_splits option.splits)
  have "client_inv (p\<lparr>cp_live := Some (wid, si')\<rparr>)"
    by (rule client_inv_live [OF assms(1)]) (use Some notification_loop_fields [OF loop] in auto)
  then show ?thesis unfolding p' using es by (rule client_inv_emit)
qed

lemma connected_inv:
  assumes "client_inv p" and "wid \<in> set (cp_weave_clients p)"
  shows "client_inv (WeaveClient_onServiceConnected wid service p)"
proof (cases "lock p wid")
  case (Some si)
  then have live: "cp_live p = Some (wid, si)" by simp
  then have "WeaveClient_onServiceConnected wid service p =
      cp_emit [RunConnectionCallback wid] (p\<lparr>cp_live := Some (wid, si\<lparr>si_weave_service := Some service\<rparr>)\<rparr>)"
    by (simp add: WeaveClient_onServiceConnected_def ServiceImpl_OnServiceConnected_def lock_def)
  then show ?thesis
    using assms live by (auto simp: client_inv_def ids_used_def instance_ok_def will_connect_def)
qed (use assms in \<open>simp add: WeaveClient_onServiceConnected_def\<close>)

lemma on_command_inv: "client_inv p \<Longrightarrow> client_inv (WeaveClient_onCommand cd wid component command w p)"
  by (auto simp: WeaveClient_onCommand_def no_connection_def intro!: client_inv_emit split: option.split)
    (simp_all add: ServiceImpl_OnCommand_def split: option.splits)

lemma api_inv:
  assumes "client_inv p" and "cp_live p = Some (wid, si)"
    and "api_step cd dict_Set wid si call p = Inr p'"
  shows "client_inv p'"
proof (cases call)
  case (ApiAddCommandHandler component trait_name command_name callback st)
  then obtain si' where p': "p' = p\<lparr>cp_live := Some (wid, si')\<rparr>"
    and "si_manager si' = si_manager si" "si_weave_service si' = si_weave_service si"
    using assms(3) by (auto simp: ServiceImpl_AddCommandHandler_def Let_def split: prod.splits)
  then show ?thesis using client_inv_live [OF assms(1,2)] by simp
next
  case (ApiSetPairingInfoListener callback)
  have "client_inv (p\<lparr>cp_live := Some (wid, si\<lparr>si_pairing_info_callback := callback\<rparr>)\<rparr>)"
    using client_inv_live [OF assms(1,2)] by simp
  then show ?thesis
    using assms(3) ApiSetPairingInfoListener
    by (auto simp: ServiceImpl_SetPairingInfoListener_def Let_def no_connection_def
        intro!: client_inv_emit split: option.splits if_splits)
qed (use assms in auto)

lemma destroy_inv: "client_inv p \<Longrightarrow> client_inv (destroy_Subscription p)"
  by (auto simp: destroy_Subscription_def client_inv_def ids_used_def destroy_ServiceImpl_def
      split: option.splits)

lemma died_inv: "client_inv p \<Longrightarrow> lock p wid \<noteq> None \<Longrightarrow> client_inv (OnWeaveServiceDisconnected wid p)"
  unfolding OnWeaveServiceDisconnected_def
  by (rule client_inv_post) (auto simp: client_inv_def ids_used_def)

lemma client_step_inv: "client_inv p \<Longrightarrow> client_step cd dict_Set p e = Inr p' \<Longrightarrow> client_inv p'"
  by (cases e)
    (auto simp: run_task_inv connected_inv on_command_inv destroy_inv died_inv
      intro: notify_inv api_inv split: if_splits option.splits)

interpretation client: guarded_component
    "\<lambda>p. p = Service_Connect" "client_step cd dict_Set" client_inv
  for cd :: "('v, 'd) codec" and dict_Set
  by unfold_locales (auto simp: Service_Connect_inv intro: client_step_inv)

section \<open>Calls that keep the documented conditions\<close>

fun polite_call :: "('v, 'd) api_call \<Rightarrow> bool" where
  "polite_call (ApiAddCommandHandler component trait_name command_name callback st) =
     (component \<noteq> '''' \<and> command_name \<noteq> '''' \<and> isOk st)"
| "polite_call (ApiSetStateProperties component dict st) = (component \<noteq> '''')"
| "polite_call (ApiSetStateProperty component trait_name name v st) = (component \<noteq> '''')"
| "polite_call _ = True"

fun polite :: "('w, 'v, 'd) client_event \<Rightarrow> bool" where
  "polite (EvApi wid call) = polite_call call"
| "polite _ = True"

lemma api_returns:
  "si_weave_service si \<noteq> None \<Longrightarrow> polite_call call \<Longrightarrow> \<exists>p'. api_step cd dict_Set wid si call p = Inr p'"
  by (cases call)
    (auto simp: ServiceImpl_AddComponent_def ServiceImpl_AddCommandHandler_def
      ServiceImpl_SetStateProperties_def ServiceImpl_SetStateProperty_def
      ServiceImpl_SetPairingInfoListener_def answering_def Let_def split: option.split)

lemma client_step_returns:
  assumes "client_inv p" and "polite e"
  shows "\<exists>p'. client_step cd dict_Set p e = Inr p'"
proof (cases e)
  case (EvClientNotify wid ids)
  show ?thesis
  proof (cases "wid \<in> set (cp_listeners p) \<and> lock p wid \<noteq> None")
    case True
    then obtain si where si: "cp_live p = Some (wid, si)" by auto
    have "wid \<in> set (cp_weave_clients p)" using True assms(1) by (auto simp: client_inv_def)
    then have "si_manager si \<noteq> None" using si assms(1) by (auto simp: client_inv_def instance_ok_def)
    then obtain r where "notification_loop cd ids si False = Inr r" using notification_loop_returns by blast
    then show ?thesis
      using EvClientNotify si
      by (cases r) (simp add: NotificationListener_notifyServiceManagerChange_def lock_def
          ServiceImpl_OnNotification_def)
  qed (use EvClientNotify in \<open>auto simp: NotificationListener_notifyServiceManagerChange_def
      split: option.split\<close>)
next
  case (EvApi wid call)
  show ?thesis
  proof (cases "lock p wid \<noteq> None \<and> RunConnectionCallback wid \<in> set (cp_effects p)")
    case True
    then obtain si where si: "cp_live p = Some (wid, si)" by auto
    then have "si_weave_service si \<noteq> None"
      using True assms(1) by (auto simp: client_inv_def instance_ok_def)
    from api_returns [OF this, of call] show ?thesis using EvApi True si assms(2) by (auto simp: lock_def)
  qed (use EvApi in \<open>auto split: option.split\<close>)
qed auto

definition polite_step :: "('v, 'd) codec \<Rightarrow> (string \<Rightarrow> 'v \<Rightarrow> 'd \<Rightarrow> 'd) \<Rightarrow> 'w client_process \<Rightarrow>
    ('w, 'v, 'd) client_event \<Rightarrow> 'w client_process result" where
  "polite_step cd dict_Set p e = (if polite e then client_step cd dict_Set p e else Inr p)"

interpretation polite_client: safe_component
    "\<lambda>p. p = Service_Connect" "polite_step cd dict_Set" client_inv
  for cd :: "('v, 'd) codec" and dict_Set
  by unfold_locales
    (auto simp: Service_Connect_inv polite_step_def client_step_returns intro: client_step_inv split: if_splits)

lemma run_polite:
  "\<forall>e \<in> set es. polite e \<Longrightarrow> run (polite_step cd dict_Set) p es = run (client_step cd dict_Set) p es"
proof (induction es arbitrary: p)
  case (Cons e es)
  then show ?case by (cases "client_step cd dict_Set p e") (simp_all add: polite_step_def)
qed simp

section \<open>Instances do not come back\<close>

definition stays_dead :: "'w client_process \<Rightarrow> 'w client_process \<Rightarrow> bool" where
  "stays_dead p p' \<longleftrightarrow> cp_made p \<le> cp_made p' \<and> set (cp_weave_clients p) \<subseteq> set (cp_weave_clients p') \<and>
     (\<forall>wid. wid < cp_made p \<longrightarrow> lock p wid = None \<longrightarrow> lock p' wid = None)"

lemma stays_dead_trans: "stays_dead p q \<Longrightarrow> stays_dead q r \<Longrightarrow> stays_dead p r"
  unfolding stays_dead_def by (meson order_trans order_less_le_trans)

lemma stays_deadI:
  "cp_made p \<le> cp_made p' \<Longrightarrow> set (cp_weave_clients p) \<subseteq> set (cp_weave_clients p') \<Longrightarrow>
   (\<forall>wid si. cp_live p' = Some (wid, si) \<longrightarrow>
      (\<exists>si'. cp_live p = Some (wid, si')) \<or> cp_made p \<le> wid) \<Longrightarrow>
   stays_dead p p'"
  by (fastforce simp: stays_dead_def lock_def split: option.splits if_splits)

lemma stays_dead_refl [simp]: "stays_dead p p"
  by (simp add: stays_dead_def)

lemma start_instance_fields [simp]:
  "cp_live (start_instance p) = Some (cp_made p, new_ServiceImpl)"
  "cp_made (start_instance p) = Suc (cp_made p)"
  "cp_tasks (start_instance p) = cp_tasks p @ [TaskTryConnecting (cp_made p)]"
  "cp_weave_clients (start_instance p) = cp_weave_clients p"
  by (simp_all add: start_instance_def BeginConnect_def Let_def split: option.split)

lemma api_dead:
  "cp_live p = Some (wid, si) \<Longrightarrow> api_step cd dict_Set wid si call p = Inr p' \<Longrightarrow> stays_dead p p'"
  by (cases call)
    (auto simp: ServiceImpl_SetPairingInfoListener_def Let_def intro!: stays_deadI split: prod.splits option.splits)

lemma run_task_dead: "stays_dead p (run_task GetService register_success t (p\<lparr>cp_tasks := ts\<rparr>))"
  by (cases t)
    (auto simp: TryConnecting_def OnWeaveServiceDisconnected_def ReconnectOnServiceDisconnection_def Let_def
      lock_def intro!: stays_deadI split: option.split)

lemma client_step_dead: "client_step cd dict_Set p e = Inr p' \<Longrightarrow> stays_dead p p'"
proof (cases e)
  case (EvTask n GetService register_success)
  moreover assume "client_step cd dict_Set p e = Inr p'"
  ultimately show ?thesis by (auto simp: run_task_dead split: if_splits)
next
  case (EvApi wid call)
  moreover assume "client_step cd dict_Set p e = Inr p'"
  ultimately show ?thesis
    by (auto intro: api_dead stays_deadI split: option.splits if_splits)
next
  case (EvClientNotify wid ids)
  moreover assume "client_step cd dict_Set p e = Inr p'"
  ultimately show ?thesis
    by (auto simp: NotificationListener_notifyServiceManagerChange_def intro!: stays_deadI
        split: option.splits if_splits)
qed (auto simp: WeaveClient_onServiceConnected_def ServiceImpl_OnServiceConnected_def
    WeaveClient_onCommand_def OnWeaveServiceDisconnected_def destroy_Subscription_def
    intro!: stays_deadI split: option.splits if_splits)

lemma client_run_dead: "run (client_step cd dict_Set) p es = Inr p' \<Longrightarrow> stays_dead p p'"
proof (induction es arbitrary: p)
  case Nil
  then show ?case by (auto intro: stays_deadI)
next
  case (Cons e es)
  then obtain p1 where "client_step cd dict_Set p e = Inr p1" and "run (client_step cd dict_Set) p1 es = Inr p'"
    by auto
  then show ?case using Cons.IH client_step_dead stays_dead_trans by blast
qed

end
