(* ===== verification/Binder_Weave_Service.thy ===== *)
theory Binder_Weave_Service
  imports Binder_Command_Proxy
begin

text \<open>
  \<^verbatim>\<open>buffet/binder_weave_service.{h,cc}\<close>: the daemon's \<open>IWeaveService\<close> for one client.
  It hands the client's components, command handlers and state updates to libweave's device, and
  passes the commands libweave has for the client on to it.

  The device is code of libweave: its state is a type parameter and its methods are the fields of
  \<open>weave_device_api\<close>.  A handler given to libweave is the bound function with its arguments;
  an \<open>sp\<close> stands for the object it points to.
\<close>

section \<open>The device of libweave\<close>

datatype command_handler =
    ServiceOnCommand sp string string \<comment> \<open>\<open>BinderWeaveService::OnCommand\<close>, bound to a service\<close>
  | ManagerOnReboot \<comment> \<open>\<open>Manager::OnRebootDevice\<close>\<close>

record 'dev weave_device_api =
  dev_AddComponent :: "string \<Rightarrow> string list \<Rightarrow> 'dev \<Rightarrow> 'dev command_reply"
  dev_AddCommandHandler :: "string \<Rightarrow> string \<Rightarrow> command_handler \<Rightarrow> 'dev \<Rightarrow> 'dev"
  dev_SetStatePropertiesFromJson :: "string \<Rightarrow> string \<Rightarrow> 'dev \<Rightarrow> 'dev command_reply"

definition device_api_ok :: "'dev weave_device_api \<Rightarrow> bool" where
  "device_api_ok api \<longleftrightarrow>
     (\<forall>n ts d. reply_ok (dev_AddComponent api n ts d)) \<and>
     (\<forall>c j d. reply_ok (dev_SetStatePropertiesFromJson api c j d))"

section \<open>The service\<close>

text \<open>
  The address of the object itself, its client and the components it added.  The destructor does
  nothing.
\<close>

record BinderWeaveService =
  bws_this :: sp
  bws_client :: sp
  bws_components :: "string list"

definition new_BinderWeaveService :: "sp \<Rightarrow> sp \<Rightarrow> BinderWeaveService" where
  "new_BinderWeaveService this client =
     \<lparr>bws_this = this, bws_client = client, bws_components = []\<rparr>"

definition destroy_BinderWeaveService :: "BinderWeaveService \<Rightarrow> 'dev \<Rightarrow> 'dev" where
  "destroy_BinderWeaveService sv device = device"

type_synonym 'dev service_state = "'dev \<times> BinderWeaveService"

definition BinderWeaveService_addComponent ::
    "binder_codes \<Rightarrow> 'dev weave_device_api \<Rightarrow> ('v, 'd) codec \<Rightarrow> string16 \<Rightarrow> string16 list \<Rightarrow>
     'dev service_state \<Rightarrow> ('dev service_state \<times> unit status) result" where
  "BinderWeaveService_addComponent bc api cd name traits st =
     (case st of (device, sv) \<Rightarrow>
        (let component_name = ToString cd name;
             supported_traits = map (ToString cd) traits
         in case dev_AddComponent api component_name supported_traits device of
              (device, success, error) \<Rightarrow>
                (if \<not> success
                 then bind_result (ToStatus bc False error) (\<lambda>status. Inr ((device, sv), status))
                 else Inr ((device, sv\<lparr>bws_components := bws_components sv @ [component_name]\<rparr>), Inr ()))))"

definition BinderWeaveService_registerCommandHandler ::
    "'dev weave_device_api \<Rightarrow> ('v, 'd) codec \<Rightarrow> string16 \<Rightarrow> string16 \<Rightarrow>
     'dev service_state \<Rightarrow> ('dev service_state \<times> unit status) result" where
  "BinderWeaveService_registerCommandHandler api cd component command st =
     (case st of (device, sv) \<Rightarrow>
        (let component_name = ToString cd component;
             command_name = ToString cd command
         in Inr ((dev_AddCommandHandler api component_name command_name
                    (ServiceOnCommand (bws_this sv) component_name command_name) device, sv), Inr ())))"

definition BinderWeaveService_updateState ::
    "binder_codes \<Rightarrow> 'dev weave_device_api \<Rightarrow> ('v, 'd) codec \<Rightarrow> string16 \<Rightarrow> string16 \<Rightarrow>
     'dev service_state \<Rightarrow> ('dev service_state \<times> unit status) result" where
  "BinderWeaveService_updateState bc api cd component state st =
     (case st of (device, sv) \<Rightarrow>
        (case dev_SetStatePropertiesFromJson api (ToString cd component) (ToString cd state) device of
           (device, success, error) \<Rightarrow>
             bind_result (ToStatus bc success error) (\<lambda>status. Inr ((device, sv), status))))"

text \<open>
  \<open>OnCommand\<close> calls the client; the call is the value, with the weak pointer to the command
  that the new \<open>BinderCommandProxy\<close> holds.
\<close>

datatype 'w client_call = ClientOnCommand sp string16 string16 'w

definition BinderWeaveService_OnCommand ::
    "('v, 'd) codec \<Rightarrow> BinderWeaveService \<Rightarrow> string \<Rightarrow> string \<Rightarrow> 'w \<Rightarrow> 'w client_call" where
  "BinderWeaveService_OnCommand cd sv component_name command_name command =
     ClientOnCommand (bws_client sv) (ToString16 cd component_name) (ToString16 cd command_name) command"

section \<open>The service as a remote object\<close>

definition daemon_service ::
    "binder_codes \<Rightarrow> 'dev weave_device_api \<Rightarrow> ('v, 'd) codec \<Rightarrow> binder_exception \<Rightarrow>
     'dev service_state IWeaveService" where
  "daemon_service bc api cd tf =
     \<lparr>addComponent = (\<lambda>n ts s. deliver tf s (BinderWeaveService_addComponent bc api cd n ts s)),
      registerCommandHandler =
        (\<lambda>c n s. deliver tf s (BinderWeaveService_registerCommandHandler api cd c n s)),
      updateState = (\<lambda>c j s. deliver tf s (BinderWeaveService_updateState bc api cd c j s))\<rparr>"

interpretation daemon_service: weave_service_remote "daemon_service bc api cd tf"
  for bc api cd tf
  by unfold_locales
    (simp add: daemon_service_def BinderWeaveService_registerCommandHandler_def Let_def split: prod.split)

lemma daemon_service_register:
  "text_ok cd component \<Longrightarrow> text_ok cd command \<Longrightarrow>
   registerCommandHandler (daemon_service bc api cd tf) (ToString16 cd component) (ToString16 cd command)
     (device, sv) =
   ((dev_AddCommandHandler api component command
       (ServiceOnCommand (bws_this sv) component command) device, sv), Inr ())"
  by (simp add: daemon_service_def BinderWeaveService_registerCommandHandler_def conversions)

lemma map_ToString_traits [conversions]:
  "\<forall>t \<in> set traits. text_ok cd t \<Longrightarrow> map (ToString cd) (map (ToString16 cd) traits) = traits"
  by (induction traits) (auto simp: conversions)

lemma daemon_service_addComponent:
  assumes "device_api_ok api" and "text_ok cd component" and "\<forall>t \<in> set traits. text_ok cd t"
    and "dev_AddComponent api component traits device = (device', success, error)"
  shows "IWeaveService.addComponent (daemon_service bc api cd tf) (ToString16 cd component) (map (ToString16 cd) traits)
      (device, sv) =
    ((device', if success then sv\<lparr>bws_components := bws_components sv @ [component]\<rparr> else sv),
     if success then Inr () else fromServiceSpecificError bc 1 (c_str (the error)))"
proof -
  have "reply_ok (dev_AddComponent api component traits device)"
    using assms(1) by (simp add: device_api_ok_def)
  then have "success \<or> error \<noteq> None" using assms(4) by (simp add: reply_ok_def)
  then show ?thesis
    using assms(4)
    by (auto simp: daemon_service_def BinderWeaveService_addComponent_def
        ToString_ToString16 [OF assms(2)] map_ToString_traits [OF assms(3)] simp del: map_map)
qed

lemma daemon_service_updateState:
  assumes "device_api_ok api" and "text_ok cd component" and "text_ok cd json"
    and "dev_SetStatePropertiesFromJson api component json device = (device', success, error)"
  shows "updateState (daemon_service bc api cd tf) (ToString16 cd component) (ToString16 cd json) (device, sv) =
    ((device', sv), if success then Inr () else fromServiceSpecificError bc 1 (c_str (the error)))"
proof -
  have "reply_ok (dev_SetStatePropertiesFromJson api component json device)"
    using assms(1) by (simp add: device_api_ok_def)
  then have "success \<or> error \<noteq> None" using assms(4) by (simp add: reply_ok_def)
  then show ?thesis
    using assms(4)
    by (auto simp: daemon_service_def BinderWeaveService_updateState_def
        ToString_ToString16 [OF assms(2)] ToString_ToString16 [OF assms(3)])
qed

end
