(* ===== verification/Weaved_Connection.thy ===== *)
theory Weaved_Connection
  imports Weaved_Service Binder_Weave_Service
begin

text \<open>
  Properties of the client library's connection: it always comes back, a dead instance stays dead,
  calls through a locked pointer never abort the client, and the calls of a connected client over
  binder are calls of the daemon's device.
\<close>

section \<open>A sample connection\<close>

abbreviation "sample_step \<equiv> client_step sample_codec (\<lambda>_ v _. v)"

definition connected_run :: "(nat, string, string) client_event list" where
  "connected_run = [EvTask 0 None True, EvTask 0 (Some (Sp 1)) True, EvServiceConnected 0 (Sp 2),
     EvApi 0 (ApiAddCommandHandler ''lamp'' ''onOff'' ''setConfig'' 7 (Inr ()))]"

definition connected_service :: ServiceImpl where
  "connected_service = \<lparr>si_manager = Some (Sp 1), si_weave_service = Some (Sp 2),
     si_pairing_info_callback = None,
     si_pairing_info = \<lparr>session_id = [], pairing_mode = [], pairing_code = []\<rparr>,
     si_command_handlers =
       [\<lparr>che_component = ''lamp'', che_command_name = ''onOff.setConfig'', che_callback = 7\<rparr>]\<rparr>"

lemma connected_run_ends:
  "\<exists>p. run sample_step Service_Connect connected_run = Inr p \<and>
    cp_live p = Some (0, connected_service) \<and> cp_made p = 1 \<and> cp_tasks p = [] \<and>
    cp_weave_clients p = [0] \<and> cp_deaths p = [(Sp 1, 0)]"
proof -
  have "bind_result (run sample_step Service_Connect connected_run)
      (\<lambda>p. Inr (cp_live p, cp_made p, cp_tasks p, cp_weave_clients p, cp_deaths p)) =
    Inr (Some (0, connected_service), 1, [], [0], [(Sp 1, 0)])"
    by code_simp
  then show ?thesis by auto
qed

definition sample_device :: "string weave_device_api" where
  "sample_device = \<lparr>dev_AddComponent = (\<lambda>n ts d. (d @ n, n \<noteq> ''lamp'', if n = ''lamp'' then Some ''exists'' else None)),
     dev_AddCommandHandler = (\<lambda>c n h d. d @ c @ n), dev_SetStatePropertiesFromJson = (\<lambda>c j d. (j, True, None))\<rparr>"

lemma sample_device_ok: "device_api_ok sample_device"
  by (simp add: device_api_ok_def reply_ok_def sample_device_def)

lemma sample_device_add: "dev_AddCommandHandler sample_device c n h d = d @ c @ n"
  by (simp add: sample_device_def)

section \<open>Coming back\<close>

lemma try_connects:
  assumes "cp_live p = Some (wid, si)" and "n < length (cp_tasks p)" and "cp_tasks p ! n = TaskTryConnecting wid"
  shows "\<exists>p'. client_step cd dict_Set p (EvTask n (Some ibinder) True) = Inr p' \<and>
    cp_live p' = Some (wid, si\<lparr>si_manager := Some ibinder\<rparr>) \<and> ManagerConnect ibinder wid \<in> set (cp_effects p')"
  using assms by (simp add: lock_def TryConnecting_def Let_def)

lemma reconnect_starts:
  assumes "cp_live p = Some (wid, si)" and "n < length (cp_tasks p)" and "cp_tasks p ! n = TaskReconnect wid"
  shows "\<exists>p' ts. client_step cd dict_Set p (EvTask n g r) = Inr p' \<and>
    cp_live p' = Some (cp_made p, new_ServiceImpl) \<and> cp_made p' = Suc (cp_made p) \<and>
    cp_tasks p' = ts @ [TaskTryConnecting (cp_made p)]"
  using assms by (simp add: lock_def ReconnectOnServiceDisconnection_def)

text \<open>
  Property C16.  The client is never stuck without a connection: whenever the live instance has no
  service manager, at most two of the tasks in the message loop connect to the daemon if it is
  there by then.
\<close>

theorem connection_never_stalls:
  assumes "run (client_step cd dict_Set) Service_Connect es = Inr p"
    and "cp_live p = Some (wid, si)" and "si_manager si = None"
  shows "\<exists>ns p' wid' si'. length ns \<le> 2 \<and>
    run (client_step cd dict_Set) p (map (\<lambda>n. EvTask n (Some ibinder) True) ns) = Inr p' \<and>
    cp_live p' = Some (wid', si') \<and> si_manager si' = Some ibinder \<and>
    ManagerConnect ibinder wid' \<in> set (cp_effects p')"
proof -
  have "client_inv p" using client.inv_run assms(1) by blast
  then have "will_connect p wid" using assms(2,3) by (auto simp: client_inv_def instance_ok_def)
  then consider n where "n < length (cp_tasks p)" "cp_tasks p ! n = TaskTryConnecting wid"
    | n where "n < length (cp_tasks p)" "cp_tasks p ! n = TaskReconnect wid"
    by (auto simp: will_connect_def in_set_conv_nth)
  then show ?thesis
  proof cases
    case 1
    from try_connects [OF assms(2) 1, of cd dict_Set ibinder] obtain p' where
      step: "client_step cd dict_Set p (EvTask n (Some ibinder) True) = Inr p'"
      and p': "cp_live p' = Some (wid, si\<lparr>si_manager := Some ibinder\<rparr>)"
        "ManagerConnect ibinder wid \<in> set (cp_effects p')"
      by blast
    show ?thesis
      by (rule exI [of _ "[n]"], rule exI [of _ p'], rule exI [of _ wid], rule exI) (use step p' in auto)
  next
    case 2
    from reconnect_starts [OF assms(2) 2, of cd dict_Set "Some ibinder" True] obtain p1 ts where
      step: "client_step cd dict_Set p (EvTask n (Some ibinder) True) = Inr p1"
      and live: "cp_live p1 = Some (cp_made p, new_ServiceImpl)"
      and tasks: "cp_tasks p1 = ts @ [TaskTryConnecting (cp_made p)]"
      by blast
    from try_connects [OF live, of "length ts" cd dict_Set ibinder] tasks obtain p' where
      step': "client_step cd dict_Set p1 (EvTask (length ts) (Some ibinder) True) = Inr p'"
      and p': "cp_live p' = Some (cp_made p, new_ServiceImpl\<lparr>si_manager := Some ibinder\<rparr>)"
        "ManagerConnect ibinder (cp_made p) \<in> set (cp_effects p')"
      by auto
    show ?thesis
      by (rule exI [of _ "[n, length ts]"], rule exI [of _ p'], rule exI [of _ "cp_made p"], rule exI)
        (use step step' p' in auto)
  qed
qed

theorem connection_never_stalls_witness:
  "\<exists>(p :: nat client_process) ns p' wid' si'.
     run sample_step Service_Connect [EvTask 0 (Some (Sp 1)) False] = Inr p \<and>
     run sample_step p (map (\<lambda>n. EvTask n (Some (Sp 1)) True) ns) = Inr p' \<and>
     cp_live p' = Some (wid', si') \<and> si_manager si' = Some (Sp 1)"
proof -
  let ?es = "[EvTask 0 (Some (Sp 1)) False] :: (nat, string, string) client_event list"
  have "bind_result (run sample_step Service_Connect ?es) (\<lambda>p. Inr (cp_live p)) =
      Inr (Some (0, new_ServiceImpl))"
    by code_simp
  then obtain p where run: "run sample_step Service_Connect ?es = Inr p"
    and live: "cp_live p = Some (0, new_ServiceImpl)"
    by auto
  have "si_manager new_ServiceImpl = None" by (simp add: new_ServiceImpl_def)
  from connection_never_stalls [OF run live this, of "Sp 1"] run show ?thesis by blast
qed

text \<open>
  When the daemon dies, the task this posts replaces the instance by a new one that
  will connect; the old instance can never be locked again.
\<close>

theorem daemon_death_replaces_the_instance:
  assumes "run (client_step cd dict_Set) Service_Connect es = Inr p"
    and "cp_live p = Some (wid, si)" and "wid \<in> snd ` set (cp_deaths p)"
  shows "\<exists>p'. run (client_step cd dict_Set) p [EvBinderDied wid, EvTask (length (cp_tasks p)) g r] = Inr p' \<and>
    cp_live p' = Some (cp_made p, new_ServiceImpl) \<and>
    TaskTryConnecting (cp_made p) \<in> set (cp_tasks p') \<and>
    (\<forall>es' p''. run (client_step cd dict_Set) p' es' = Inr p'' \<longrightarrow> lock p'' wid = None)"
proof -
  have inv: "client_inv p" using client.inv_run assms(1) by blast
  then have lt: "wid < cp_made p" using assms(2) by (auto simp: client_inv_def ids_used_def)
  let ?p1 = "OnWeaveServiceDisconnected wid p"
  have p1: "client_step cd dict_Set p (EvBinderDied wid) = Inr ?p1"
    using assms(2,3) by (simp add: lock_def)
  have live: "cp_live ?p1 = Some (wid, si)" and made: "cp_made ?p1 = cp_made p"
    and tasks: "cp_tasks ?p1 = cp_tasks p @ [TaskReconnect wid]"
    using assms(2) by (simp_all add: OnWeaveServiceDisconnected_def)
  from reconnect_starts [OF live, of "length (cp_tasks p)" cd dict_Set g r] tasks made obtain p' ts where
    step: "client_step cd dict_Set ?p1 (EvTask (length (cp_tasks p)) g r) = Inr p'"
    and p': "cp_live p' = Some (cp_made p, new_ServiceImpl)" "cp_made p' = Suc (cp_made p)"
      "cp_tasks p' = ts @ [TaskTryConnecting (cp_made p)]"
    by auto
  have "lock p' wid = None" using p'(1) lt by (simp add: lock_def)
  then have "lock p'' wid = None" if "run (client_step cd dict_Set) p' es' = Inr p''" for es' p''
    using client_run_dead [OF that] lt p'(2) by (simp add: stays_dead_def)
  then show ?thesis using p1 step p' by auto
qed

theorem daemon_death_replaces_the_instance_witness:
  "\<exists>p p'. run sample_step Service_Connect connected_run = Inr p \<and>
     run sample_step p [EvBinderDied 0, EvTask 0 None True] = Inr p' \<and>
     cp_live p' = Some (1, new_ServiceImpl) \<and>
     (\<forall>es' p''. run sample_step p' es' = Inr p'' \<longrightarrow> lock p'' 0 = None)"
proof -
  obtain p where run: "run sample_step Service_Connect connected_run = Inr p"
    and p: "cp_live p = Some (0, connected_service)" "cp_made p = 1" "cp_tasks p = []"
      "cp_deaths p = [(Sp 1, 0)]"
    using connected_run_ends by blast
  have "0 \<in> snd ` set (cp_deaths p)" by (simp add: p)
  from daemon_death_replaces_the_instance [OF run p(1) this, of None True] run show ?thesis
    unfolding p(2,3) list.size by blast
qed

text \<open>
  Property C17.  A command for an instance that is gone is aborted with
  \<open>service_unavailable\<close>, whatever has happened since, and no handler runs.
\<close>

theorem commands_for_dead_instances_are_aborted:
  assumes "run (client_step cd dict_Set) Service_Connect es = Inr p"
    and "wid \<in> set (cp_weave_clients p)" and "lock p wid = None"
    and "run (client_step cd dict_Set) p es' = Inr p'"
  shows "client_step cd dict_Set p' (EvClientCommand wid component command w) =
    Inr (cp_emit [AbortCommand w (utf16 cd ''service_unavailable'')
      (utf16 cd ''Command handler is unavailable'')] p')"
proof -
  have "client_inv p" using client.inv_run assms(1) by blast
  then have "wid < cp_made p" using assms(2) by (auto simp: client_inv_def ids_used_def)
  then have "lock p' wid = None" and "wid \<in> set (cp_weave_clients p')"
    using client_run_dead [OF assms(4)] assms(2,3) by (auto simp: stays_dead_def)
  then show ?thesis by (simp add: WeaveClient_onCommand_def)
qed

theorem commands_for_dead_instances_are_aborted_witness:
  "\<exists>p. run sample_step Service_Connect (connected_run @ [EvDestroySubscription]) = Inr p \<and>
     sample_step p (EvClientCommand 0 [108] [111] (4 :: nat)) = Inr (cp_emit [AbortCommand (4 :: nat)
       (utf16 sample_codec ''service_unavailable'')
       (utf16 sample_codec ''Command handler is unavailable'')] p)"
proof -
  have "bind_result (run sample_step Service_Connect (connected_run @ [EvDestroySubscription]))
      (\<lambda>p. Inr (cp_live p, cp_weave_clients p)) = Inr (None, [0])"
    by code_simp
  then obtain p where run: "run sample_step Service_Connect (connected_run @ [EvDestroySubscription]) = Inr p"
    and p: "cp_live p = None" "cp_weave_clients p = [0]"
    by auto
  have "0 \<in> set (cp_weave_clients p)" "lock p 0 = None" by (simp_all add: p lock_def)
  from commands_for_dead_instances_are_aborted [OF run this, of "[]" p "[108]" "[111]" "4 :: nat"] run show ?thesis by simp
qed

text \<open>
  Property C18.  If the client code passes non-empty names and the daemon accepts its command
  handlers, nothing aborts the client process; in particular every service it can lock, having
  been given it by its connection callback, is connected.
\<close>

theorem client_process_never_aborts:
  assumes "\<forall>e \<in> set es. polite e"
  shows "\<exists>p. run (client_step cd dict_Set) Service_Connect es = Inr p \<and>
    (\<forall>wid si. lock p wid = Some si \<and> RunConnectionCallback wid \<in> set (cp_effects p) \<longrightarrow>
      si_weave_service si \<noteq> None)"
proof -
  obtain p where "run (polite_step cd dict_Set) Service_Connect es = Inr p" "client_inv p"
    using polite_client.run_returns by blast
  then show ?thesis
    using run_polite [OF assms] by (auto simp: client_inv_def instance_ok_def)
qed

theorem client_process_never_aborts_witness:
  "\<exists>p. run sample_step Service_Connect connected_run = Inr p"
proof -
  have "\<forall>e \<in> set connected_run. polite e" by (simp add: connected_run_def)
  from client_process_never_aborts [OF this, of sample_codec "\<lambda>_ v _. v"] show ?thesis by blast
qed

text \<open>
  The destructor unregisters the wrong binder: the death registration made for the
  service manager survives the subscription.
\<close>

theorem death_registration_outlives_the_subscription:
  assumes "cp_live p = Some (wid, si)" and "(ibinder, wid) \<in> set (cp_deaths p)"
    and "si_weave_service si = Some service" and "service \<noteq> ibinder"
  shows "\<exists>p'. client_step cd dict_Set p EvDestroySubscription = Inr p' \<and> cp_live p' = None \<and>
    (ibinder, wid) \<in> set (cp_deaths p') \<and>
    cp_effects p' = cp_effects p @ [UnregisterForDeath service]"
  using assms by (simp add: destroy_Subscription_def destroy_ServiceImpl_def)


theorem death_registration_outlives_the_subscription_witness:
  "\<exists>p p'. run sample_step Service_Connect connected_run = Inr p \<and>
     sample_step p EvDestroySubscription = Inr p' \<and> (Sp 1, 0) \<in> set (cp_deaths p')"
proof -
  obtain p where run: "run sample_step Service_Connect connected_run = Inr p"
    and live: "cp_live p = Some (0, connected_service)" and "cp_deaths p = [(Sp 1, 0)]"
    using connected_run_ends by blast
  then have "(Sp 1, 0) \<in> set (cp_deaths p)" by simp
  moreover have "si_weave_service connected_service = Some (Sp 2)" "Sp 2 \<noteq> Sp 1"
    by (simp_all add: connected_service_def)
  ultimately show ?thesis
    using death_registration_outlives_the_subscription [OF live] run by blast
qed

section \<open>The calls of a connected client\<close>

lemma find_append: "find P (xs @ ys) = (case find P xs of None \<Rightarrow> find P ys | Some x \<Rightarrow> Some x)"
  by (induction xs) auto

text \<open>The client's registration of a handler, against the daemon's service.\<close>

lemma AddCommandHandler_daemon:
  assumes "si_weave_service si \<noteq> None" and "component \<noteq> []" and "command_name \<noteq> []"
    and "text_ok cd component" and "text_ok cd (full_name trait_name command_name)"
  shows "ServiceImpl_AddCommandHandler cd (daemon_service bc api cd tf) component trait_name command_name
      callback si (device, sv) =
    Inr (si\<lparr>si_command_handlers := si_command_handlers si @
           [\<lparr>che_component = component, che_command_name = full_name trait_name command_name,
             che_callback = callback\<rparr>]\<rparr>,
         dev_AddCommandHandler api component (full_name trait_name command_name)
           (ServiceOnCommand (bws_this sv) component (full_name trait_name command_name)) device, sv)"
  using assms
  by (simp add: ServiceImpl_AddCommandHandler_def Let_def daemon_service_register)

text \<open>
  A handler the client adds for a command that has none is registered with
  libweave's device under the trait's full command name, and a command libweave dispatches to it
  runs exactly this handler with this command; commands of other names are handled as before.
\<close>

theorem registered_handler_gets_its_commands:
  assumes "si_weave_service si \<noteq> None" and "component \<noteq> []" and "command_name \<noteq> []"
    and "text_ok cd component" and "text_ok cd (full_name trait_name command_name)"
    and "\<forall>entry \<in> set (si_command_handlers si).
      \<not> (che_component entry = component \<and> che_command_name entry = full_name trait_name command_name)"
  shows "\<exists>si'. ServiceImpl_AddCommandHandler cd (daemon_service bc api cd tf) component trait_name
      command_name callback si (device, sv) =
    Inr (si', dev_AddCommandHandler api component (full_name trait_name command_name)
           (ServiceOnCommand (bws_this sv) component (full_name trait_name command_name)) device, sv) \<and>
    (\<forall>w. \<exists>c n. BinderWeaveService_OnCommand cd sv component (full_name trait_name command_name) w =
        ClientOnCommand (bws_client sv) c n w \<and>
      (\<forall>p wid. lock p wid = Some si' \<longrightarrow>
        cp_effects (WeaveClient_onCommand cd wid c n w p) = cp_effects p @ [RunCommandHandler callback w])) \<and>
    (\<forall>c n w. (c, n) \<noteq> (component, full_name trait_name command_name) \<longrightarrow>
      ServiceImpl_OnCommand c n w si' = ServiceImpl_OnCommand c n w si)"
proof -
  let ?full = "full_name trait_name command_name"
  let ?entry = "\<lparr>che_component = component, che_command_name = ?full, che_callback = callback\<rparr>"
  let ?si = "si\<lparr>si_command_handlers := si_command_handlers si @ [?entry]\<rparr>"
  have "find (\<lambda>entry. che_component entry = component \<and> che_command_name entry = ?full)
      (si_command_handlers si) = None"
    using assms(6) by (auto simp: find_None_iff)
  then have run: "ServiceImpl_OnCommand component ?full w ?si = [RunCommandHandler callback w]" for w
    by (simp add: ServiceImpl_OnCommand_def find_append)
  have other: "ServiceImpl_OnCommand c n w ?si = ServiceImpl_OnCommand c n w si"
    if "(c, n) \<noteq> (component, ?full)" for c n w
    using that by (auto simp: ServiceImpl_OnCommand_def find_append split: option.split)
  have deliver: "cp_effects (WeaveClient_onCommand cd wid (ToString16 cd component) (ToString16 cd ?full) w p) =
      cp_effects p @ [RunCommandHandler callback w]" if "lock p wid = Some ?si" for p wid w
    using that run [of w]
    by (simp add: WeaveClient_onCommand_def lock_def ToString_ToString16 [OF assms(4)]
        ToString_ToString16 [OF assms(5)])
  show ?thesis
  proof (intro exI [of _ ?si] conjI allI impI)
    fix w
    show "\<exists>c n. BinderWeaveService_OnCommand cd sv component ?full w = ClientOnCommand (bws_client sv) c n w \<and>
        (\<forall>p wid. lock p wid = Some ?si \<longrightarrow>
          cp_effects (WeaveClient_onCommand cd wid c n w p) = cp_effects p @ [RunCommandHandler callback w])"
      using deliver
      by (intro exI [of _ "ToString16 cd component"] exI [of _ "ToString16 cd ?full"])
        (auto simp: BinderWeaveService_OnCommand_def)
  qed (use other AddCommandHandler_daemon [OF assms(1-5)] in simp_all)
qed

theorem registered_handler_gets_its_commands_witness:
  "\<exists>si'. ServiceImpl_AddCommandHandler sample_codec
      (daemon_service sample_codes sample_device sample_codec dead_daemon) ''lamp'' ''onOff'' ''toggle'' 8
      connected_service ([], new_BinderWeaveService (Sp 2) (Sp 3)) =
    Inr (si', ''lamponOff.toggle'', new_BinderWeaveService (Sp 2) (Sp 3))"
proof -
  have full: "full_name ''onOff'' ''toggle'' = ''onOff.toggle''" by (simp add: full_name_def c_str_def)
  have "si_weave_service connected_service \<noteq> None" "''lamp'' \<noteq> []" "''toggle'' \<noteq> []"
    "text_ok sample_codec ''lamp''" "text_ok sample_codec (full_name ''onOff'' ''toggle'')"
    "\<forall>entry \<in> set (si_command_handlers connected_service).
      \<not> (che_component entry = ''lamp'' \<and> che_command_name entry = full_name ''onOff'' ''toggle'')"
    by (simp_all add: connected_service_def sample_text_ok full)
  from registered_handler_gets_its_commands [OF this, of sample_codes sample_device dead_daemon 8 "[]"
      "new_BinderWeaveService (Sp 2) (Sp 3)"]
  show ?thesis by (auto simp: full sample_device_add)
qed

text \<open>
  A second handler for a command that has one is accepted, and registered with the
  device again, but it never runs: the client's dispatch does not change.
\<close>

theorem second_handler_never_runs:
  assumes "si_weave_service si \<noteq> None" and "component \<noteq> []" and "command_name \<noteq> []"
    and "text_ok cd component" and "text_ok cd (full_name trait_name command_name)"
    and "entry \<in> set (si_command_handlers si)"
    and "che_component entry = component" and "che_command_name entry = full_name trait_name command_name"
  shows "\<exists>si'. ServiceImpl_AddCommandHandler cd (daemon_service bc api cd tf) component trait_name
      command_name callback si (device, sv) =
    Inr (si', dev_AddCommandHandler api component (full_name trait_name command_name)
           (ServiceOnCommand (bws_this sv) component (full_name trait_name command_name)) device, sv) \<and>
    (\<forall>c n w. ServiceImpl_OnCommand c n w si' = ServiceImpl_OnCommand c n w si)"
proof -
  let ?full = "full_name trait_name command_name"
  have "find (\<lambda>entry. che_component entry = component \<and> che_command_name entry = ?full)
      (si_command_handlers si) \<noteq> None"
    using assms(6-8) by (auto simp: find_None_iff)
  then show ?thesis
    using AddCommandHandler_daemon [OF assms(1-5), of bc api tf callback device sv]
    by (auto simp: ServiceImpl_OnCommand_def find_append split: option.split)
qed

theorem second_handler_never_runs_witness:
  "\<exists>si'. ServiceImpl_AddCommandHandler sample_codec
      (daemon_service sample_codes sample_device sample_codec dead_daemon) ''lamp'' ''onOff'' ''setConfig'' 8
      connected_service ([], new_BinderWeaveService (Sp 2) (Sp 3)) =
    Inr (si', ''lamponOff.setConfig'', new_BinderWeaveService (Sp 2) (Sp 3)) \<and>
    ServiceImpl_OnCommand ''lamp'' ''onOff.setConfig'' (4 :: nat) si' = [RunCommandHandler 7 4]"
proof -
  let ?entry = "\<lparr>che_component = ''lamp'', che_command_name = ''onOff.setConfig'', che_callback = 7\<rparr>"
  have full: "full_name ''onOff'' ''setConfig'' = ''onOff.setConfig''" by (simp add: full_name_def c_str_def)
  have "si_weave_service connected_service \<noteq> None" "''lamp'' \<noteq> []" "''setConfig'' \<noteq> []"
    "text_ok sample_codec ''lamp''" "text_ok sample_codec (full_name ''onOff'' ''setConfig'')"
    "?entry \<in> set (si_command_handlers connected_service)"
    "che_component ?entry = ''lamp''" "che_command_name ?entry = full_name ''onOff'' ''setConfig''"
    by (simp_all add: connected_service_def sample_text_ok full)
  then have "\<exists>si'. ServiceImpl_AddCommandHandler sample_codec
      (daemon_service sample_codes sample_device sample_codec dead_daemon) ''lamp'' ''onOff'' ''setConfig'' 8
      connected_service ([], new_BinderWeaveService (Sp 2) (Sp 3)) =
    Inr (si', dev_AddCommandHandler sample_device ''lamp'' (full_name ''onOff'' ''setConfig'')
      (ServiceOnCommand (bws_this (new_BinderWeaveService (Sp 2) (Sp 3))) ''lamp''
        (full_name ''onOff'' ''setConfig'')) [], new_BinderWeaveService (Sp 2) (Sp 3)) \<and>
    (\<forall>c n w. ServiceImpl_OnCommand c n (w :: nat) si' = ServiceImpl_OnCommand c n w connected_service)"
    by (rule second_handler_never_runs)
  moreover have "ServiceImpl_OnCommand ''lamp'' ''onOff.setConfig'' (4 :: nat) connected_service =
      [RunCommandHandler 7 4]"
    by (simp add: ServiceImpl_OnCommand_def connected_service_def)
  ultimately show ?thesis by (auto simp: full sample_device_add)
qed

lemma client_answer_daemon:
  "client_answer (s, if success then Inr () else fromServiceSpecificError bc 1 m) error =
   (s, success, if success then error
     else BrilloAdded None ''binder'' (to_string_int (EX_SERVICE_SPECIFIC bc)) (c_str m) # error)"
  by (simp add: client_answer_def fromServiceSpecificError_def)

text \<open>
  Property C19.  Components and state updates of a connected client reach libweave's device
  unchanged, with the device's verdict and error message as the answer; the daemon's service records
  exactly the components the device accepted.
\<close>

theorem client_calls_reach_the_device:
  assumes "si_weave_service si \<noteq> None" and "device_api_ok api" and "text_ok cd component"
    and "component \<noteq> []" and "\<forall>t \<in> set traits. text_ok cd t" and "json_ok cd dict"
    and "dev_AddComponent api component traits device = (device1, added, error1)"
    and "dev_SetStatePropertiesFromJson api component (json_write cd (of_dictionary cd dict)) device =
      (device2, updated, error2)"
  shows "ServiceImpl_AddComponent cd (daemon_service bc api cd tf) component traits si (device, sv) e =
      Inr ((device1, if added then sv\<lparr>bws_components := bws_components sv @ [component]\<rparr> else sv), added,
        if added then e else
          BrilloAdded None ''binder'' (to_string_int (EX_SERVICE_SPECIFIC bc)) (c_str (the error1)) # e) \<and>
    ServiceImpl_SetStateProperties cd (daemon_service bc api cd tf) component dict si (device, sv) e =
      Inr ((device2, sv), updated,
        if updated then e else
          BrilloAdded None ''binder'' (to_string_int (EX_SERVICE_SPECIFIC bc)) (c_str (the error2)) # e)"
proof -
  have "text_ok cd (json_write cd (of_dictionary cd dict))" using assms(6) by (simp add: json_ok_def)
  then have upd:
    "ServiceImpl_SetStateProperties cd (daemon_service bc api cd tf) component dict si (device, sv) e =
      Inr ((device2, sv), updated,
        if updated then e else
          BrilloAdded None ''binder'' (to_string_int (EX_SERVICE_SPECIFIC bc)) (c_str (the error2)) # e)"
    using assms daemon_service_updateState [OF assms(2,3) _ assms(8)]
    by (simp add: ServiceImpl_SetStateProperties_def ToString16_value_def client_answer_daemon)
  have "ServiceImpl_AddComponent cd (daemon_service bc api cd tf) component traits si (device, sv) e =
      Inr ((device1, if added then sv\<lparr>bws_components := bws_components sv @ [component]\<rparr> else sv), added,
        if added then e else
          BrilloAdded None ''binder'' (to_string_int (EX_SERVICE_SPECIFIC bc)) (c_str (the error1)) # e)"
    using assms(1) daemon_service_addComponent [OF assms(2,3,5,7)]
    by (simp add: ServiceImpl_AddComponent_def client_answer_daemon)
  then show ?thesis using upd by (rule conjI)
qed

theorem client_calls_reach_the_device_witness:
  "ServiceImpl_AddComponent sample_codec (daemon_service sample_codes sample_device sample_codec dead_daemon)
      ''lamp'' [''onOff''] connected_service ([], new_BinderWeaveService (Sp 2) (Sp 3)) [] =
    Inr ((''lamp'', new_BinderWeaveService (Sp 2) (Sp 3)), False,
      [BrilloAdded None ''binder'' (to_string_int (- 8)) (c_str ''exists'')])"
proof -
  have "si_weave_service connected_service \<noteq> None" "text_ok sample_codec ''lamp''" "''lamp'' \<noteq> []"
    "\<forall>t \<in> set [''onOff'']. text_ok sample_codec t" "json_ok sample_codec ''{}''"
    by (simp_all add: connected_service_def sample_text_ok sample_json_ok)
  moreover have "dev_AddComponent sample_device ''lamp'' [''onOff''] [] = (''lamp'', False, Some ''exists'')"
    "dev_SetStatePropertiesFromJson sample_device ''lamp'' (json_write sample_codec (of_dictionary sample_codec ''{}'')) [] =
      (''{}'', True, None)"
    by (simp_all add: sample_device_def sample_codec_def)
  ultimately have "ServiceImpl_AddComponent sample_codec
        (daemon_service sample_codes sample_device sample_codec dead_daemon)
        ''lamp'' [''onOff''] connected_service ([], new_BinderWeaveService (Sp 2) (Sp 3)) [] =
      Inr ((''lamp'', if False then new_BinderWeaveService (Sp 2) (Sp 3)\<lparr>bws_components :=
          bws_components (new_BinderWeaveService (Sp 2) (Sp 3)) @ [''lamp'']\<rparr>
        else new_BinderWeaveService (Sp 2) (Sp 3)), False,
        if False then [] else [BrilloAdded None ''binder'' (to_string_int (EX_SERVICE_SPECIFIC sample_codes))
          (c_str (the (Some ''exists'')))])"
    by (rule client_calls_reach_the_device [OF _ sample_device_ok, THEN conjunct1])
  then show ?thesis by (simp add: sample_codes_def)
qed

end
