(* ===== verification/Buffet_Manager.thy ===== *)
theory Buffet_Manager
  imports Binder_Weave_Service Buffet_Config
begin

text \<open>
  \<^verbatim>\<open>buffet/manager.{h,cc}\<close>: the daemon's central object, the binder service manager.  It
  creates the providers and libweave's device, gives every client its service once the device
  exists, mirrors the device's settings, state and pairing session in strings that clients can
  read, and tells its listeners which of them changed.

  Outside the repository: libweave's device (its state is a type parameter, its methods are
  \<open>manager_device_api\<close>), the files with definitions (\<open>manager_env\<close>), and the other
  providers, of which the model keeps whether they exist.  What the manager does to others is
  appended to \<open>mg_effects\<close>; an enumeration value of libweave is given by its
  \<open>EnumToString\<close>.
\<close>

section \<open>State\<close>

record manager_options =
  xmpp_enabled :: bool
  disable_privet :: bool
  enable_ping :: bool
  device_whitelist :: "string list"
  config_options :: config_options

record ('dev, 'v) manager_device_api = "'dev weave_device_api" +
  dev_AddTraitDefinitionsFromJson :: "string \<Rightarrow> 'dev \<Rightarrow> 'dev"
  dev_AddCommandDefinitionsFromJson :: "string \<Rightarrow> 'dev \<Rightarrow> 'dev"
  dev_AddStateDefinitionsFromJson :: "string \<Rightarrow> 'dev \<Rightarrow> 'dev"
  dev_SetStateDefaultsFromJson :: "string \<Rightarrow> 'dev \<Rightarrow> 'dev \<times> bool"
  dev_GetTraits :: "'dev \<Rightarrow> 'v"
  dev_GetComponents :: "'dev \<Rightarrow> 'v"

text \<open>What the file system and \<open>weave::Device::Create\<close> give.\<close>

record 'dev manager_env =
  Device_Create :: "bool \<Rightarrow> bool \<Rightarrow> bool \<Rightarrow> 'dev" \<comment> \<open>with mdns, web server, bluetooth or without\<close>
  path_Append :: "string \<Rightarrow> string \<Rightarrow> string"
  FileEnumerator :: "string \<Rightarrow> string \<Rightarrow> string list" \<comment> \<open>directory, pattern\<close>
  ReadFileToString :: "string \<Rightarrow> string option"

datatype manager_effect =
    PowerManagerInit
  | NewShillClient "string list" bool
  | AddPingHandlers
  | AddSettingsChangedCallback
  | AddTraitDefsChangedCallback
  | AddStateChangedCallback
  | AddComponentTreeChangedCallback
  | AddGcdStateChangedCallback
  | AddPairingChangedCallbacks
  | ClientOnServiceConnected sp sp
  | RegisterForDeathNotifications sp
  | UnregisterForDeathNotifications sp
  | NotifyListener sp "int list"
  | PropertySet string string
  | PostReboot
  | PowerManagerReboot

record 'dev Manager =
  mg_options :: manager_options
  mg_task_runner :: bool
  mg_config :: bool
  mg_http_client :: bool
  mg_shill_client :: bool
  mg_mdns_client :: bool
  mg_web_serv_client :: bool
  mg_bluetooth_client :: bool
  mg_device :: "'dev option"
  mg_pending_clients :: "sp list"
  mg_services :: "(sp, BinderWeaveService) smap"
  mg_notification_listeners :: "(sp, unit) smap"
  mg_cloud_id :: string
  mg_device_id :: string
  mg_device_name :: string
  mg_device_description :: string
  mg_device_location :: string
  mg_oem_name :: string
  mg_model_name :: string
  mg_model_id :: string
  mg_pairing_session_id :: string
  mg_pairing_mode :: string
  mg_pairing_code :: string
  mg_state :: string
  mg_next_address :: nat \<comment> \<open>of the next service object\<close>
  mg_effects :: "manager_effect list"

definition mg_emit :: "manager_effect list \<Rightarrow> 'dev Manager \<Rightarrow> 'dev Manager" where
  "mg_emit es m = m\<lparr>mg_effects := mg_effects m @ es\<rparr>"

definition new_Manager :: "manager_options \<Rightarrow> nat \<Rightarrow> 'dev Manager" where
  "new_Manager options first_address =
     \<lparr>mg_options = options, mg_task_runner = False, mg_config = False, mg_http_client = False,
      mg_shill_client = False, mg_mdns_client = False, mg_web_serv_client = False,
      mg_bluetooth_client = False, mg_device = None, mg_pending_clients = [], mg_services = [],
      mg_notification_listeners = [], mg_cloud_id = '''', mg_device_id = '''', mg_device_name = '''',
      mg_device_description = '''', mg_device_location = '''', mg_oem_name = '''', mg_model_name = '''',
      mg_model_id = '''', mg_pairing_session_id = '''', mg_pairing_mode = '''', mg_pairing_code = '''',
      mg_state = '''', mg_next_address = first_address, mg_effects = []\<rparr>"

text \<open>The destructor, as the effects it has.\<close>

definition destroy_Manager :: "'dev Manager \<Rightarrow> manager_effect list" where
  "destroy_Manager m =
     map (\<lambda>kv. UnregisterForDeathNotifications (fst kv)) (mg_notification_listeners m) @
     map (\<lambda>kv. UnregisterForDeathNotifications (fst kv)) (mg_services m)"

section \<open>Loading the definitions\<close>

definition Manager_LoadFile :: "'dev manager_env \<Rightarrow> string \<Rightarrow> string option" where
  "Manager_LoadFile env file_path = ReadFileToString env file_path"

fun load_files :: "'dev manager_env \<Rightarrow> (string \<Rightarrow> 'dev \<Rightarrow> 'dev result) \<Rightarrow> string list \<Rightarrow> 'dev \<Rightarrow> 'dev result" where
  "load_files env add [] device = Inr device"
| "load_files env add (path # paths) device =
     (case Manager_LoadFile env path of
        None \<Rightarrow> Inl (CheckFailed ''LoadFile(path, &json, nullptr)'')
      | Some json \<Rightarrow> bind_result (add json device) (load_files env add paths))"

definition LoadTraitDefinitions ::
    "('dev, 'v) manager_device_api \<Rightarrow> 'dev manager_env \<Rightarrow> config_options \<Rightarrow> 'dev \<Rightarrow> 'dev result" where
  "LoadTraitDefinitions api env options device =
     (let dir = path_Append env (opt_definitions options) ''traits''
      in load_files env (\<lambda>json d. Inr (dev_AddTraitDefinitionsFromJson api json d))
           (FileEnumerator env dir ''*.json'') device)"

definition load_packages ::
    "('dev, 'v) manager_device_api \<Rightarrow> 'dev manager_env \<Rightarrow> string \<Rightarrow> string \<Rightarrow> 'dev \<Rightarrow> 'dev result" where
  "load_packages api env root pattern device =
     (let dir = path_Append env root ''commands''
      in load_files env (\<lambda>json d. Inr (dev_AddCommandDefinitionsFromJson api json d))
           (FileEnumerator env dir pattern) device)"

definition LoadCommandDefinitions ::
    "('dev, 'v) manager_device_api \<Rightarrow> 'dev manager_env \<Rightarrow> config_options \<Rightarrow> 'dev \<Rightarrow> 'dev result" where
  "LoadCommandDefinitions api env options device =
     bind_result (load_packages api env (opt_definitions options) ''*.json'' device) (\<lambda>device.
       if opt_test_definitions options \<noteq> ''''
       then load_packages api env (opt_test_definitions options) ''*test.json'' device
       else Inr device)"

definition LoadStateDefinitions ::
    "('dev, 'v) manager_device_api \<Rightarrow> 'dev manager_env \<Rightarrow> config_options \<Rightarrow> 'dev \<Rightarrow> 'dev result" where
  "LoadStateDefinitions api env options device =
     (let dir = path_Append env (opt_definitions options) ''states''
      in load_files env (\<lambda>json d. Inr (dev_AddStateDefinitionsFromJson api json d))
           (FileEnumerator env dir ''*.schema.json'') device)"

definition LoadStateDefaults ::
    "('dev, 'v) manager_device_api \<Rightarrow> 'dev manager_env \<Rightarrow> config_options \<Rightarrow> 'dev \<Rightarrow> 'dev result" where
  "LoadStateDefaults api env options device =
     (let dir = path_Append env (opt_definitions options) ''states''
      in load_files env
           (\<lambda>json d. case dev_SetStateDefaultsFromJson api json d of (d, ok) \<Rightarrow>
              check ok ''device->SetStatePropertiesFromJson(json, nullptr)'' (Inr d))
           (FileEnumerator env dir ''*.defaults.json'') device)"

section \<open>Clients\<close>

definition create_service :: "sp \<Rightarrow> 'dev Manager \<Rightarrow> 'dev Manager" where
  \<comment> \<open>the loop body of \<open>CreateServicesForClients\<close>\<close>
  "create_service client m =
     (let service = Sp (mg_next_address m);
          m = m\<lparr>mg_next_address := Suc (mg_next_address m),
                mg_services := smap_emplace client (new_BinderWeaveService service client) (mg_services m)\<rparr>
      in mg_emit [ClientOnServiceConnected client service, RegisterForDeathNotifications client] m)"

definition CreateServicesForClients :: "'dev Manager \<Rightarrow> 'dev Manager result" where
  "CreateServicesForClients m =
     check (mg_device m \<noteq> None) ''device_''
       (let pending_clients_copy = mg_pending_clients m
        in Inr (fold create_service pending_clients_copy (m\<lparr>mg_pending_clients := []\<rparr>)))"

definition Manager_connect :: "sp \<Rightarrow> 'dev Manager \<Rightarrow> 'dev Manager result" where
  "Manager_connect client m =
     (let m = m\<lparr>mg_pending_clients := mg_pending_clients m @ [client]\<rparr>
      in if mg_device m \<noteq> None then CreateServicesForClients m else Inr m)"

definition registerNotificationListener :: "sp \<Rightarrow> 'dev Manager \<Rightarrow> 'dev Manager" where
  "registerNotificationListener listener m =
     mg_emit [RegisterForDeathNotifications listener]
       (m\<lparr>mg_notification_listeners := smap_put listener () (mg_notification_listeners m)\<rparr>)"

definition OnClientDisconnected :: "sp \<Rightarrow> 'dev Manager \<Rightarrow> 'dev Manager" where
  "OnClientDisconnected client m = m\<lparr>mg_services := smap_erase client (mg_services m)\<rparr>"

definition OnNotificationListenerDestroyed :: "sp \<Rightarrow> 'dev Manager \<Rightarrow> 'dev Manager" where
  "OnNotificationListenerDestroyed listener m =
     m\<lparr>mg_notification_listeners := smap_erase listener (mg_notification_listeners m)\<rparr>"

definition NotifyServiceManagerChange :: "int list \<Rightarrow> 'dev Manager \<Rightarrow> 'dev Manager" where
  "NotifyServiceManagerChange notification_ids m =
     (if notification_ids = [] then m
      else mg_emit (map (\<lambda>kv. NotifyListener (fst kv) notification_ids) (mg_notification_listeners m)) m)"

section \<open>Life of the device\<close>

definition Manager_Stop :: "bool \<Rightarrow> 'dev Manager \<Rightarrow> 'dev Manager" where
  \<comment> \<open>the boolean is the build flag \<open>BUFFET_USE_WIFI_BOOTSTRAPPING\<close>\<close>
  "Manager_Stop wifi m =
     (let m = m\<lparr>mg_device := None\<rparr>;
          m = (if wifi then m\<lparr>mg_web_serv_client := False, mg_mdns_client := False\<rparr> else m)
      in m\<lparr>mg_shill_client := False, mg_http_client := False, mg_config := False, mg_task_runner := False\<rparr>)"

definition CreateDevice ::
    "('dev, 'v) manager_device_api \<Rightarrow> 'dev manager_env \<Rightarrow> 'dev Manager \<Rightarrow> 'dev Manager result" where
  "CreateDevice api env m =
     (if mg_device m \<noteq> None then Inr m
      else
        (let device = Device_Create env (mg_mdns_client m) (mg_web_serv_client m) (mg_bluetooth_client m);
             options = config_options (mg_options m)
         in
         bind_result (LoadTraitDefinitions api env options device) (\<lambda>device.
         bind_result (LoadCommandDefinitions api env options device) (\<lambda>device.
         bind_result (LoadStateDefinitions api env options device) (\<lambda>device.
         bind_result (LoadStateDefaults api env options device) (\<lambda>device.
           (let m = mg_emit [AddSettingsChangedCallback, AddTraitDefsChangedCallback, AddStateChangedCallback,
                      AddComponentTreeChangedCallback, AddGcdStateChangedCallback, AddPairingChangedCallbacks] m;
                device = dev_AddCommandHandler api ''base'' ''base.reboot'' ManagerOnReboot device
            in CreateServicesForClients (m\<lparr>mg_device := Some device\<rparr>))))))))"

definition RestartWeave ::
    "bool \<Rightarrow> ('dev, 'v) manager_device_api \<Rightarrow> 'dev manager_env \<Rightarrow> 'dev Manager \<Rightarrow> 'dev Manager result" where
  "RestartWeave wifi api env m =
     (let m = Manager_Stop wifi m;
          m = m\<lparr>mg_task_runner := True, mg_config := True, mg_http_client := True, mg_shill_client := True\<rparr>;
          m = mg_emit [NewShillClient (device_whitelist (mg_options m)) (\<not> xmpp_enabled (mg_options m))] m;
          http_server = (wifi \<and> \<not> disable_privet (mg_options m));
          m = (if http_server then
                 (let m = m\<lparr>mg_mdns_client := True, mg_web_serv_client := True, mg_bluetooth_client := True\<rparr>
                  in if enable_ping (mg_options m) then mg_emit [AddPingHandlers] m else m)
               else m)
      in if \<not> http_server then CreateDevice api env m else Inr m)"

definition Manager_Start ::
    "bool \<Rightarrow> ('dev, 'v) manager_device_api \<Rightarrow> 'dev manager_env \<Rightarrow> 'dev Manager \<Rightarrow> 'dev Manager result" where
  "Manager_Start wifi api env m = RestartWeave wifi api env (mg_emit [PowerManagerInit] m)"


section \<open>Mirrored values\<close>

text \<open>
  A pointer to member \<open>std::string Manager::*\<close> is a field: its selector and its update.
\<close>

definition UpdateValue ::
    "('m \<Rightarrow> string) \<Rightarrow> ((string \<Rightarrow> string) \<Rightarrow> 'm \<Rightarrow> 'm) \<Rightarrow> string \<Rightarrow> int \<Rightarrow> 'm \<times> int list \<Rightarrow> 'm \<times> int list" where
  "UpdateValue sel upd new_value notification mi =
     (case mi of (m, notification_ids) \<Rightarrow>
        if sel m \<noteq> new_value then (upd (\<lambda>_. new_value) m, notification_ids @ [notification])
        else (m, notification_ids))"

definition OnTraitDefsChanged :: "'dev Manager \<Rightarrow> 'dev Manager" where
  "OnTraitDefsChanged m = NotifyServiceManagerChange [TRAITS] m"

definition OnComponentTreeChanged :: "'dev Manager \<Rightarrow> 'dev Manager" where
  "OnComponentTreeChanged m = NotifyServiceManagerChange [COMPONENTS] m"

definition OnGcdStateChanged :: "string \<Rightarrow> 'dev Manager \<Rightarrow> 'dev Manager" where
  "OnGcdStateChanged state m =
     (let m = m\<lparr>mg_state := state\<rparr>;
          m = NotifyServiceManagerChange [STATE] m
      in mg_emit [PropertySet ''weave.state'' (c_str (mg_state m))] m)"

definition OnConfigChanged :: "('pt, 'role) Settings \<Rightarrow> 'dev Manager \<Rightarrow> 'dev Manager" where
  "OnConfigChanged settings m =
     (let mi = (m, []);
          mi = UpdateValue mg_cloud_id mg_cloud_id_update (cloud_id settings) CLOUD_ID mi;
          mi = UpdateValue mg_device_id mg_device_id_update (device_id settings) DEVICE_ID mi;
          mi = UpdateValue mg_device_name mg_device_name_update (set_name settings) DEVICE_NAME mi;
          mi = UpdateValue mg_device_description mg_device_description_update (description settings)
                 DEVICE_DESCRIPTION mi;
          mi = UpdateValue mg_device_location mg_device_location_update (location_text settings)
                 DEVICE_LOCATION mi;
          mi = UpdateValue mg_oem_name mg_oem_name_update (oem_name settings) OEM_NAME mi;
          mi = UpdateValue mg_model_id mg_model_id_update (model_id settings) MODEL_ID mi;
          mi = UpdateValue mg_model_name mg_model_name_update (model_name settings) MODEL_NAME mi
      in NotifyServiceManagerChange (snd mi) (fst mi))"

definition OnPairingStart :: "string \<Rightarrow> string \<Rightarrow> 8 word list \<Rightarrow> 'dev Manager \<Rightarrow> 'dev Manager" where
  "OnPairingStart session pairing_type code m =
     (let mi = (m, []);
          mi = UpdateValue mg_pairing_session_id mg_pairing_session_id_update session PAIRING_SESSION_ID mi;
          mi = UpdateValue mg_pairing_mode mg_pairing_mode_update pairing_type PAIRING_MODE mi;
          mi = UpdateValue mg_pairing_code mg_pairing_code_update (map (\<lambda>b. char_of (unat b)) code)
                 PAIRING_CODE mi
      in NotifyServiceManagerChange (snd mi) (fst mi))"

definition OnPairingEnd :: "string \<Rightarrow> 'dev Manager \<Rightarrow> 'dev Manager" where
  "OnPairingEnd session m =
     (if mg_pairing_session_id m \<noteq> session then m
      else
        (let mi = (m, []);
             mi = UpdateValue mg_pairing_session_id mg_pairing_session_id_update '''' PAIRING_SESSION_ID mi;
             mi = UpdateValue mg_pairing_mode mg_pairing_mode_update '''' PAIRING_MODE mi;
             mi = UpdateValue mg_pairing_code mg_pairing_code_update '''' PAIRING_CODE mi
         in NotifyServiceManagerChange (snd mi) (fst mi)))"

text \<open>
  \<open>OnRebootDevice\<close>: \<open>cmd\<close> is the command if the weak pointer locks, with what its
  \<open>Complete\<close> returns.
\<close>

definition OnRebootDevice :: "bool option \<Rightarrow> 'dev Manager \<Rightarrow> 'dev Manager result" where
  "OnRebootDevice cmd m =
     (case cmd of
        None \<Rightarrow> Inr m
      | Some completes \<Rightarrow>
          (if \<not> completes then Inr m
           else if \<not> mg_task_runner m then Inl (NullDeref ''task_runner_'')
           else Inr (mg_emit [PostReboot] m)))"

definition RebootDeviceNow :: "'dev Manager \<Rightarrow> 'dev Manager" where
  "RebootDeviceNow m = mg_emit [PowerManagerReboot] m"

section \<open>Getters\<close>

definition getCloudId :: "('v, 'd) codec \<Rightarrow> 'dev Manager \<Rightarrow> string16 status" where
  "getCloudId cd m = Inr (ToString16 cd (mg_cloud_id m))"

definition getDeviceId :: "('v, 'd) codec \<Rightarrow> 'dev Manager \<Rightarrow> string16 status" where
  "getDeviceId cd m = Inr (ToString16 cd (mg_device_id m))"

definition getDeviceName :: "('v, 'd) codec \<Rightarrow> 'dev Manager \<Rightarrow> string16 status" where
  "getDeviceName cd m = Inr (ToString16 cd (mg_device_name m))"

definition getDeviceDescription :: "('v, 'd) codec \<Rightarrow> 'dev Manager \<Rightarrow> string16 status" where
  "getDeviceDescription cd m = Inr (ToString16 cd (mg_device_description m))"

definition getDeviceLocation :: "('v, 'd) codec \<Rightarrow> 'dev Manager \<Rightarrow> string16 status" where
  "getDeviceLocation cd m = Inr (ToString16 cd (mg_device_location m))"

definition getOemName :: "('v, 'd) codec \<Rightarrow> 'dev Manager \<Rightarrow> string16 status" where
  "getOemName cd m = Inr (ToString16 cd (mg_oem_name m))"

definition getModelName :: "('v, 'd) codec \<Rightarrow> 'dev Manager \<Rightarrow> string16 status" where
  "getModelName cd m = Inr (ToString16 cd (mg_model_name m))"

definition getModelId :: "('v, 'd) codec \<Rightarrow> 'dev Manager \<Rightarrow> string16 status" where
  "getModelId cd m = Inr (ToString16 cd (mg_model_id m))"

definition getPairingSessionId :: "('v, 'd) codec \<Rightarrow> 'dev Manager \<Rightarrow> string16 status" where
  "getPairingSessionId cd m = Inr (ToString16 cd (mg_pairing_session_id m))"

definition getPairingMode :: "('v, 'd) codec \<Rightarrow> 'dev Manager \<Rightarrow> string16 status" where
  "getPairingMode cd m = Inr (ToString16 cd (mg_pairing_mode m))"

definition getPairingCode :: "('v, 'd) codec \<Rightarrow> 'dev Manager \<Rightarrow> string16 status" where
  "getPairingCode cd m = Inr (ToString16 cd (mg_pairing_code m))"

definition Manager_getState :: "('v, 'd) codec \<Rightarrow> 'dev Manager \<Rightarrow> string16 status" where
  "Manager_getState cd m = Inr (ToString16 cd (mg_state m))"

definition getTraits :: "('dev, 'v) manager_device_api \<Rightarrow> ('v, 'd) codec \<Rightarrow> 'dev Manager \<Rightarrow> string16 status result" where
  "getTraits api cd m =
     (case mg_device m of
        None \<Rightarrow> Inl (NullDeref ''device_'')
      | Some device \<Rightarrow> Inr (Inr (ToString16_value cd (dev_GetTraits api device))))"

definition getComponents ::
    "('dev, 'v) manager_device_api \<Rightarrow> ('v, 'd) codec \<Rightarrow> 'dev Manager \<Rightarrow> string16 status result" where
  "getComponents api cd m =
     (case mg_device m of
        None \<Rightarrow> Inl (NullDeref ''device_'')
      | Some device \<Rightarrow> Inr (Inr (ToString16_value cd (dev_GetComponents api device))))"

section \<open>Events\<close>

text \<open>
  After \<open>Manager_Start\<close>: the binder calls of clients, deaths, the web server becoming ready,
  the callbacks of the device (which come only while there is one) and the shutdown.
\<close>

datatype ('dev, 'pt, 'role) manager_event =
    MeConnect sp
  | MeRegisterListener sp
  | MeClientDied sp
  | MeListenerDied sp
  | MeWebServerReady "'dev manager_env"
  | MeTraitDefs
  | MeComponentTree
  | MeGcdState string
  | MeConfig "('pt, 'role) Settings"
  | MePairingStart string string "8 word list"
  | MePairingEnd string
  | MeReboot "bool option"
  | MeRebootNow
  | MeGetTraits
  | MeGetComponents
  | MeStop

definition if_device :: "'dev Manager \<Rightarrow> 'dev Manager result \<Rightarrow> 'dev Manager result" where
  "if_device m r = (if mg_device m = None then Inr m else r)"

fun manager_step :: "bool \<Rightarrow> ('dev, 'v) manager_device_api \<Rightarrow> ('v, 'd) codec \<Rightarrow> 'dev Manager \<Rightarrow>
    ('dev, 'pt, 'role) manager_event \<Rightarrow> 'dev Manager result" where
  "manager_step wifi api cd m (MeConnect client) = Manager_connect client m"
| "manager_step wifi api cd m (MeRegisterListener listener) = Inr (registerNotificationListener listener m)"
| "manager_step wifi api cd m (MeClientDied client) = Inr (OnClientDisconnected client m)"
| "manager_step wifi api cd m (MeListenerDied listener) = Inr (OnNotificationListenerDestroyed listener m)"
| "manager_step wifi api cd m (MeWebServerReady env) =
     (if mg_web_serv_client m then CreateDevice api env m else Inr m)"
| "manager_step wifi api cd m MeTraitDefs = if_device m (Inr (OnTraitDefsChanged m))"
| "manager_step wifi api cd m MeComponentTree = if_device m (Inr (OnComponentTreeChanged m))"
| "manager_step wifi api cd m (MeGcdState state) = if_device m (Inr (OnGcdStateChanged state m))"
| "manager_step wifi api cd m (MeConfig settings) = if_device m (Inr (OnConfigChanged settings m))"
| "manager_step wifi api cd m (MePairingStart session pairing_type code) =
     if_device m (Inr (OnPairingStart session pairing_type code m))"
| "manager_step wifi api cd m (MePairingEnd session) = if_device m (Inr (OnPairingEnd session m))"
| "manager_step wifi api cd m (MeReboot cmd) = if_device m (OnRebootDevice cmd m)"
| "manager_step wifi api cd m MeRebootNow = Inr (RebootDeviceNow m)"
| "manager_step wifi api cd m MeGetTraits = bind_result (getTraits api cd m) (\<lambda>_. Inr m)"
| "manager_step wifi api cd m MeGetComponents = bind_result (getComponents api cd m) (\<lambda>_. Inr m)"
| "manager_step wifi api cd m MeStop = Inr (Manager_Stop wifi m)"

end
