(* ===== verification/Manager_Properties.thy ===== *)
theory Manager_Properties
  imports Buffet_Manager
begin

text \<open>
  The invariant of the daemon's manager and its properties: clients are served exactly once per
  \<open>connect\<close>, services belong to their clients, and the listeners are told exactly what changed.
\<close>

section \<open>Fields behind a pointer to member\<close>

locale string_field =
  fixes sel :: "'m \<Rightarrow> string" and upd :: "(string \<Rightarrow> string) \<Rightarrow> 'm \<Rightarrow> 'm"
  assumes sel_upd: "sel (upd (\<lambda>_. v) m) = v"
    and upd_sel: "upd (\<lambda>_. sel m) m = m"
begin

lemma UpdateValue_eq:
  "UpdateValue sel upd v n (m, ids) = (upd (\<lambda>_. v) m, ids @ (if sel m \<noteq> v then [n] else []))"
  using upd_sel [of m] by (auto simp: UpdateValue_def)

lemma UpdateValue_twice:
  "UpdateValue sel upd v n (UpdateValue sel upd v n' (m, ids)) = UpdateValue sel upd v n' (m, ids)"
  by (simp add: UpdateValue_def sel_upd)

end

interpretation cloud_id_field: string_field mg_cloud_id mg_cloud_id_update by unfold_locales simp_all
interpretation device_id_field: string_field mg_device_id mg_device_id_update by unfold_locales simp_all
interpretation device_name_field: string_field mg_device_name mg_device_name_update by unfold_locales simp_all
interpretation device_description_field: string_field mg_device_description mg_device_description_update
  by unfold_locales simp_all
interpretation device_location_field: string_field mg_device_location mg_device_location_update
  by unfold_locales simp_all
interpretation oem_name_field: string_field mg_oem_name mg_oem_name_update by unfold_locales simp_all
interpretation model_id_field: string_field mg_model_id mg_model_id_update by unfold_locales simp_all
interpretation model_name_field: string_field mg_model_name mg_model_name_update by unfold_locales simp_all
interpretation pairing_session_field: string_field mg_pairing_session_id mg_pairing_session_id_update
  by unfold_locales simp_all
interpretation pairing_mode_field: string_field mg_pairing_mode mg_pairing_mode_update
  by unfold_locales simp_all
interpretation pairing_code_field: string_field mg_pairing_code mg_pairing_code_update
  by unfold_locales simp_all

lemmas field_updates =
  cloud_id_field.UpdateValue_eq device_id_field.UpdateValue_eq device_name_field.UpdateValue_eq
  device_description_field.UpdateValue_eq device_location_field.UpdateValue_eq
  oem_name_field.UpdateValue_eq model_id_field.UpdateValue_eq model_name_field.UpdateValue_eq
  pairing_session_field.UpdateValue_eq pairing_mode_field.UpdateValue_eq pairing_code_field.UpdateValue_eq

text \<open>The ids of the values that are not the same before and after.\<close>

definition changed_ids :: "(int \<times> string \<times> string) list \<Rightarrow> int list" where
  "changed_ids vs = map fst (filter (\<lambda>v. fst (snd v) \<noteq> snd (snd v)) vs)"

lemma changed_ids_simps [simp]:
  "changed_ids [] = []"
  "changed_ids ((n, old, new) # vs) = (if old \<noteq> new then [n] else []) @ changed_ids vs"
  by (simp_all add: changed_ids_def)

definition settings_changes :: "('pt, 'role) Settings \<Rightarrow> 'dev Manager \<Rightarrow> (int \<times> string \<times> string) list" where
  "settings_changes s m =
     [(CLOUD_ID, mg_cloud_id m, cloud_id s), (DEVICE_ID, mg_device_id m, device_id s),
      (DEVICE_NAME, mg_device_name m, set_name s),
      (DEVICE_DESCRIPTION, mg_device_description m, description s),
      (DEVICE_LOCATION, mg_device_location m, location_text s), (OEM_NAME, mg_oem_name m, oem_name s),
      (MODEL_ID, mg_model_id m, model_id s), (MODEL_NAME, mg_model_name m, model_name s)]"

lemma OnConfigChanged_eq:
  "OnConfigChanged s m =
     NotifyServiceManagerChange (changed_ids (settings_changes s m))
       (m\<lparr>mg_cloud_id := cloud_id s, mg_device_id := device_id s, mg_device_name := set_name s,
          mg_device_description := description s, mg_device_location := location_text s,
          mg_oem_name := oem_name s, mg_model_id := model_id s, mg_model_name := model_name s\<rparr>)"
  by (simp add: OnConfigChanged_def Let_def field_updates settings_changes_def)

definition pairing_changes :: "string \<Rightarrow> string \<Rightarrow> string \<Rightarrow> 'dev Manager \<Rightarrow> (int \<times> string \<times> string) list" where
  "pairing_changes session pairing_type code m =
     [(PAIRING_SESSION_ID, mg_pairing_session_id m, session), (PAIRING_MODE, mg_pairing_mode m, pairing_type),
      (PAIRING_CODE, mg_pairing_code m, code)]"

definition set_pairing :: "string \<Rightarrow> string \<Rightarrow> string \<Rightarrow> 'dev Manager \<Rightarrow> 'dev Manager" where
  "set_pairing session pairing_type code m =
     NotifyServiceManagerChange (changed_ids (pairing_changes session pairing_type code m))
       (m\<lparr>mg_pairing_session_id := session, mg_pairing_mode := pairing_type, mg_pairing_code := code\<rparr>)"

lemma OnPairingStart_eq:
  "OnPairingStart session pairing_type code m =
     set_pairing session pairing_type (map (\<lambda>b. char_of (unat b)) code) m"
  by (simp add: OnPairingStart_def set_pairing_def Let_def field_updates pairing_changes_def)

lemma OnPairingEnd_eq:
  "OnPairingEnd session m =
     (if mg_pairing_session_id m = session then set_pairing [] [] [] m else m)"
  by (simp add: OnPairingEnd_def set_pairing_def Let_def field_updates pairing_changes_def)

section \<open>The invariant\<close>

definition services_ok :: "nat \<Rightarrow> (sp \<Rightarrow> BinderWeaveService option) \<Rightarrow> bool" where
  "services_ok next_address services \<longleftrightarrow>
     (\<forall>client sv. services client = Some sv \<longrightarrow> bws_client sv = client \<and> addr (bws_this sv) < next_address) \<and>
     (\<forall>client client' sv sv'. services client = Some sv \<longrightarrow> services client' = Some sv' \<longrightarrow>
        bws_this sv = bws_this sv' \<longrightarrow> client = client')"

lemma services_ok_new:
  assumes "services_ok n f"
  shows "services_ok (Suc n) (f(client \<mapsto> new_BinderWeaveService (Sp n) client))"
proof -
  have "addr (bws_this sv) < n" if "f c = Some sv" for c sv
    using assms that by (simp add: services_ok_def)
  then have fresh: "bws_this sv \<noteq> Sp n" if "f c = Some sv" for c sv
    using that by (metis less_irrefl sp.sel)
  show ?thesis
    unfolding services_ok_def
  proof (intro conjI allI impI)
    fix c c' sv sv'
    assume "(f(client \<mapsto> new_BinderWeaveService (Sp n) client)) c = Some sv"
      and "(f(client \<mapsto> new_BinderWeaveService (Sp n) client)) c' = Some sv'"
      and "bws_this sv = bws_this sv'"
    then show "c = c'"
      using assms fresh [of c sv] fresh [of c' sv']
      by (auto simp: new_BinderWeaveService_def services_ok_def split: if_splits)
  qed (use assms in \<open>auto simp: new_BinderWeaveService_def services_ok_def less_SucI split: if_splits\<close>)
qed

lemma services_ok_Suc: "services_ok n f \<Longrightarrow> services_ok (Suc n) f"
  by (auto simp: services_ok_def less_SucI)

lemma services_ok_erase: "services_ok n f \<Longrightarrow> services_ok n (f(client := None))"
  by (auto simp: services_ok_def split: if_splits)

definition manager_inv :: "bool \<Rightarrow> 'dev Manager \<Rightarrow> bool" where
  "manager_inv wifi m \<longleftrightarrow> smap_wf (mg_services m) \<and> smap_wf (mg_notification_listeners m) \<and>
     (mg_device m \<noteq> None \<longrightarrow> mg_pending_clients m = [] \<and> mg_task_runner m) \<and>
     (mg_web_serv_client m \<longrightarrow> mg_task_runner m \<and> wifi) \<and>
     services_ok (mg_next_address m) (map_of (mg_services m))"

definition answered :: "sp \<Rightarrow> 'dev Manager \<Rightarrow> nat" where
  "answered client m =
     length (filter (\<lambda>e. case e of ClientOnServiceConnected c _ \<Rightarrow> c = client | _ \<Rightarrow> False) (mg_effects m))"

definition waiting :: "sp \<Rightarrow> 'dev Manager \<Rightarrow> nat" where
  "waiting client m = count_list (mg_pending_clients m) client"

text \<open>The calls of \<open>connect\<close> a state accounts for.\<close>

definition ledger :: "sp \<Rightarrow> 'dev Manager \<Rightarrow> nat" where
  "ledger client m = answered client m + waiting client m"

lemma mg_emit_fields [simp]:
  "mg_options (mg_emit es m) = mg_options m" "mg_task_runner (mg_emit es m) = mg_task_runner m"
  "mg_device (mg_emit es m) = mg_device m" "mg_pending_clients (mg_emit es m) = mg_pending_clients m"
  "mg_services (mg_emit es m) = mg_services m" "mg_web_serv_client (mg_emit es m) = mg_web_serv_client m"
  "mg_notification_listeners (mg_emit es m) = mg_notification_listeners m"
  "mg_next_address (mg_emit es m) = mg_next_address m" "mg_effects (mg_emit es m) = mg_effects m @ es"
  "mg_pairing_session_id (mg_emit es m) = mg_pairing_session_id m"
  "mg_pairing_mode (mg_emit es m) = mg_pairing_mode m"
  "mg_pairing_code (mg_emit es m) = mg_pairing_code m" "mg_state (mg_emit es m) = mg_state m"
  by (simp_all add: mg_emit_def)

lemma manager_inv_emit [simp]: "manager_inv wifi (mg_emit es m) = manager_inv wifi m"
  by (simp add: manager_inv_def)

lemma manager_inv_notify [simp]: "manager_inv wifi (NotifyServiceManagerChange ids m) = manager_inv wifi m"
  by (simp add: NotifyServiceManagerChange_def)

lemma ledger_notify [simp]: "ledger c (NotifyServiceManagerChange ids m) = ledger c m"
proof -
  have "filter (\<lambda>e. case e of ClientOnServiceConnected x _ \<Rightarrow> x = c | _ \<Rightarrow> False)
      (map (\<lambda>kv. NotifyListener (fst kv) ids) (mg_notification_listeners m)) = []"
    by (simp add: filter_empty_conv)
  then show ?thesis by (simp add: NotifyServiceManagerChange_def ledger_def answered_def waiting_def)
qed

lemma ledger_cong:
  "mg_effects m' = mg_effects m \<Longrightarrow> mg_pending_clients m' = mg_pending_clients m \<Longrightarrow> ledger c m' = ledger c m"
  by (simp add: ledger_def answered_def waiting_def)

lemma create_service_fields [simp]:
  "mg_device (create_service client m) = mg_device m"
  "mg_pending_clients (create_service client m) = mg_pending_clients m"
  "mg_task_runner (create_service client m) = mg_task_runner m"
  "mg_web_serv_client (create_service client m) = mg_web_serv_client m"
  "mg_notification_listeners (create_service client m) = mg_notification_listeners m"
  "mg_next_address (create_service client m) = Suc (mg_next_address m)"
  "mg_services (create_service client m) =
     smap_emplace client (new_BinderWeaveService (Sp (mg_next_address m)) client) (mg_services m)"
  "mg_effects (create_service client m) = mg_effects m @
     [ClientOnServiceConnected client (Sp (mg_next_address m)), RegisterForDeathNotifications client]"
  by (simp_all add: create_service_def Let_def)

lemma create_service_inv: "manager_inv wifi m \<Longrightarrow> manager_inv wifi (create_service client m)"
  by (simp add: manager_inv_def map_of_smap_emplace services_ok_new services_ok_Suc)

lemma create_services_inv: "manager_inv wifi m \<Longrightarrow> manager_inv wifi (fold create_service cs m)"
  by (induction cs arbitrary: m) (simp_all add: create_service_inv)

lemma create_services_fields [simp]:
  "mg_device (fold create_service cs m) = mg_device m"
  "mg_pending_clients (fold create_service cs m) = mg_pending_clients m"
  by (induction cs arbitrary: m) simp_all

lemma answered_create_services:
  "answered c (fold create_service cs m) = answered c m + count_list cs c"
proof (induction cs arbitrary: m)
  case (Cons client cs)
  have "answered c (create_service client m) = answered c m + (if client = c then 1 else 0)"
    by (simp add: answered_def)
  then show ?case using Cons.IH by simp
qed simp

lemma CreateServicesForClients_inv:
  assumes "manager_inv wifi (m\<lparr>mg_pending_clients := []\<rparr>)" and "CreateServicesForClients m = Inr m'"
  shows "manager_inv wifi m' \<and> ledger c m' = ledger c m \<and> mg_pending_clients m' = [] \<and> mg_device m' = mg_device m"
proof -
  have m': "m' = fold create_service (mg_pending_clients m) (m\<lparr>mg_pending_clients := []\<rparr>)"
    using assms(2) by (simp add: CreateServicesForClients_def)
  have "answered c (m\<lparr>mg_pending_clients := []\<rparr>) = answered c m" by (simp add: answered_def)
  then show ?thesis
    unfolding m' using create_services_inv [OF assms(1)]
    by (simp add: ledger_def answered_create_services waiting_def)
qed
section \<open>Every handler keeps it\<close>

definition connects :: "sp \<Rightarrow> ('dev, 'pt, 'role) manager_event \<Rightarrow> bool" where
  "connects client e = (case e of MeConnect c \<Rightarrow> c = client | _ \<Rightarrow> False)"

lemma ledger_emit:
  "\<forall>e \<in> set es. \<forall>c s. e \<noteq> ClientOnServiceConnected c s \<Longrightarrow> ledger c (mg_emit es m) = ledger c m"
proof -
  assume "\<forall>e \<in> set es. \<forall>c s. e \<noteq> ClientOnServiceConnected c s"
  then have "filter (\<lambda>e. case e of ClientOnServiceConnected x _ \<Rightarrow> x = c | _ \<Rightarrow> False) es = []"
    by (auto simp: filter_empty_conv split: manager_effect.split)
  then show ?thesis by (simp add: ledger_def answered_def waiting_def)
qed

lemma CreateDevice_keeps:
  assumes "manager_inv wifi m" and "mg_task_runner m" and "CreateDevice api env m = Inr m'"
  shows "manager_inv wifi m' \<and> ledger c m' = ledger c m \<and> mg_device m' \<noteq> None"
proof (cases "mg_device m")
  case None
  then obtain device where create: "CreateServicesForClients
      (mg_emit [AddSettingsChangedCallback, AddTraitDefsChangedCallback, AddStateChangedCallback,
         AddComponentTreeChangedCallback, AddGcdStateChangedCallback, AddPairingChangedCallbacks] m
       \<lparr>mg_device := Some device\<rparr>) = Inr m'"
    (is "CreateServicesForClients ?m = _")
    using assms(3) by (auto simp: CreateDevice_def Let_def)
  have "manager_inv wifi (?m\<lparr>mg_pending_clients := []\<rparr>)"
    using assms(1,2) None by (simp add: manager_inv_def)
  moreover have "ledger c ?m = ledger c m"
    by (simp add: ledger_def answered_def waiting_def)
  ultimately show ?thesis using CreateServicesForClients_inv [OF _ create, of wifi c] by simp
qed (use assms in \<open>simp add: CreateDevice_def\<close>)

lemma Manager_connect_keeps:
  assumes "manager_inv wifi m" and "Manager_connect client m = Inr m'"
  shows "manager_inv wifi m' \<and> ledger c m' = ledger c m + (if client = c then 1 else 0)"
proof -
  let ?m = "m\<lparr>mg_pending_clients := mg_pending_clients m @ [client]\<rparr>"
  have ledger: "ledger c ?m = ledger c m + (if client = c then 1 else 0)"
    by (simp add: ledger_def answered_def waiting_def)
  show ?thesis
  proof (cases "mg_device m")
    case None
    then have "m' = ?m" using assms(2) by (simp add: Manager_connect_def Let_def)
    moreover have "manager_inv wifi ?m" using assms(1) None by (simp add: manager_inv_def)
    ultimately show ?thesis using ledger by simp
  next
    case (Some device)
    then have create: "CreateServicesForClients ?m = Inr m'"
      using assms(2) by (simp add: Manager_connect_def Let_def)
    have "manager_inv wifi (?m\<lparr>mg_pending_clients := []\<rparr>)"
      using assms(1) by (simp add: manager_inv_def)
    then show ?thesis using CreateServicesForClients_inv [OF _ create, of wifi c] ledger by simp
  qed
qed

lemma manager_strings_keep:
  "manager_inv wifi m \<Longrightarrow> manager_inv wifi (m\<lparr>mg_cloud_id := a, mg_device_id := b, mg_device_name := c',
     mg_device_description := d, mg_device_location := e, mg_oem_name := f, mg_model_id := g,
     mg_model_name := h\<rparr>)"
  "manager_inv wifi m \<Longrightarrow>
   manager_inv wifi (m\<lparr>mg_pairing_session_id := a, mg_pairing_mode := b, mg_pairing_code := c'\<rparr>)"
  "manager_inv wifi m \<Longrightarrow> manager_inv wifi (m\<lparr>mg_state := a\<rparr>)"
  by (simp_all add: manager_inv_def)

lemma ledger_strings [simp]:
  "ledger c (m\<lparr>mg_cloud_id := a, mg_device_id := b, mg_device_name := c',
     mg_device_description := d, mg_device_location := e, mg_oem_name := f, mg_model_id := g,
     mg_model_name := h\<rparr>) = ledger c m"
  "ledger c (m\<lparr>mg_pairing_session_id := a, mg_pairing_mode := b, mg_pairing_code := c'\<rparr>) = ledger c m"
  "ledger c (m\<lparr>mg_state := a\<rparr>) = ledger c m"
  "ledger c (m\<lparr>mg_services := sv\<rparr>) = ledger c m"
  "ledger c (m\<lparr>mg_notification_listeners := ls\<rparr>) = ledger c m"
  by (simp_all add: ledger_def answered_def waiting_def)

lemma set_pairing_keeps:
  "manager_inv wifi m \<Longrightarrow> manager_inv wifi (set_pairing session mode code m) \<and>
   ledger c (set_pairing session mode code m) = ledger c m"
  by (simp add: set_pairing_def manager_strings_keep)

lemma manager_inv_listeners:
  "manager_inv wifi m \<Longrightarrow> manager_inv wifi (m\<lparr>mg_notification_listeners := smap_put l () (mg_notification_listeners m)\<rparr>)"
  "manager_inv wifi m \<Longrightarrow> manager_inv wifi (m\<lparr>mg_notification_listeners := smap_erase l (mg_notification_listeners m)\<rparr>)"
  by (simp_all add: manager_inv_def)

lemma Manager_Stop_keeps:
  "manager_inv wifi m \<Longrightarrow> manager_inv wifi (Manager_Stop wifi m) \<and> ledger c (Manager_Stop wifi m) = ledger c m"
  by (auto simp: Manager_Stop_def Let_def manager_inv_def ledger_def answered_def waiting_def)

lemma if_device_Inr [simp]: "if_device m r = Inr m' \<longleftrightarrow> (if mg_device m = None then m' = m else r = Inr m')"
  by (auto simp: if_device_def)

lemma manager_step_keeps:
  assumes "manager_inv wifi m" and "manager_step wifi api cd m e = Inr m'"
  shows "manager_inv wifi m' \<and> ledger c m' = ledger c m + (if connects c e then 1 else 0)"
proof (cases e)
  case (MeConnect client)
  then show ?thesis using assms Manager_connect_keeps [of wifi m client m' c] by (simp add: connects_def)
next
  case (MeWebServerReady env)
  show ?thesis
  proof (cases "mg_web_serv_client m")
    case True
    then have "mg_task_runner m" using assms(1) by (simp add: manager_inv_def)
    then show ?thesis
      using assms CreateDevice_keeps [of wifi m api env m' c] True MeWebServerReady by (simp add: connects_def)
  qed (use assms MeWebServerReady in \<open>simp add: connects_def\<close>)
next
  case (MeClientDied client)
  then show ?thesis
    using assms by (auto simp: OnClientDisconnected_def connects_def manager_inv_def services_ok_erase)
next
  case (MeReboot cmd)
  then show ?thesis
    using assms by (auto simp: OnRebootDevice_def connects_def ledger_emit split: if_splits option.splits)
next
  case MeStop
  then show ?thesis using assms Manager_Stop_keeps [of wifi m c] by (simp add: connects_def)
qed (use assms in \<open>auto simp: connects_def registerNotificationListener_def OnNotificationListenerDestroyed_def
      OnTraitDefsChanged_def OnComponentTreeChanged_def OnGcdStateChanged_def RebootDeviceNow_def Let_def
      OnConfigChanged_eq OnPairingStart_eq OnPairingEnd_eq set_pairing_keeps manager_strings_keep ledger_emit
      manager_inv_listeners split: if_splits\<close>)

definition initial_manager :: "bool \<Rightarrow> ('dev, 'v) manager_device_api \<Rightarrow> 'dev Manager \<Rightarrow> bool" where
  "initial_manager wifi api m \<longleftrightarrow>
     (\<exists>env options a. Manager_Start wifi api env (new_Manager options a) = Inr m)"

lemma Manager_Start_keeps:
  assumes "Manager_Start wifi api env (new_Manager options a) = Inr m"
  shows "manager_inv wifi m \<and> ledger c m = 0"
proof -
  let ?m = "mg_emit [NewShillClient (device_whitelist options) (\<not> xmpp_enabled options)]
    (Manager_Stop wifi (mg_emit [PowerManagerInit] (new_Manager options a))
      \<lparr>mg_task_runner := True, mg_config := True, mg_http_client := True, mg_shill_client := True\<rparr>)"
  have inv: "manager_inv wifi ?m" "mg_task_runner ?m" "ledger c ?m = 0" "\<not> mg_web_serv_client ?m"
    by (auto simp: manager_inv_def new_Manager_def Manager_Stop_def mg_emit_def Let_def smap_wf_simps
        services_ok_def ledger_def answered_def waiting_def)
  show ?thesis
  proof (cases "wifi \<and> \<not> disable_privet options")
    case True
    let ?m' = "?m\<lparr>mg_mdns_client := True, mg_web_serv_client := True, mg_bluetooth_client := True\<rparr>"
    have "manager_inv wifi ?m'" "ledger c ?m' = 0"
      using inv True by (auto simp: manager_inv_def ledger_def answered_def waiting_def)
    then show ?thesis
      using assms True by (auto simp: Manager_Start_def RestartWeave_def Let_def ledger_emit
          Manager_Stop_def new_Manager_def split: if_splits)
  next
    case False
    then have "CreateDevice api env ?m = Inr m"
      using assms by (auto simp: Manager_Start_def RestartWeave_def Let_def Manager_Stop_def new_Manager_def
          split: if_splits)
    then show ?thesis using CreateDevice_keeps [OF inv(1,2), of api env m c] inv(3) by simp
  qed
qed

interpretation manager: guarded_component
    "initial_manager wifi api" "manager_step wifi api cd" "manager_inv wifi"
  for wifi api and cd :: "('v, 'd) codec"
  by unfold_locales (auto simp: initial_manager_def dest: Manager_Start_keeps manager_step_keeps)

lemma ledger_run:
  "manager_inv wifi m \<Longrightarrow> run (manager_step wifi api cd) m es = Inr m' \<Longrightarrow>
   ledger c m' = ledger c m + length (filter (connects c) es)"
proof (induction es arbitrary: m)
  case (Cons e es)
  then obtain m1 where step: "manager_step wifi api cd m e = Inr m1"
    and "run (manager_step wifi api cd) m1 es = Inr m'" by auto
  then show ?case using Cons.IH manager_step_keeps [OF Cons.prems(1) step, of c] by auto
qed simp

section \<open>A sample daemon\<close>

definition sample_manager_api :: "(string, string) manager_device_api" where
  "sample_manager_api =
     \<lparr>dev_AddComponent = (\<lambda>n ts d. (d @ n, True, None)), dev_AddCommandHandler = (\<lambda>c n h d. d @ n),
      dev_SetStatePropertiesFromJson = (\<lambda>c j d. (j, True, None)),
      dev_AddTraitDefinitionsFromJson = (\<lambda>j d. d @ j), dev_AddCommandDefinitionsFromJson = (\<lambda>j d. d @ j),
      dev_AddStateDefinitionsFromJson = (\<lambda>j d. d @ j), dev_SetStateDefaultsFromJson = (\<lambda>j d. (d @ j, True)),
      dev_GetTraits = (\<lambda>d. d), dev_GetComponents = (\<lambda>d. d)\<rparr>"

definition sample_env :: "string manager_env" where
  "sample_env = \<lparr>Device_Create = (\<lambda>_ _ _. []), path_Append = (\<lambda>d f. d @ ''/'' @ f),
     FileEnumerator = (\<lambda>dir pattern. if pattern = ''*.json'' then [dir @ ''/base.json''] else []),
     ReadFileToString = (\<lambda>p. Some ''{}'')\<rparr>"

definition sample_manager_options :: manager_options where
  "sample_manager_options = \<lparr>xmpp_enabled = True, disable_privet = False, enable_ping = False,
     device_whitelist = [], config_options = sample_options\<rparr>"

definition daemon_run :: "(string, unit, unit) manager_event list" where
  "daemon_run = [MeConnect (Sp 7), MeRegisterListener (Sp 8), MeWebServerReady sample_env, MeConnect (Sp 9)]"

abbreviation "sample_manager_step \<equiv> manager_step True sample_manager_api sample_codec"

abbreviation "sample_start \<equiv> Manager_Start True sample_manager_api sample_env (new_Manager sample_manager_options 100)"

lemma daemon_run_ends:
  "\<exists>m0 m. sample_start = Inr m0 \<and> mg_device m0 = None \<and>
    run sample_manager_step m0 daemon_run = Inr m \<and> mg_device m \<noteq> None \<and>
    mg_services m = [(Sp 7, new_BinderWeaveService (Sp 100) (Sp 7)),
      (Sp 9, new_BinderWeaveService (Sp 101) (Sp 9))]"
proof -
  have "bind_result sample_start (\<lambda>m0. bind_result (run sample_manager_step m0 daemon_run)
      (\<lambda>m. Inr (mg_device m0, mg_device m, mg_services m))) =
    Inr (None, Some ''{}{}base.reboot'', [(Sp 7, new_BinderWeaveService (Sp 100) (Sp 7)),
      (Sp 9, new_BinderWeaveService (Sp 101) (Sp 9))])"
    by code_simp
  then show ?thesis by auto
qed

section \<open>Properties\<close>

text \<open>
  Property C22.  Every \<open>connect\<close> of a client is answered by exactly one
  \<open>onServiceConnected\<close>: over any run the answers and the calls still waiting add up to the
  calls made, and once the device exists none is waiting.
\<close>

theorem every_connect_is_answered_once:
  assumes "Manager_Start wifi api env (new_Manager options a) = Inr m0"
    and "run (manager_step wifi api cd) m0 es = Inr m"
  shows "answered client m + waiting client m = length (filter (connects client) es) \<and>
    (mg_device m \<noteq> None \<longrightarrow> mg_pending_clients m = [])"
proof -
  have start: "manager_inv wifi m0" "ledger client m0 = 0" using Manager_Start_keeps [OF assms(1)] by auto
  moreover have "manager_inv wifi m" using manager.inv_run_from [OF start(1) assms(2)] .
  ultimately show ?thesis
    using ledger_run [OF start(1) assms(2), of client] by (simp add: ledger_def manager_inv_def)
qed

theorem every_connect_is_answered_once_witness:
  "\<exists>m0 m. sample_start = Inr m0 \<and> run sample_manager_step m0 daemon_run = Inr m \<and>
     answered (Sp 7) m + waiting (Sp 7) m = 1"
proof -
  obtain m0 m where start: "sample_start = Inr m0" and run: "run sample_manager_step m0 daemon_run = Inr m"
    using daemon_run_ends by blast
  have "length (filter (connects (Sp 7)) daemon_run) = 1" by (simp add: daemon_run_def connects_def)
  then show ?thesis using every_connect_is_answered_once [OF start run, of "Sp 7"] start run by auto
qed

text \<open>
  In every reachable state each service object is bound to the client it is kept
  for, and no two clients share one, so a command handler registered through a service delivers to
  that client alone.
\<close>

theorem services_belong_to_their_clients:
  assumes "Manager_Start wifi api env (new_Manager options a) = Inr m0"
    and "run (manager_step wifi api cd) m0 es = Inr m"
    and "map_of (mg_services m) client = Some sv"
  shows "BinderWeaveService_OnCommand cd sv c n w = ClientOnCommand client (ToString16 cd c) (ToString16 cd n) w \<and>
    (\<forall>client' sv'. map_of (mg_services m) client' = Some sv' \<longrightarrow> bws_this sv' = bws_this sv \<longrightarrow> client' = client)"
proof -
  have "manager_inv wifi m0" using Manager_Start_keeps [OF assms(1)] by auto
  then have "manager_inv wifi m" using manager.inv_run_from assms(2) by blast
  then have "services_ok (mg_next_address m) (map_of (mg_services m))" by (simp add: manager_inv_def)
  then show ?thesis
    using assms(3) unfolding services_ok_def by (auto simp: BinderWeaveService_OnCommand_def)
qed

theorem services_belong_to_their_clients_witness:
  "\<exists>m0 m. sample_start = Inr m0 \<and> run sample_manager_step m0 daemon_run = Inr m \<and>
     BinderWeaveService_OnCommand sample_codec (new_BinderWeaveService (Sp 101) (Sp 9)) ''lamp'' ''on.set'' (4 :: nat) =
       ClientOnCommand (Sp 9) (ToString16 sample_codec ''lamp'') (ToString16 sample_codec ''on.set'') 4"
proof -
  obtain m0 m where start: "sample_start = Inr m0" and run: "run sample_manager_step m0 daemon_run = Inr m"
    and services: "mg_services m = [(Sp 7, new_BinderWeaveService (Sp 100) (Sp 7)),
      (Sp 9, new_BinderWeaveService (Sp 101) (Sp 9))]"
    using daemon_run_ends by blast
  have "map_of (mg_services m) (Sp 9) = Some (new_BinderWeaveService (Sp 101) (Sp 9))"
    by (simp add: services)
  from services_belong_to_their_clients [OF start run this, THEN conjunct1]
  have "BinderWeaveService_OnCommand sample_codec (new_BinderWeaveService (Sp 101) (Sp 9)) ''lamp'' ''on.set'' (4 :: nat) =
       ClientOnCommand (Sp 9) (ToString16 sample_codec ''lamp'') (ToString16 sample_codec ''on.set'') 4" .
  with start run show ?thesis by (intro exI conjI)
qed

text \<open>
  Property C23.  After a change of libweave's settings the eight mirrored values are the new
  settings, and every listener is told once, with exactly the ids of the values that differ, in the
  order of the handler; nobody is told anything if no value differs.
\<close>

theorem settings_change_is_announced:
  "let m' = OnConfigChanged s m; ids = changed_ids (settings_changes s m) in
     (mg_cloud_id m', mg_device_id m', mg_device_name m', mg_device_description m') =
       (cloud_id s, device_id s, set_name s, description s) \<and>
     (mg_device_location m', mg_oem_name m', mg_model_id m', mg_model_name m') =
       (location_text s, oem_name s, model_id s, model_name s) \<and>
     mg_effects m' = mg_effects m @
       (if ids = [] then [] else map (\<lambda>kv. NotifyListener (fst kv) ids) (mg_notification_listeners m))"
  by (simp add: OnConfigChanged_eq NotifyServiceManagerChange_def mg_emit_def Let_def)

text \<open>
  A pairing session that starts is exposed as it is, the end of another session
  changes nothing, and the end of this one clears all three values; each time the listeners are
  told exactly the ids of the values that changed.
\<close>

theorem pairing_session_is_exposed:
  "let code' = map (\<lambda>b. char_of (unat b)) code;
       m1 = OnPairingStart session pairing_type code m;
       m2 = OnPairingEnd other m1;
       told = (\<lambda>ids. if ids = [] then []
                     else map (\<lambda>kv. NotifyListener (fst kv) ids) (mg_notification_listeners m)) in
     (mg_pairing_session_id m1, mg_pairing_mode m1, mg_pairing_code m1) = (session, pairing_type, code') \<and>
     mg_effects m1 = mg_effects m @ told (changed_ids (pairing_changes session pairing_type code' m)) \<and>
     (if other = session
      then (mg_pairing_session_id m2, mg_pairing_mode m2, mg_pairing_code m2) = ([], [], []) \<and>
        mg_effects m2 = mg_effects m1 @ told (changed_ids (pairing_changes [] [] [] m1))
      else m2 = m1)"
  by (simp add: OnPairingStart_eq OnPairingEnd_eq set_pairing_def NotifyServiceManagerChange_def mg_emit_def
      Let_def)

text \<open>
  Property C24.  The only events that end the daemon are reads of the traits or components while
  there is no device, which always do, and the creation of the device from bad definition files.
\<close>

theorem manager_faults_exactly_without_device:
  assumes "Manager_Start wifi api env (new_Manager options a) = Inr m0"
    and "run (manager_step wifi api cd) m0 es = Inr m"
    and "\<And>env'. e \<noteq> MeWebServerReady env'"
  shows "(\<exists>f. manager_step wifi api cd m e = Inl f) \<longleftrightarrow>
    mg_device m = None \<and> (e = MeGetTraits \<or> e = MeGetComponents)"
proof -
  have "manager_inv wifi m0" using Manager_Start_keeps [OF assms(1)] by auto
  then have "manager_inv wifi m" using manager.inv_run_from assms(2) by blast
  then show ?thesis
    using assms(3)
    by (cases e) (auto simp: if_device_def Manager_connect_def CreateServicesForClients_def OnRebootDevice_def
        getTraits_def getComponents_def manager_inv_def Let_def split: option.split)
qed

theorem manager_faults_exactly_without_device_witness:
  "\<exists>m0 f. sample_start = Inr m0 \<and>
     sample_manager_step m0 (MeGetTraits :: (string, unit, unit) manager_event) = Inl f"
proof -
  obtain m0 where start: "sample_start = Inr m0" and none: "mg_device m0 = None"
    using daemon_run_ends by blast
  have "run sample_manager_step m0 ([] :: (string, unit, unit) manager_event list) = Inr m0" by simp
  from manager_faults_exactly_without_device [OF start this,
      of "MeGetTraits :: (string, unit, unit) manager_event"] start none
  show ?thesis by blast
qed

end
