(* ===== verification/Pairing_System.thy ===== *)
theory Pairing_System
  imports Weaved_Connection Manager_Properties
begin

text \<open>
  The pairing session in the daemon and in a client: \<open>Manager\<close> tells its listeners which of the
  three pairing values changed, the client library's listener reads those back through the manager's
  getters, and the client's callback is told of the session.  What either side does in one step is
  here; \<open>System_Pairing\<close> puts them together over the messages between them.
\<close>

section \<open>The three values\<close>

definition pairing_ids :: "int set" where
  "pairing_ids = {PAIRING_SESSION_ID, PAIRING_MODE, PAIRING_CODE}"

text \<open>The value that belongs to an id: the manager's, and the client's copy.\<close>

definition pairing_value :: "'dev Manager \<Rightarrow> int \<Rightarrow> string" where
  "pairing_value m nid =
     (if nid = PAIRING_SESSION_ID then mg_pairing_session_id m
      else if nid = PAIRING_MODE then mg_pairing_mode m
      else mg_pairing_code m)"

definition info_value :: "PairingInfo \<Rightarrow> int \<Rightarrow> string" where
  "info_value info nid =
     (if nid = PAIRING_SESSION_ID then session_id info
      else if nid = PAIRING_MODE then pairing_mode info
      else pairing_code info)"

text \<open>What the getter that belongs to an id replies.\<close>

definition pairing_reply :: "('v, 'd) codec \<Rightarrow> 'dev Manager \<Rightarrow> int \<Rightarrow> string16 status" where
  "pairing_reply cd m nid =
     (if nid = PAIRING_SESSION_ID then getPairingSessionId cd m
      else if nid = PAIRING_MODE then getPairingMode cd m
      else getPairingCode cd m)"

lemma pairing_reply_value: "pairing_reply cd m nid = Inr (ToString16 cd (pairing_value m nid))"
  by (simp add: pairing_reply_def pairing_value_def getPairingSessionId_def getPairingMode_def getPairingCode_def)

definition session_of :: "'dev Manager \<Rightarrow> PairingInfo" where
  "session_of m = \<lparr>session_id = mg_pairing_session_id m, pairing_mode = mg_pairing_mode m,
     pairing_code = mg_pairing_code m\<rparr>"

lemma session_of_values: "info = session_of m \<longleftrightarrow> (\<forall>nid \<in> pairing_ids. info_value info nid = pairing_value m nid)"
  by (cases info) (auto simp: session_of_def pairing_ids_def info_value_def pairing_value_def notification_id_defs)

definition no_session :: PairingInfo where
  "no_session = \<lparr>session_id = '''', pairing_mode = '''', pairing_code = ''''\<rparr>"

lemma new_pairing_info [simp]: "si_pairing_info new_ServiceImpl = no_session"
  by (simp add: new_ServiceImpl_def no_session_def)

definition pairing_texts_ok :: "('v, 'd) codec \<Rightarrow> 'dev Manager \<Rightarrow> bool" where
  "pairing_texts_ok cd m \<longleftrightarrow> (\<forall>nid \<in> pairing_ids. text_ok cd (pairing_value m nid))"

section \<open>The listener reads\<close>

lemma store_pairing_value:
  "nid \<in> pairing_ids \<Longrightarrow> nid' \<in> pairing_ids \<Longrightarrow>
   info_value (store_pairing nid v info) nid' = (if nid' = nid then v else info_value info nid')"
  by (auto simp: pairing_ids_def info_value_def store_pairing_def notification_id_defs)

text \<open>If the manager answers, the values of the ids are read, and the others stay.\<close>

lemma reading_values:
  assumes "notification_loop cd (map (\<lambda>nid. (nid, pairing_reply cd m nid)) ids) si changed = Inr (si', changed')"
    and "nid \<in> pairing_ids"
  shows "info_value (si_pairing_info si') nid =
    (if nid \<in> set ids then ToString cd (ToString16 cd (pairing_value m nid)) else info_value (si_pairing_info si) nid)"
  using assms
proof (induction ids arbitrary: si changed)
  case (Cons i ids)
  show ?case
  proof (cases "i \<in> pairing_ids")
    case True
    then obtain b where "si_manager si = Some b"
      using Cons.prems by (auto simp: pairing_ids_def split: option.splits)
    with True Cons.prems(1) have "notification_loop cd (map (\<lambda>nid. (nid, pairing_reply cd m nid)) ids)
        (si\<lparr>si_pairing_info := store_pairing i (ToString cd (ToString16 cd (pairing_value m i))) (si_pairing_info si)\<rparr>)
        True = Inr (si', changed')"
      by (auto simp: pairing_reply_value pairing_ids_def)
    from Cons.IH [OF this Cons.prems(2)] show ?thesis
      using True Cons.prems(2) by (auto simp: store_pairing_value)
  next
    case False
    then have "notification_loop cd (map (\<lambda>nid. (nid, pairing_reply cd m nid)) ids) si changed = Inr (si', changed')"
      using Cons.prems(1) by (simp add: pairing_ids_def)
    from Cons.IH [OF this Cons.prems(2)] show ?thesis using False Cons.prems(2) by auto
  qed
qed simp

text \<open>A copy that changed was reported as changed.\<close>

lemma unchanged_copy:
  "notification_loop cd ids si changed = Inr (si', False) \<Longrightarrow> si_pairing_info si' = si_pairing_info si"
proof (induction cd ids si changed rule: notification_loop.induct)
  case (2 cd nid reply ids si changed)
  have sticky: "notification_loop cd ids si True = Inr (si', c) \<Longrightarrow> c" for si ids c
    by (induction cd ids si True rule: notification_loop.induct) (auto split: if_splits option.splits sum.splits)
  show ?case using 2 sticky by (auto split: if_splits option.splits sum.splits)
qed simp

section \<open>The manager tells\<close>

definition listeners :: "'dev Manager \<Rightarrow> sp set" where
  "listeners m = fst ` set (mg_notification_listeners m)"

text \<open>
  \<open>tells gone m es m'\<close>: with the effects \<open>es\<close> the daemon notifies only its listeners, and each of
  them of every pairing value that changed; it gets no new listener and loses at most those in \<open>gone\<close>.
\<close>

definition tells :: "sp set \<Rightarrow> 'dev Manager \<Rightarrow> manager_effect list \<Rightarrow> 'dev Manager \<Rightarrow> bool" where
  "tells gone m es m' \<longleftrightarrow> mg_effects m' = mg_effects m @ es \<and>
     (\<forall>l ids. NotifyListener l ids \<in> set es \<longrightarrow> l \<in> listeners m) \<and>
     listeners m' \<subseteq> listeners m \<and> listeners m \<subseteq> listeners m' \<union> gone \<and>
     (\<forall>nid \<in> pairing_ids. pairing_value m' nid \<noteq> pairing_value m nid \<longrightarrow>
        (\<forall>l \<in> listeners m. \<exists>ids. nid \<in> set ids \<and> NotifyListener l ids \<in> set es))"

definition same_pairing :: "'dev Manager \<Rightarrow> manager_effect list \<Rightarrow> 'dev Manager \<Rightarrow> bool" where
  "same_pairing m es m' \<longleftrightarrow> mg_effects m' = mg_effects m @ es \<and>
     (\<forall>l ids. NotifyListener l ids \<notin> set es) \<and> mg_notification_listeners m' = mg_notification_listeners m \<and>
     session_of m' = session_of m"

lemma same_pairing_trans: "same_pairing m es m1 \<Longrightarrow> same_pairing m1 es' m2 \<Longrightarrow> same_pairing m (es @ es') m2"
  by (auto simp: same_pairing_def)

lemma same_pairing_tells: "same_pairing m es m' \<Longrightarrow> tells {} m es m'"
  by (auto simp: same_pairing_def tells_def listeners_def session_of_def pairing_value_def)

lemma tells_nothing [simp]: "\<exists>es. tells {} m es m"
proof -
  have "same_pairing m [] m" by (simp add: same_pairing_def)
  then show ?thesis using same_pairing_tells by blast
qed

lemma tells_effects: "tells gone m es m' \<Longrightarrow> mg_effects m' = mg_effects m @ es"
  by (simp add: tells_def)

lemma create_services_same: "\<exists>es. same_pairing m es (fold create_service clients m)"
proof (induction clients arbitrary: m)
  case Nil
  have "same_pairing m [] m" by (simp add: same_pairing_def)
  then show ?case by auto
next
  case (Cons client clients)
  have "same_pairing m [ClientOnServiceConnected client (Sp (mg_next_address m)), RegisterForDeathNotifications client]
      (create_service client m)"
    by (simp add: same_pairing_def create_service_def session_of_def Let_def)
  then show ?case using Cons.IH same_pairing_trans by fastforce
qed

lemma CreateServices_same: "CreateServicesForClients m = Inr m' \<Longrightarrow> \<exists>es. same_pairing m es m'"
  using create_services_same [of "m\<lparr>mg_pending_clients := []\<rparr>" "mg_pending_clients m"]
  by (auto simp: CreateServicesForClients_def same_pairing_def session_of_def)

lemma CreateDevice_same: "CreateDevice api env m = Inr m' \<Longrightarrow> \<exists>es. same_pairing m es m'"
proof (cases "mg_device m")
  case None
  assume "CreateDevice api env m = Inr m'"
  then obtain device where create: "CreateServicesForClients
      (mg_emit [AddSettingsChangedCallback, AddTraitDefsChangedCallback, AddStateChangedCallback,
         AddComponentTreeChangedCallback, AddGcdStateChangedCallback, AddPairingChangedCallbacks] m
       \<lparr>mg_device := Some device\<rparr>) = Inr m'"
    (is "CreateServicesForClients ?m = _")
    using None by (auto simp: CreateDevice_def Let_def)
  have "same_pairing m [AddSettingsChangedCallback, AddTraitDefsChangedCallback, AddStateChangedCallback,
         AddComponentTreeChangedCallback, AddGcdStateChangedCallback, AddPairingChangedCallbacks] ?m"
    by (simp add: same_pairing_def session_of_def)
  then show ?thesis using CreateServices_same [OF create] same_pairing_trans by blast
next
  case (Some device)
  assume "CreateDevice api env m = Inr m'"
  then have "same_pairing m [] m'" using Some by (simp add: CreateDevice_def same_pairing_def)
  then show ?thesis by blast
qed

lemma Manager_connect_same: "Manager_connect client m = Inr m' \<Longrightarrow> \<exists>es. same_pairing m es m'"
proof -
  assume connect: "Manager_connect client m = Inr m'"
  have "same_pairing m [] (m\<lparr>mg_pending_clients := mg_pending_clients m @ [client]\<rparr>)"
    by (simp add: same_pairing_def session_of_def)
  with connect CreateServices_same same_pairing_trans show ?thesis
    by (auto simp: Manager_connect_def Let_def split: if_splits) blast+
qed

lemma set_pairing_fields [simp]:
  "mg_pairing_session_id (set_pairing s t c m) = s" "mg_pairing_mode (set_pairing s t c m) = t"
  "mg_pairing_code (set_pairing s t c m) = c"
  "mg_notification_listeners (set_pairing s t c m) = mg_notification_listeners m"
  by (simp_all add: set_pairing_def NotifyServiceManagerChange_def)

lemma set_pairing_same:
  "mg_pairing_code m = code \<Longrightarrow> set_pairing (mg_pairing_session_id m) (mg_pairing_mode m) code m = m"
  by (simp add: set_pairing_def pairing_changes_def NotifyServiceManagerChange_def)

lemma notify_tells:
  assumes "mg_effects m1 = mg_effects m" and "mg_notification_listeners m1 = mg_notification_listeners m"
    and "\<And>nid. nid \<in> pairing_ids \<Longrightarrow> pairing_value m1 nid \<noteq> pairing_value m nid \<Longrightarrow> nid \<in> set ids"
  shows "\<exists>es. tells {} m es (NotifyServiceManagerChange ids m1)"
proof -
  let ?es = "if ids = [] then [] else map (\<lambda>kv. NotifyListener (fst kv) ids) (mg_notification_listeners m)"
  have "pairing_value (NotifyServiceManagerChange ids m1) nid = pairing_value m1 nid" for nid
    by (simp add: pairing_value_def NotifyServiceManagerChange_def)
  moreover have "\<exists>is. nid \<in> set is \<and> NotifyListener l is \<in> set ?es"
    if "l \<in> listeners m" "nid \<in> set ids" for l nid
    using that by (intro exI [of _ ids]) (auto simp: listeners_def)
  ultimately have "tells {} m ?es (NotifyServiceManagerChange ids m1)"
    using assms by (auto simp: tells_def listeners_def NotifyServiceManagerChange_def split: if_splits)
  then show ?thesis by blast
qed

lemma set_pairing_tells: "\<exists>es. tells {} m es (set_pairing s t c m)"
  unfolding set_pairing_def
  by (rule notify_tells) (auto simp: pairing_ids_def pairing_value_def pairing_changes_def notification_id_defs)

definition unregistered_by :: "('dev, 'pt, 'role) manager_event \<Rightarrow> sp set" where
  "unregistered_by e = (case e of MeListenerDied l \<Rightarrow> {l} | _ \<Rightarrow> {})"

lemma manager_step_tells:
  assumes "manager_step wifi api cd m e = Inr m'" and "\<And>l. e \<noteq> MeRegisterListener l"
  shows "\<exists>es. tells (unregistered_by e) m es m'"
proof -
  have same: "\<exists>es. tells {} m es m'" if "\<exists>es. same_pairing m es m'"
    using that same_pairing_tells by blast
  show ?thesis
  proof (cases e)
    case (MeConnect client)
    then show ?thesis using assms(1) same [OF Manager_connect_same] by (simp add: unregistered_by_def)
  next
    case (MeWebServerReady env)
    show ?thesis
    proof (cases "mg_web_serv_client m")
      case True
      then show ?thesis using assms(1) MeWebServerReady same [OF CreateDevice_same] by (simp add: unregistered_by_def)
    next
      case False
      then show ?thesis using assms(1) MeWebServerReady by (simp add: unregistered_by_def)
    qed
  next
    case (MeListenerDied l)
    then have m': "m' = OnNotificationListenerDestroyed l m" using assms(1) by simp
    have "tells {l} m [] m'"
      by (auto simp: m' tells_def OnNotificationListenerDestroyed_def listeners_def set_smap_erase pairing_value_def)
    then show ?thesis using MeListenerDied by (auto simp: unregistered_by_def)
  next
    case MeTraitDefs
    then show ?thesis
      using assms(1) notify_tells [of m m]
      by (auto simp: unregistered_by_def OnTraitDefsChanged_def split: if_splits)
  next
    case MeComponentTree
    then show ?thesis
      using assms(1) notify_tells [of m m]
      by (auto simp: unregistered_by_def OnComponentTreeChanged_def split: if_splits)
  next
    case (MeGcdState state)
    have "tells {} m (map (\<lambda>kv. NotifyListener (fst kv) [STATE]) (mg_notification_listeners m) @
        [PropertySet ''weave.state'' (c_str state)]) (OnGcdStateChanged state m)"
      by (auto simp: tells_def OnGcdStateChanged_def NotifyServiceManagerChange_def listeners_def pairing_value_def Let_def)
    then show ?thesis
      using assms(1) MeGcdState
      by (auto simp: unregistered_by_def split: if_splits)
  next
    case (MeConfig settings)
    let ?m = "m\<lparr>mg_cloud_id := cloud_id settings, mg_device_id := device_id settings,
        mg_device_name := set_name settings, mg_device_description := description settings,
        mg_device_location := location_text settings, mg_oem_name := oem_name settings,
        mg_model_id := model_id settings, mg_model_name := model_name settings\<rparr>"
    have "\<exists>es. tells {} m es (OnConfigChanged settings m)"
      unfolding OnConfigChanged_eq by (rule notify_tells) (auto simp: pairing_value_def split: if_splits)
    then show ?thesis
      using assms(1) MeConfig by (auto simp: unregistered_by_def split: if_splits)
  next
    case (MePairingStart session pairing_type code)
    then show ?thesis
      using assms(1) set_pairing_tells
      by (auto simp: unregistered_by_def OnPairingStart_eq split: if_splits)
  next
    case (MePairingEnd session)
    then show ?thesis
      using assms(1) set_pairing_tells
      by (auto simp: unregistered_by_def OnPairingEnd_eq split: if_splits)
  next
    case (MeReboot cmd)
    have "same_pairing m [PostReboot] (mg_emit [PostReboot] m)" by (simp add: same_pairing_def session_of_def)
    then have "\<exists>es. tells {} m es (mg_emit [PostReboot] m)" using same_pairing_tells by blast
    then show ?thesis
      using assms(1) MeReboot by (auto simp: unregistered_by_def OnRebootDevice_def split: if_splits option.splits)
  next
    case MeRebootNow
    have "same_pairing m [PowerManagerReboot] (RebootDeviceNow m)"
      by (simp add: same_pairing_def session_of_def RebootDeviceNow_def)
    then show ?thesis using assms(1) MeRebootNow same_pairing_tells by (auto simp: unregistered_by_def)
  next
    case (MeClientDied client)
    have "same_pairing m [] (OnClientDisconnected client m)"
      by (simp add: same_pairing_def session_of_def OnClientDisconnected_def)
    then show ?thesis using assms(1) MeClientDied same_pairing_tells by (auto simp: unregistered_by_def)
  next
    case MeStop
    have "same_pairing m [] (Manager_Stop wifi m)"
      by (simp add: same_pairing_def session_of_def Manager_Stop_def Let_def)
    then show ?thesis using assms(1) MeStop same_pairing_tells by (auto simp: unregistered_by_def)
  qed (use assms in \<open>auto simp: unregistered_by_def\<close>)
qed

section \<open>Properties\<close>

text \<open>
  A client that registers during a pairing session is not told of it: registering
  sends no notification, setting the pairing listener runs nothing, and libweave restarting the same
  session still tells nobody.
\<close>

theorem late_listener_misses_the_session:
  fixes m :: "'dev Manager"
  assumes "mg_pairing_code m = map (\<lambda>b. char_of (unat b)) code"
  shows "let m' = registerNotificationListener l m in
    mg_effects m' = mg_effects m @ [RegisterForDeathNotifications l] \<and>
    snd (ServiceImpl_SetPairingInfoListener (Some cb) new_ServiceImpl) = ([] :: 'w client_effect list) \<and>
    OnPairingStart (mg_pairing_session_id m') (mg_pairing_mode m') code m' = m'"
proof -
  let ?m = "registerNotificationListener l m"
  have "mg_pairing_code ?m = map (\<lambda>b. char_of (unat b)) code"
    by (simp add: registerNotificationListener_def assms)
  then have "OnPairingStart (mg_pairing_session_id ?m) (mg_pairing_mode ?m) code ?m = ?m"
    unfolding OnPairingStart_eq by (rule set_pairing_same)
  then show ?thesis
    by (simp add: Let_def) (simp add: registerNotificationListener_def pairing_complete_def
        ServiceImpl_SetPairingInfoListener_def new_ServiceImpl_def)
qed

definition sample_mirrored_manager :: "string Manager" where
  "sample_mirrored_manager = registerNotificationListener (Sp 8) (new_Manager sample_manager_options 100)"

theorem late_listener_misses_the_session_witness:
  "\<exists>m :: string Manager. session_of m = \<lparr>session_id = ''s1'', pairing_mode = ''pinCode'', pairing_code = ''1''\<rparr> \<and>
     OnPairingStart ''s1'' ''pinCode'' [49] (registerNotificationListener (Sp 8) m) =
       registerNotificationListener (Sp 8) m"
proof -
  let ?m = "OnPairingStart ''s1'' ''pinCode'' [49] sample_mirrored_manager"
  have one: "map (\<lambda>b. char_of (unat b)) [49 :: 8 word] = ''1''"
    by (simp add: char_of_def bit_iff_odd)
  have code: "mg_pairing_code ?m = map (\<lambda>b. char_of (unat b)) [49 :: 8 word]" by (simp add: OnPairingStart_eq)
  have session: "mg_pairing_session_id ?m = ''s1''" "mg_pairing_mode ?m = ''pinCode''"
    by (simp_all add: OnPairingStart_eq)
  let ?r = "registerNotificationListener (Sp 8) ?m"
  have "OnPairingStart (mg_pairing_session_id ?r) (mg_pairing_mode ?r) [49] ?r = ?r"
    using code
    by (rule late_listener_misses_the_session [unfolded Let_def, THEN conjunct2, THEN conjunct2])
  moreover have "mg_pairing_session_id ?r = ''s1''" "mg_pairing_mode ?r = ''pinCode''"
    using session by (simp_all add: registerNotificationListener_def)
  ultimately have "OnPairingStart ''s1'' ''pinCode'' [49] ?r = ?r"
    by (simp only:)
  then show ?thesis
    using session code one by (intro exI [of _ ?m]) (simp add: session_of_def)
qed

end
