(* ===== verification/Command_Session.thy ===== *)
theory Command_Session
  imports Weaved_Command
begin

text \<open>
  A client's \<open>Command\<close> object of \<^verbatim>\<open>libweaved/command.h\<close> over its life: any sequence
  of calls of its methods, with libweave changing or destroying the command in between.  The object
  keeps the proxy and the cache of the parameters; the session refines libweave's own command.
\<close>

section \<open>The object and its methods\<close>







section \<open>Sessions\<close>





section \<open>The specification\<close>

text \<open>
  Libweave's own command, used directly: no wire, no JSON, no status.  The abstract state is the
  command, the parameters the client has read, and the results.
\<close>

definition state_named :: "string \<Rightarrow> Command_State" where
  "state_named name =
     (case find (\<lambda>st. state_name st = name)
             [kQueued, kInProgress, kPaused, kError, kDone, kCancelled, kAborted, kExpired] of
        None \<Rightarrow> kQueued | Some st \<Rightarrow> st)"

lemma state_named_state_name [simp]: "state_named (state_name st) = st"
  by (cases st) (simp_all add: state_named_def state_name_def)










section \<open>Refinement\<close>









section \<open>Properties\<close>




end
