(* ===== verification/Config_Storage.thy ===== *)
theory Config_Storage
  imports Buffet_Config
begin

text \<open>
  The configuration object of \<^verbatim>\<open>buffet/buffet_config.h\<close> with the encryptor and the files it
  is wired to, and the storage of settings over the life of the daemon: any sequence of saves and
  loads, under any names, with writes that fail and restarts of the daemon in between.
\<close>

section \<open>The object\<close>

text \<open>\<open>encryptor_\<close> and \<open>file_io_\<close> point to the defaults the object owns, unless a test injects others.\<close>

record 'fs BuffetConfig =
  bc_options :: config_options
  bc_default_encryptor :: Encryptor
  bc_encryptor :: Encryptor
  bc_default_file_io :: "'fs FileIO"
  bc_file_io :: "'fs FileIO"

definition new_BuffetConfig :: "Encryptor \<Rightarrow> 'fs FileIO \<Rightarrow> config_options \<Rightarrow> 'fs BuffetConfig" where
  "new_BuffetConfig default_encryptor default_file_io options =
     \<lparr>bc_options = options, bc_default_encryptor = default_encryptor, bc_encryptor = default_encryptor,
      bc_default_file_io = default_file_io, bc_file_io = default_file_io\<rparr>"

definition SetEncryptor :: "Encryptor \<Rightarrow> 'fs BuffetConfig \<Rightarrow> 'fs BuffetConfig" where
  "SetEncryptor e config = config\<lparr>bc_encryptor := e\<rparr>"

definition SetFileIO :: "'fs FileIO \<Rightarrow> 'fs BuffetConfig \<Rightarrow> 'fs BuffetConfig" where
  "SetFileIO io config = config\<lparr>bc_file_io := io\<rparr>"

text \<open>The two platforms' factories; the keystore and Base64 are not in the repository.\<close>

definition CreateDefaultEncryptor_keystore ::
    "(string \<Rightarrow> string \<Rightarrow> string option) \<Rightarrow> (string \<Rightarrow> string \<Rightarrow> string option) \<Rightarrow> Encryptor" where
  "CreateDefaultEncryptor_keystore encrypt decrypt = KeystoreEncryptor encrypt decrypt"

definition CreateDefaultEncryptor_fake ::
    "(string \<Rightarrow> string) \<Rightarrow> (string \<Rightarrow> string option) \<Rightarrow> Encryptor" where
  "CreateDefaultEncryptor_fake Base64Encode Base64Decode = FakeEncryptor Base64Encode Base64Decode"

text \<open>The methods, on the object; an injected encryptor or file layer is the one they use.\<close>

definition config_save :: "(string \<Rightarrow> string \<Rightarrow> string) \<Rightarrow> 'fs BuffetConfig \<Rightarrow> string \<Rightarrow> string \<Rightarrow>
    nat option \<Rightarrow> 'fs \<Rightarrow> 'fs \<times> (nat \<times> weave_error_ptr) list" where
  "config_save insert_ext config = SaveSettings (bc_file_io config) (bc_encryptor config) insert_ext (bc_options config)"

definition config_load :: "(string \<Rightarrow> string \<Rightarrow> string) \<Rightarrow> 'fs BuffetConfig \<Rightarrow> string \<Rightarrow> 'fs \<Rightarrow> string \<times> 'fs" where
  "config_load insert_ext config = LoadSettings (bc_file_io config) (bc_encryptor config) insert_ext (bc_options config)"

section \<open>The storage over the daemon's life\<close>

datatype store_event =
    StoreSave string string
  | StoreLoad string
  | StoreRestart

text \<open>
  A load of settings that do not decrypt saves too: it calls \<open>SaveSettings\<close> on the main
  settings, with the name as the settings and without a callback.  The history has such a save with
  the error a callback would have got.
\<close>

definition save_of_load :: "(string \<Rightarrow> string \<Rightarrow> string) \<Rightarrow> 'fs BuffetConfig \<Rightarrow> string \<Rightarrow> 'fs \<Rightarrow>
    (string \<times> string \<times> weave_error_ptr) list" where
  "save_of_load insert_ext config name fs =
     (case ReadFile (bc_file_io config) (CreatePath insert_ext (bc_options config) name) fs of
        None \<Rightarrow> []
      | Some blob \<Rightarrow>
          (case DecryptWithAuthentication (bc_encryptor config) blob of
             None \<Rightarrow> map (\<lambda>(_, error). ('''', name, error)) (snd (config_save insert_ext config '''' name (Some 0) fs))
           | Some _ \<Rightarrow> []))"

text \<open>
  The files, the object, what each save reported to its callback, and all saves, those of the loads
  included.
\<close>

record 'fs storage =
  st_config :: "'fs BuffetConfig"
  st_files :: 'fs
  st_reports :: "(string \<times> string \<times> weave_error_ptr) list"
  st_saves :: "(string \<times> string \<times> weave_error_ptr) list"

fun store_step :: "(string \<Rightarrow> string \<Rightarrow> string) \<Rightarrow> 'fs BuffetConfig \<Rightarrow> 'fs storage \<Rightarrow> store_event \<Rightarrow> 'fs storage" where
  "store_step insert_ext fresh S (StoreSave name settings) =
     (case config_save insert_ext (st_config S) name settings (Some 0) (st_files S) of
        (fs, posted) \<Rightarrow>
          (let reports = map (\<lambda>(_, error). (name, settings, error)) posted
           in S\<lparr>st_files := fs, st_reports := st_reports S @ reports, st_saves := st_saves S @ reports\<rparr>))"
| "store_step insert_ext fresh S (StoreLoad name) =
     S\<lparr>st_files := snd (config_load insert_ext (st_config S) name (st_files S)),
       st_saves := st_saves S @ save_of_load insert_ext (st_config S) name (st_files S)\<rparr>"
| "store_step insert_ext fresh S StoreRestart = S\<lparr>st_config := fresh\<rparr>"

definition store_run :: "(string \<Rightarrow> string \<Rightarrow> string) \<Rightarrow> 'fs BuffetConfig \<Rightarrow> store_event list \<Rightarrow> 'fs \<Rightarrow> 'fs storage" where
  "store_run insert_ext fresh es fs =
     foldl (store_step insert_ext fresh)
       \<lparr>st_config = fresh, st_files = fs, st_reports = [], st_saves = []\<rparr> es"

text \<open>The last settings whose save under a path reported no error.\<close>

definition last_saved :: "(string \<Rightarrow> string \<Rightarrow> string) \<Rightarrow> config_options \<Rightarrow> (string \<times> string \<times> weave_error_ptr) list \<Rightarrow>
    string \<Rightarrow> string option" where
  "last_saved insert_ext opts reports name =
     map_of (map (\<lambda>(n, settings, _). (CreatePath insert_ext opts n, settings))
              (filter (\<lambda>(_, _, error). error = []) (rev reports)))
       (CreatePath insert_ext opts name)"

lemma last_saved_snoc:
  "last_saved insert_ext opts (reports @ [(n, settings, error)]) name =
     (if error = [] \<and> CreatePath insert_ext opts n = CreatePath insert_ext opts name then Some settings
      else last_saved insert_ext opts reports name)"
  "last_saved insert_ext opts [] name = None"
  by (simp_all add: last_saved_def)

section \<open>The storage is a map\<close>

text \<open>
  The plain text of a file: none if it does not decrypt, nothing if there is no file.  A load gives
  the plain text and changes nothing; without one it gives nothing and saves the name as the main
  settings.
\<close>

definition content :: "'fs FileIO \<Rightarrow> Encryptor \<Rightarrow> string \<Rightarrow> 'fs \<Rightarrow> string option" where
  "content io enc path fs =
     (case ReadFile io path fs of None \<Rightarrow> Some '''' | Some blob \<Rightarrow> DecryptWithAuthentication enc blob)"

lemma load_content:
  "LoadSettings io enc insert_ext opts name fs =
     (case content io enc (CreatePath insert_ext opts name) fs of
        Some plain \<Rightarrow> (plain, fs)
      | None \<Rightarrow> ('''', fst (SaveSettings io enc insert_ext opts '''' name None fs)))"
  by (auto simp: content_def LoadSettings_def split: option.splits)

lemma save_of_load_content:
  "save_of_load insert_ext (new_BuffetConfig enc io opts) name fs =
     (case content io enc (CreatePath insert_ext opts name) fs of
        Some plain \<Rightarrow> []
      | None \<Rightarrow> map (\<lambda>(_, error). ('''', name, error))
                   (snd (SaveSettings io enc insert_ext opts '''' name (Some 0) fs)))"
  by (auto simp: content_def save_of_load_def config_save_def new_BuffetConfig_def split: option.splits)

lemma save_without_callback:
  "fst (SaveSettings io enc insert_ext opts n settings None fs) =
   fst (SaveSettings io enc insert_ext opts n settings (Some cb) fs)"
  by (simp add: SaveSettings_def Let_def split: option.split prod.split)

text \<open>What a path holds: the last settings saved under it, or what was there at first.\<close>

definition store_inv :: "'fs FileIO \<Rightarrow> Encryptor \<Rightarrow> (string \<Rightarrow> string \<Rightarrow> string) \<Rightarrow> config_options \<Rightarrow> 'fs \<Rightarrow>
    'fs storage \<Rightarrow> bool" where
  "store_inv io enc insert_ext opts fs0 S \<longleftrightarrow> st_config S = new_BuffetConfig enc io opts \<and>
     (\<forall>name. content io enc (CreatePath insert_ext opts name) (st_files S) =
        (case last_saved insert_ext opts (st_saves S) name of
           Some settings \<Rightarrow> Some settings
         | None \<Rightarrow> content io enc (CreatePath insert_ext opts name) fs0)) \<and>
     (\<forall>name. CreatePath insert_ext opts name \<noteq> CreatePath insert_ext opts '''' \<longrightarrow>
        last_saved insert_ext opts (st_saves S) name = last_saved insert_ext opts (st_reports S) name) \<and>
     ((\<forall>name. content io enc (CreatePath insert_ext opts name) fs0 \<noteq> None) \<longrightarrow> st_saves S = st_reports S)"

fun encrypts :: "Encryptor \<Rightarrow> store_event \<Rightarrow> bool" where
  "encrypts enc (StoreSave name settings) = (EncryptWithAuthentication enc settings \<noteq> None)"
| "encrypts enc (StoreLoad name) = (EncryptWithAuthentication enc name \<noteq> None)"
| "encrypts enc StoreRestart = True"

text \<open>Over any file layer and encryptor that keep their contracts.\<close>

context config_storage begin

lemma save_content:
  assumes "reliable" and "sound" and "EncryptWithAuthentication enc settings \<noteq> None"
    and "SaveSettings io enc insert_ext opts n settings (Some cb) fs = (fs', posted)"
  shows "\<exists>error. posted = [(cb, error)] \<and>
    (\<forall>name. content io enc (CreatePath insert_ext opts name) fs' =
       (if error = [] \<and> CreatePath insert_ext opts n = CreatePath insert_ext opts name then Some settings
        else content io enc (CreatePath insert_ext opts name) fs))"
proof -
  obtain error where posted: "posted = [(cb, error)]"
    using assms(4) by (auto simp: SaveSettings_def Let_def split: option.splits prod.splits)
  note save = assms(4) [unfolded posted]
  obtain cipher where cipher: "EncryptWithAuthentication enc settings = Some cipher" using assms(3) by blast
  then have plain: "DecryptWithAuthentication enc cipher = Some settings" using decrypt_encrypt assms(2) by blast
  have outcome: "error = [] \<and> ReadFile io (CreatePath insert_ext opts n) fs' = Some cipher \<or> error \<noteq> [] \<and> fs' = fs"
    using save_outcome [OF assms(1) save] cipher by auto
  have "content io enc (CreatePath insert_ext opts name) fs' =
      (if error = [] \<and> CreatePath insert_ext opts n = CreatePath insert_ext opts name then Some settings
       else content io enc (CreatePath insert_ext opts name) fs)" for name
  proof (cases "CreatePath insert_ext opts name = CreatePath insert_ext opts n")
    case True
    then show ?thesis using outcome plain by (auto simp: content_def)
  next
    case False
    from save_keeps_others [OF assms(1) False save] show ?thesis using False by (auto simp: content_def)
  qed
  then show ?thesis using posted by blast
qed

lemma store_inv_saved:
  assumes "reliable" and "sound" and "EncryptWithAuthentication enc settings \<noteq> None"
    and "SaveSettings io enc insert_ext opts n settings (Some 0) (st_files S) = (fs', posted)"
    and inv: "store_inv io enc insert_ext opts fs0 S"
    and S': "st_config S' = st_config S" "st_files S' = fs'"
      "st_saves S' = st_saves S @ map (\<lambda>(_, error). (n, settings, error)) posted"
      "st_reports S' = st_reports S @ (if told then map (\<lambda>(_, error). (n, settings, error)) posted else [])"
    and hidden: "\<not> told \<Longrightarrow> n = '''' \<and> (\<exists>name. content io enc (CreatePath insert_ext opts name) fs0 = None)"
  shows "store_inv io enc insert_ext opts fs0 S'"
proof -
  from save_content [OF assms(1-4)] obtain error where posted: "posted = [(0, error)]"
    and now: "\<And>name. content io enc (CreatePath insert_ext opts name) fs' =
       (if error = [] \<and> CreatePath insert_ext opts n = CreatePath insert_ext opts name then Some settings
        else content io enc (CreatePath insert_ext opts name) (st_files S))"
    by auto
  show ?thesis
    using inv hidden unfolding store_inv_def S' posted
    by (cases told) (auto simp: now last_saved_snoc)
qed

lemma store_step_inv:
  assumes "reliable" and "sound" and "encrypts enc e" and "store_inv io enc insert_ext opts fs0 S"
  shows "store_inv io enc insert_ext opts fs0 (store_step insert_ext (new_BuffetConfig enc io opts) S e)"
proof (cases e)
  case (StoreSave n settings)
  have config: "st_config S = new_BuffetConfig enc io opts" using assms(4) by (simp add: store_inv_def)
  obtain fs' posted where save: "SaveSettings io enc insert_ext opts n settings (Some 0) (st_files S) = (fs', posted)"
    by fastforce
  show ?thesis
    using assms(3) save StoreSave
    by (intro store_inv_saved [OF assms(1,2) _ save assms(4), where told = True])
      (simp_all add: config_save_def config new_BuffetConfig_def Let_def)
next
  case (StoreLoad n)
  have config: "st_config S = new_BuffetConfig enc io opts" using assms(4) by (simp add: store_inv_def)
  let ?S' = "store_step insert_ext (new_BuffetConfig enc io opts) S e"
  have S': "?S' = S\<lparr>st_files := snd (LoadSettings io enc insert_ext opts n (st_files S)),
      st_saves := st_saves S @ save_of_load insert_ext (new_BuffetConfig enc io opts) n (st_files S)\<rparr>"
    by (simp add: StoreLoad config_load_def config) (simp add: new_BuffetConfig_def)
  show ?thesis
  proof (cases "content io enc (CreatePath insert_ext opts n) (st_files S)")
    case (Some plain)
    then have "?S' = S" by (simp add: S' load_content save_of_load_content)
    then show ?thesis using assms(4) by simp
  next
    case None
    then have bad: "content io enc (CreatePath insert_ext opts n) fs0 = None"
      using assms(4) by (auto simp: store_inv_def split: option.splits)
    obtain fs' posted where save: "SaveSettings io enc insert_ext opts '''' n (Some 0) (st_files S) = (fs', posted)"
      by fastforce
    show ?thesis
      unfolding S'
      using assms(3) StoreLoad bad None save save_without_callback [of io enc insert_ext opts "''''" n "st_files S" 0]
      by (intro store_inv_saved [OF assms(1,2) _ save assms(4), where told = False])
        (auto simp: load_content save_of_load_content)
  qed
next
  case StoreRestart
  then show ?thesis using assms(4) by (simp add: store_inv_def)
qed

lemma store_run_inv:
  assumes "reliable" and "sound" and "list_all (encrypts enc) es"
  shows "store_inv io enc insert_ext opts fs (store_run insert_ext (new_BuffetConfig enc io opts) es fs)"
proof -
  have "store_inv io enc insert_ext opts fs S \<Longrightarrow> list_all (encrypts enc) es \<Longrightarrow>
      store_inv io enc insert_ext opts fs (foldl (store_step insert_ext (new_BuffetConfig enc io opts)) S es)" for S
    by (induction es arbitrary: S) (simp_all add: store_step_inv [OF assms(1,2)])
  moreover have "store_inv io enc insert_ext opts fs
      \<lparr>st_config = new_BuffetConfig enc io opts, st_files = fs, st_reports = [], st_saves = []\<rparr>"
    by (simp add: store_inv_def last_saved_snoc)
  ultimately show ?thesis using assms(3) by (simp add: store_run_def)
qed

end

section \<open>Properties\<close>

text \<open>The storage of a daemon built for a keystore, from what was in the files when it first ran.\<close>

definition daemon_config ::
    "(string \<Rightarrow> string \<Rightarrow> string option) \<Rightarrow> (string \<Rightarrow> string \<Rightarrow> string option) \<Rightarrow>
     (string \<Rightarrow> 'fs \<Rightarrow> string option) \<Rightarrow> (string \<Rightarrow> string \<Rightarrow> 'fs \<Rightarrow> 'fs \<times> bool) \<Rightarrow> config_options \<Rightarrow> 'fs BuffetConfig" where
  "daemon_config encrypt decrypt rd wr opts =
     new_BuffetConfig (CreateDefaultEncryptor_keystore encrypt decrypt) (DefaultFileIO rd wr) opts"

text \<open>
  Property C20.  The settings storage is a map that survives everything but a keystore that cannot
  encrypt: after any run of saves and loads, under any names, from any files, with failing writes and
  daemon restarts, a load gives the last settings whose save under that path succeeded, or what was
  there at first, and changes nothing.  The one exception is a file that did not decrypt at first and
  was not saved since: its load gives nothing and saves its name as the main settings.  Only such
  loads save without being asked to, and only under the main path: what is stored under every other
  path is what a save with a callback stored there, and if every file decrypted at first all saves are.
\<close>

theorem settings_storage_is_a_map:
  assumes "atomic_files rd wr" and "keystore_sound encrypt decrypt"
    and "config = daemon_config encrypt decrypt rd wr opts"
    and "\<forall>settings. encrypt kBuffetKeyName settings \<noteq> None"
    and "S = store_run insert_ext config es fs"
  shows "config_load insert_ext (st_config S) name (st_files S) =
      (case last_saved insert_ext opts (st_saves S) name of
         Some settings \<Rightarrow> (settings, st_files S)
       | None \<Rightarrow>
           (case rd (CreatePath insert_ext opts name) fs of
              None \<Rightarrow> ('''', st_files S)
            | Some blob \<Rightarrow>
                (case decrypt kBuffetKeyName blob of
                   Some settings \<Rightarrow> (settings, st_files S)
                 | None \<Rightarrow> ('''', fst (config_save insert_ext config '''' name None (st_files S)))))) \<and>
    (CreatePath insert_ext opts name \<noteq> opt_settings opts \<longrightarrow>
       last_saved insert_ext opts (st_saves S) name = last_saved insert_ext opts (st_reports S) name) \<and>
    ((\<forall>path blob. rd path fs = Some blob \<longrightarrow> decrypt kBuffetKeyName blob \<noteq> None) \<longrightarrow>
       st_saves S = st_reports S)"
proof -
  let ?io = "DefaultFileIO rd wr" and ?enc = "KeystoreEncryptor encrypt decrypt"
  have config: "config = new_BuffetConfig ?enc ?io opts"
    by (simp add: assms(3) daemon_config_def CreateDefaultEncryptor_keystore_def)
  have "encrypts ?enc e" for e
    using assms(4) by (cases e) (simp_all add: KeystoreEncryptor_def)
  then have "list_all (encrypts ?enc) es" by (simp add: list.pred_set)
  from daemon_storage.store_run_inv [OF assms(1,2) this]
  have inv: "store_inv ?io ?enc insert_ext opts fs S" by (simp add: assms(5) config)
  have first: "content ?io ?enc path fs =
      (case rd path fs of None \<Rightarrow> Some '''' | Some blob \<Rightarrow> decrypt kBuffetKeyName blob)" for path
    by (simp add: content_def DefaultFileIO_def KeystoreEncryptor_def split: option.split)
  have load: "config_load insert_ext (st_config S) name (st_files S) = LoadSettings ?io ?enc insert_ext opts name (st_files S)"
    and save: "config_save insert_ext config = SaveSettings ?io ?enc insert_ext opts"
    using inv by (simp_all add: store_inv_def config_load_def config_save_def config new_BuffetConfig_def fun_eq_iff)
  have "config_load insert_ext (st_config S) name (st_files S) =
      (case last_saved insert_ext opts (st_saves S) name of
         Some settings \<Rightarrow> (settings, st_files S)
       | None \<Rightarrow>
           (case rd (CreatePath insert_ext opts name) fs of
              None \<Rightarrow> ('''', st_files S)
            | Some blob \<Rightarrow>
                (case decrypt kBuffetKeyName blob of
                   Some settings \<Rightarrow> (settings, st_files S)
                 | None \<Rightarrow> ('''', fst (config_save insert_ext config '''' name None (st_files S))))))"
    using inv unfolding load save load_content store_inv_def by (simp add: first split: option.split)
  moreover have "CreatePath insert_ext opts name \<noteq> opt_settings opts \<Longrightarrow>
      last_saved insert_ext opts (st_saves S) name = last_saved insert_ext opts (st_reports S) name"
    using inv by (simp add: store_inv_def CreatePath_def)
  moreover have "st_saves S = st_reports S"
    if "\<forall>path blob. rd path fs = Some blob \<longrightarrow> decrypt kBuffetKeyName blob \<noteq> None"
    using inv that by (auto simp: store_inv_def first split: option.splits)
  ultimately show ?thesis by blast
qed

text \<open>The settings of \<open>privet\<close> are damaged, the main settings and those of \<open>config\<close> are not.\<close>

definition sample_files :: "string \<rightharpoonup> string" where
  "sample_files = [''reg_info'' \<mapsto> ''#{0}'', ''reg_info.privet'' \<mapsto> ''garbage'', ''reg_info.config'' \<mapsto> ''#{1}'']"

definition sample_saves :: "store_event list" where
  "sample_saves = [StoreSave ''config'' ''{2}'', StoreLoad ''privet'', StoreRestart]"

theorem settings_storage_is_a_map_witness:
  "let config = daemon_config sample_encrypt sample_decrypt sample_read sample_write sample_options;
       S = store_run (@) config sample_saves sample_files
   in fst (config_load (@) (st_config S) ''config'' (st_files S)) = ''{2}'' \<and>
      fst (config_load (@) (st_config S) '''' (st_files S)) = ''privet'' \<and>
      config_load (@) (st_config S) ''privet'' (st_files S) =
        ('''', fst (config_save (@) config '''' ''privet'' None (st_files S)))"
proof -
  let ?config = "daemon_config sample_encrypt sample_decrypt sample_read sample_write sample_options"
  let ?S = "store_run (@) ?config sample_saves sample_files"
  have "st_saves ?S = [(''config'', ''{2}'', []), ('''', ''privet'', [])]"
    by (simp add: store_run_def sample_saves_def config_save_def config_load_def daemon_config_def save_of_load_def
        new_BuffetConfig_def CreateDefaultEncryptor_keystore_def SaveSettings_def LoadSettings_def DefaultFileIO_def
        KeystoreEncryptor_def CreatePath_def sample_options_def sample_write_def sample_read_def sample_encrypt_def
        sample_decrypt_def sample_files_def Let_def)
  then have saved: "last_saved (@) sample_options (st_saves ?S) ''config'' = Some ''{2}''"
    "last_saved (@) sample_options (st_saves ?S) '''' = Some ''privet''"
    "last_saved (@) sample_options (st_saves ?S) ''privet'' = None"
    by (simp_all add: last_saved_def CreatePath_def sample_options_def)
  have damaged: "sample_read (CreatePath (@) sample_options ''privet'') sample_files = Some ''garbage''"
    "sample_decrypt kBuffetKeyName ''garbage'' = None"
    by (simp_all add: sample_read_def sample_files_def CreatePath_def sample_options_def sample_decrypt_def)
  have "\<forall>settings. sample_encrypt kBuffetKeyName settings \<noteq> None" by (simp add: sample_encrypt_def)
  note storage = settings_storage_is_a_map [OF sample_storage_ok refl this refl, of "(@)" sample_options
      sample_saves sample_files, THEN conjunct1]
  show ?thesis
    using storage [of "''config''"] storage [of "''''"] storage [of "''privet''"] saved damaged by (simp add: Let_def)
qed

end
