(* ===== verification/AP_Manager_Client.thy ===== *)
theory AP_Manager_Client
  imports Prelude
begin

text \<open>
  The soft access point used for bootstrapping (\<open>src/buffet/ap_manager_client.cc\<close>).  The
  D-Bus daemon apmanager is the environment: its signals are the events, its replies are part of
  them.  A proxy object belongs to the object manager proxy that created it, and the client keeps
  raw pointers to such proxies; a pointer is modelled with the number of its owner, so that using
  one after its owner was replaced is a visible fault.  \<open>present\<close> is what apmanager
  itself holds for this client: the services it created and that are not removed yet.
\<close>

section \<open>State\<close>

record proxy_ptr =
  owner :: nat
  object_path :: string

text \<open>The D-Bus calls the client makes, in the order it makes them.\<close>

datatype ap_call =
    CallCreateService "string option"
  | CallRemoveService string bool
  | CallSetSsid string string
  | CallServiceStart string

record ap_client =
  object_manager_proxy :: "nat option"
  ap_manager_proxy :: "proxy_ptr option"
  ap_service_path :: string
  ap_service_proxy :: "proxy_ptr option"
  ap_ssid :: string
  ap_next_owner :: nat
  ap_calls :: "ap_call list"
  present :: "string set"

definition new_ApManagerClient :: ap_client where
  "new_ApManagerClient =
     \<lparr>object_manager_proxy = None, ap_manager_proxy = None, ap_service_path = '''',
      ap_service_proxy = None, ap_ssid = '''', ap_next_owner = 0, ap_calls = [], present = {}\<rparr>"

definition ap_live :: "ap_client \<Rightarrow> proxy_ptr \<Rightarrow> bool" where
  "ap_live s p \<longleftrightarrow> object_manager_proxy s = Some (owner p)"

text \<open>A call through a proxy pointer: it must not be null and its owner must exist.\<close>

definition through ::
    "string \<Rightarrow> ap_client \<Rightarrow> proxy_ptr option \<Rightarrow> (proxy_ptr \<Rightarrow> 'a result) \<Rightarrow> 'a result" where
  "through what s ptr k =
     (case ptr of
        None \<Rightarrow> Inl (NullDeref what)
      | Some p \<Rightarrow> if ap_live s p then k p else Inl (DanglingUse what))"

definition ap_call :: "ap_call \<Rightarrow> ap_client \<Rightarrow> ap_client" where
  "ap_call c s = s\<lparr>ap_calls := ap_calls s @ [c]\<rparr>"

section \<open>Operations\<close>

text \<open>
  \<open>valid\<close> is \<open>dbus::ObjectPath::IsValid\<close>.  \<open>removed\<close> is apmanager's
  verdict on a \<open>RemoveService\<close> call; a failure is only logged.
\<close>

definition ApManagerClient_Start ::
    "(string \<Rightarrow> bool) \<Rightarrow> string \<Rightarrow> ap_client \<Rightarrow> ap_client" where
  "ApManagerClient_Start valid new_ssid s =
     (if valid (ap_service_path s) then s
      else s\<lparr>ap_ssid := new_ssid,
             object_manager_proxy := Some (ap_next_owner s),
             ap_next_owner := ap_next_owner s + 1\<rparr>)"

definition ApManagerClient_RemoveService ::
    "(string \<Rightarrow> bool) \<Rightarrow> bool \<Rightarrow> string \<Rightarrow> ap_client \<Rightarrow> ap_client result" where
  "ApManagerClient_RemoveService valid removed path s =
     check (valid path) ''object_path.IsValid()''
       (through ''manager_proxy_'' s (ap_manager_proxy s)
          (\<lambda>_. Inr ((ap_call (CallRemoveService path removed) s)
                    \<lparr>present := (if removed then present s - {path} else present s)\<rparr>)))"

definition ApManagerClient_Stop ::
    "(string \<Rightarrow> bool) \<Rightarrow> bool \<Rightarrow> ap_client \<Rightarrow> ap_client result" where
  "ApManagerClient_Stop valid removed s =
     bind_result
       (if ap_manager_proxy s \<noteq> None \<and> valid (ap_service_path s)
        then ApManagerClient_RemoveService valid removed (ap_service_path s) s
        else Inr s)
       (\<lambda>s. Inr (s\<lparr>ap_service_path := '''', ap_service_proxy := None, ap_manager_proxy := None,
                   object_manager_proxy := None, ap_ssid := ''''\<rparr>))"

text \<open>The destructor.\<close>

definition destroy_ApManagerClient ::
    "(string \<Rightarrow> bool) \<Rightarrow> bool \<Rightarrow> ap_client \<Rightarrow> ap_client result" where
  "destroy_ApManagerClient valid removed s = ApManagerClient_Stop valid removed s"

text \<open>
  \<open>created\<close> is apmanager's answer to \<open>CreateService\<close>: the path of the new service,
  or a failure, which leaves \<open>service_path_\<close> as it was.
\<close>

definition AP_OnManagerAdded ::
    "(string \<Rightarrow> bool) \<Rightarrow> string option \<Rightarrow> proxy_ptr \<Rightarrow> ap_client \<Rightarrow> ap_client" where
  "AP_OnManagerAdded valid created manager_proxy s =
     (let s = s\<lparr>ap_manager_proxy := Some manager_proxy\<rparr>
      in if valid (ap_service_path s) then s
         else (let s = ap_call (CallCreateService created) s
               in case created of
                    None \<Rightarrow> s
                  | Some path \<Rightarrow> s\<lparr>ap_service_path := path, present := insert path (present s)\<rparr>))"

text \<open>
  \<open>config\<close> is the configuration object of the service if the object manager proxy has a
  proxy for it.
\<close>

definition AP_OnServiceAdded ::
    "(string \<Rightarrow> bool) \<Rightarrow> bool \<Rightarrow> string option \<Rightarrow> proxy_ptr \<Rightarrow> ap_client \<Rightarrow> ap_client result" where
  "AP_OnServiceAdded valid removed config service_proxy s =
     (if object_path service_proxy \<noteq> ap_service_path s
      then ApManagerClient_RemoveService valid removed (object_path service_proxy) s
      else
        (let s = s\<lparr>ap_service_proxy := Some service_proxy\<rparr>
         in if object_manager_proxy s = None then Inl (NullDeref ''object_manager_proxy_'')
            else case config of
                   None \<Rightarrow> Inl (NullDeref ''config_proxy'')
                 | Some c \<Rightarrow> Inr (ap_call (CallSetSsid c (ap_ssid s)) s)))"

definition OnSsidSet :: "bool \<Rightarrow> ap_client \<Rightarrow> ap_client result" where
  "OnSsidSet success s =
     (if \<not> success \<or> ap_service_proxy s = None then Inr s
      else through ''service_proxy_'' s (ap_service_proxy s)
             (\<lambda>p. Inr (ap_call (CallServiceStart (object_path p)) s)))"

definition AP_OnServiceRemoved :: "string \<Rightarrow> ap_client \<Rightarrow> ap_client" where
  "AP_OnServiceRemoved path s =
     (if path \<noteq> ap_service_path s then s
      else s\<lparr>ap_service_path := '''', ap_service_proxy := None\<rparr>)"

definition AP_OnManagerRemoved ::
    "(string \<Rightarrow> bool) \<Rightarrow> bool \<Rightarrow> ap_client \<Rightarrow> ap_client result" where
  "AP_OnManagerRemoved valid removed s =
     ApManagerClient_Stop valid removed (s\<lparr>ap_manager_proxy := None\<rparr>)"

section \<open>Events\<close>

text \<open>
  The object manager's callbacks die with it, so its signals reach the client only while it has
  an object manager proxy, and the proxies they carry belong to it.  The D-Bus library delivers
  no message that carries an invalid object path.  The reply to the request to
  set the SSID is held weakly by the client alone and may come at any time.  When apmanager's
  manager goes, its services go with it.
\<close>

datatype ap_event =
    ApStart string
  | ApStop bool
  | ManagerAdded string "string option"
  | ServiceAdded string "string option" bool
  | SsidReply bool
  | ServiceRemoved string
  | ManagerRemoved bool

definition deliver ::
    "(string \<Rightarrow> bool) \<Rightarrow> string list \<Rightarrow> ap_client \<Rightarrow> (nat \<Rightarrow> ap_client result) \<Rightarrow> ap_client result" where
  "deliver valid paths s k =
     (case object_manager_proxy s of
        None \<Rightarrow> Inr s
      | Some g \<Rightarrow> if list_all valid paths then k g else Inr s)"

fun ap_step :: "(string \<Rightarrow> bool) \<Rightarrow> ap_client \<Rightarrow> ap_event \<Rightarrow> ap_client result" where
  "ap_step valid s (ApStart x) = Inr (ApManagerClient_Start valid x s)"
| "ap_step valid s (ApStop removed) = ApManagerClient_Stop valid removed s"
| "ap_step valid s (ManagerAdded path created) =
     deliver valid (path # (case created of None \<Rightarrow> [] | Some c \<Rightarrow> [c])) s
       (\<lambda>g. Inr (AP_OnManagerAdded valid created \<lparr>owner = g, object_path = path\<rparr> s))"
| "ap_step valid s (ServiceAdded path config removed) =
     deliver valid [path] s
       (\<lambda>g. AP_OnServiceAdded valid removed config \<lparr>owner = g, object_path = path\<rparr> s)"
| "ap_step valid s (SsidReply success) = OnSsidSet success s"
| "ap_step valid s (ServiceRemoved path) =
     (let s = s\<lparr>present := present s - {path}\<rparr>
      in deliver valid [path] s (\<lambda>_. Inr (AP_OnServiceRemoved path s)))"
| "ap_step valid s (ManagerRemoved removed) =
     (let s = s\<lparr>present := {}\<rparr>
      in deliver valid [] s (\<lambda>_. AP_OnManagerRemoved valid removed s))"

lemmas ap_ops =
  ApManagerClient_Start_def ApManagerClient_RemoveService_def ApManagerClient_Stop_def
  AP_OnManagerAdded_def AP_OnServiceAdded_def OnSsidSet_def AP_OnServiceRemoved_def
  AP_OnManagerRemoved_def deliver_def through_def ap_call_def Let_def

section \<open>Invariant\<close>

text \<open>
  While the client has a service its manager proxy is alive, and a service proxy is only kept for
  that service, after the SSID was sent to its configuration.  What apmanager holds is the
  client's service and the services it failed to remove.
\<close>

definition removal_failed :: "ap_client \<Rightarrow> string set" where
  "removal_failed s = {p. CallRemoveService p False \<in> set (ap_calls s)}"

definition own_service :: "(string \<Rightarrow> bool) \<Rightarrow> ap_client \<Rightarrow> string set" where
  "own_service valid s = (if valid (ap_service_path s) then {ap_service_path s} else {})"

definition ap_inv :: "(string \<Rightarrow> bool) \<Rightarrow> ap_client \<Rightarrow> bool" where
  "ap_inv valid s \<longleftrightarrow>
     (valid (ap_service_path s) \<longrightarrow> (\<exists>p. ap_manager_proxy s = Some p \<and> ap_live s p)) \<and>
     (\<forall>p. ap_service_proxy s = Some p \<longrightarrow>
        ap_live s p \<and> object_path p = ap_service_path s \<and> valid (ap_service_path s) \<and>
        (\<exists>c. CallSetSsid c (ap_ssid s) \<in> set (ap_calls s))) \<and>
     own_service valid s \<subseteq> present s \<and>
     present s \<subseteq> own_service valid s \<union> removal_failed s"

lemmas ap_inv_defs = ap_inv_def own_service_def removal_failed_def ap_live_def

lemma ap_inv_new: "\<not> valid '''' \<Longrightarrow> ap_inv valid new_ApManagerClient"
  by (simp add: ap_inv_defs new_ApManagerClient_def)

lemma ap_inv_Start:
  assumes "ap_inv valid s"
  shows "ap_inv valid (ApManagerClient_Start valid x s)"
  using assms by (auto simp: ap_inv_defs ap_ops split: if_splits)

lemma ap_Stop_returns:
  assumes "ap_inv valid s"
  shows "\<exists>s'. ApManagerClient_Stop valid removed s = Inr s'"
  using assms by (auto simp: ap_inv_defs ap_ops split: option.splits)

lemma ap_Stop_result:
  assumes inv: "ap_inv valid s" and stop: "ApManagerClient_Stop valid removed s = Inr s'"
  shows "ap_calls s' = ap_calls s @ (if valid (ap_service_path s)
             then [CallRemoveService (ap_service_path s) removed] else [])"
    and "present s' = present s - (if removed then own_service valid s else {})"
    and "ap_service_path s' = ''''" "ap_service_proxy s' = None" "ap_manager_proxy s' = None"
    and "object_manager_proxy s' = None" "ap_ssid s' = ''''"
  using inv stop by (auto simp: ap_inv_defs ap_ops split: if_splits option.splits)

lemma ap_inv_Stop:
  assumes "\<not> valid ''''" and inv: "ap_inv valid s"
    and stop: "ApManagerClient_Stop valid removed s = Inr s'"
  shows "ap_inv valid s'"
  using assms(1) inv ap_Stop_result [OF inv stop]
  by (auto simp: ap_inv_defs split: if_splits)

lemma ap_inv_ManagerAdded:
  assumes "ap_inv valid s" "object_manager_proxy s = Some g"
    and "\<forall>c. created = Some c \<longrightarrow> valid c"
  shows "ap_inv valid (AP_OnManagerAdded valid created \<lparr>owner = g, object_path = path\<rparr> s)"
  using assms by (auto simp: ap_inv_defs ap_ops split: if_splits option.splits)

lemma ap_inv_ServiceAdded:
  assumes "ap_inv valid s" "object_manager_proxy s = Some g" "valid path"
    and "AP_OnServiceAdded valid removed config \<lparr>owner = g, object_path = path\<rparr> s = Inr s'"
  shows "ap_inv valid s'"
  using assms by (auto simp: ap_inv_defs ap_ops split: if_splits option.splits)

lemma ap_inv_SsidReply:
  assumes "ap_inv valid s" "OnSsidSet success s = Inr s'"
  shows "ap_inv valid s'"
  using assms by (auto simp: ap_inv_defs ap_ops split: if_splits option.splits)

lemma ap_inv_ServiceRemoved:
  assumes "\<not> valid ''''" "ap_inv valid s" "object_manager_proxy s \<noteq> None"
  shows "ap_inv valid (AP_OnServiceRemoved path (s\<lparr>present := present s - {path}\<rparr>))"
  using assms by (auto simp: ap_inv_defs ap_ops split: if_splits)

section \<open>Runs\<close>

lemma ap_inv_gone:
  assumes "\<not> valid ''''" "ap_inv valid s" "ApManagerClient_Stop valid removed (s\<lparr>present := {}, ap_manager_proxy := None\<rparr>) = Inr s'"
  shows "ap_inv valid s'"
  using assms by (auto simp: ap_inv_defs ap_ops)

lemma ap_inv_step:
  assumes v: "\<not> valid ''''" and inv: "ap_inv valid s" and step: "ap_step valid s e = Inr s'"
  shows "ap_inv valid s'"
proof (cases e)
  case (ApStart x)
  then show ?thesis using ap_inv_Start [OF inv] step by auto
next
  case (ApStop removed)
  then show ?thesis using ap_inv_Stop [OF v inv] step by auto
next
  case (ManagerAdded path created)
  then show ?thesis
    using ap_inv_ManagerAdded [OF inv] inv step
    by (auto simp: deliver_def split: option.splits if_splits)
next
  case (ServiceAdded path config removed)
  then show ?thesis
    using ap_inv_ServiceAdded [OF inv] inv step
    by (auto simp: deliver_def split: option.splits if_splits)
next
  case (SsidReply success)
  then show ?thesis using ap_inv_SsidReply [OF inv] step by auto
next
  case (ServiceRemoved path)
  then show ?thesis using v inv step
    by (auto simp: ap_inv_defs ap_ops split: option.splits if_splits)
next
  case (ManagerRemoved removed)
  then show ?thesis using v inv step
    by (auto simp: ap_inv_defs ap_ops split: option.splits if_splits)
qed

interpretation ap: guarded_component
    "\<lambda>s. s = new_ApManagerClient" "ap_step valid" "\<lambda>s. \<not> valid '''' \<longrightarrow> ap_inv valid s"
  for valid
  by unfold_locales (auto intro: ap_inv_new ap_inv_step)

section \<open>Properties\<close>

text \<open>A pointer to the manager proxy that may be used.\<close>

definition manager_usable :: "ap_client \<Rightarrow> bool" where
  "manager_usable s \<longleftrightarrow> (\<exists>p. ap_manager_proxy s = Some p \<and> ap_live s p)"

text \<open>
  Property C27.  The client dies only while it handles an added service: of another client, when
  there is no usable manager proxy to remove it with (none yet, or one left over from an earlier
  start), or its own, when the object manager has no configuration object for it.  All other
  events are handled in every reachable state.
\<close>

theorem access_point_faults_exactly:
  assumes "\<not> valid ''''" and "run (ap_step valid) new_ApManagerClient es = Inr s"
  shows "(\<exists>f. ap_step valid s e = Inl f) \<longleftrightarrow>
     (\<exists>path config removed. e = ServiceAdded path config removed \<and> valid path \<and>
        object_manager_proxy s \<noteq> None \<and>
        (if path = ap_service_path s then config = None else \<not> manager_usable s))"
proof -
  have inv: "ap_inv valid s" using ap.inv_run [of _ valid es s] assms by blast
  show ?thesis
  proof (cases e)
    case (ApStop removed)
    then show ?thesis using ap_Stop_returns [OF inv, of removed] by auto
  next
    case (ManagerRemoved removed)
    then show ?thesis by (auto simp: ap_ops split: option.splits)
  next
    case (SsidReply success)
    then show ?thesis using inv by (auto simp: ap_inv_defs ap_ops split: option.splits)
  next
    case (ServiceAdded path config removed)
    then show ?thesis
      by (auto simp: ap_ops manager_usable_def ap_live_def check_def split: option.splits)
  qed (auto simp: ap_ops split: option.splits)
qed

lemma access_point_faults_exactly_witness:
  "(\<exists>f. ap_step (\<lambda>p. p \<noteq> '''')
      (ApManagerClient_Start (\<lambda>p. p \<noteq> '''') ''net'' new_ApManagerClient)
      (ServiceAdded ''/services/7'' (Some ''/c'') True) = Inl f)"
proof -
  have "run (ap_step (\<lambda>p. p \<noteq> '''')) new_ApManagerClient [ApStart ''net'']
      = Inr (ApManagerClient_Start (\<lambda>p. p \<noteq> '''') ''net'' new_ApManagerClient)"
    by simp
  from access_point_faults_exactly [OF _ this, of "ServiceAdded ''/services/7'' (Some ''/c'') True"]
  show ?thesis
    unfolding new_ApManagerClient_def ApManagerClient_Start_def manager_usable_def
    by (simp del: ap_step.simps add: ex_bool_eq)
qed

text \<open>
  Property C28.  No access point is forgotten: in every reachable state the services apmanager
  holds for the client are the one the client knows and those whose removal apmanager refused,
  and stopping the client returns, asks for the removal of the known one, and leaves only refused
  ones behind.
\<close>

theorem no_service_is_leaked:
  assumes "\<not> valid ''''" and "run (ap_step valid) new_ApManagerClient es = Inr s"
  shows "present s - removal_failed s \<subseteq> own_service valid s \<and>
     own_service valid s \<subseteq> present s \<and>
     (\<exists>s'. ApManagerClient_Stop valid removed s = Inr s' \<and>
        ap_calls s' = ap_calls s @ (if valid (ap_service_path s)
          then [CallRemoveService (ap_service_path s) removed] else []) \<and>
        present s' \<subseteq> removal_failed s' \<and> ap_service_path s' = '''' \<and> ap_ssid s' = '''' \<and>
        object_manager_proxy s' = None)"
proof -
  have inv: "ap_inv valid s" using ap.inv_run [of _ valid es s] assms by blast
  then have here: "present s - removal_failed s \<subseteq> own_service valid s" "own_service valid s \<subseteq> present s"
    by (auto simp: ap_inv_def)
  obtain s' where stop: "ApManagerClient_Stop valid removed s = Inr s'"
    using ap_Stop_returns [OF inv] by blast
  have "present s' \<subseteq> removal_failed s'"
    using ap_inv_Stop [OF assms(1) inv stop] ap_Stop_result(3) [OF inv stop] assms(1)
    by (auto simp: ap_inv_def own_service_def)
  with here stop ap_Stop_result [OF inv stop] show ?thesis by simp
qed

lemma no_service_is_leaked_witness:
  "present (case run (ap_step (\<lambda>p. p \<noteq> '''')) new_ApManagerClient
      [ApStart ''net'', ManagerAdded ''/manager'' (Some ''/services/1'')] of Inr s \<Rightarrow> s) = {''/services/1''}"
proof -
  obtain s where s: "run (ap_step (\<lambda>p. p \<noteq> '''')) new_ApManagerClient
      [ApStart ''net'', ManagerAdded ''/manager'' (Some ''/services/1'')] = Inr s"
    and facts: "ap_service_path s = ''/services/1''" "removal_failed s = {}"
    by (simp add: ap_ops new_ApManagerClient_def removal_failed_def)
  show ?thesis
    unfolding s using no_service_is_leaked [OF _ s] facts by (simp add: own_service_def subset_antisym)
qed

text \<open>
  Property C29.  Starting an access point works: from every reachable state without one, the
  start, the manager's appearance, the new service's appearance and the SSID's acceptance lead to
  exactly the calls create, set this SSID, start; and a second start changes nothing while the
  service exists, whatever SSID it names.
\<close>

theorem start_brings_the_access_point_up:
  assumes "\<not> valid ''''" and "run (ap_step valid) new_ApManagerClient es = Inr s"
    and "\<not> valid (ap_service_path s)" and "valid manager" "valid path"
  shows "\<exists>s'. run (ap_step valid) s [ApStart x, ManagerAdded manager (Some path),
             ServiceAdded path (Some c) r, SsidReply True] = Inr s' \<and>
           ap_calls s' = ap_calls s @ [CallCreateService (Some path), CallSetSsid c x, CallServiceStart path] \<and>
           ap_ssid s' = x \<and> ap_service_path s' = path \<and>
           ap_step valid s' (ApStart y) = Inr s'"
  using assms(3-5) by (simp add: ap_ops ap_live_def)

lemma start_brings_the_access_point_up_witness:
  "\<exists>s'. run (ap_step (\<lambda>p. p \<noteq> '''')) new_ApManagerClient
      [ApStart ''net'', ManagerAdded ''/m'' (Some ''/s/1''), ServiceAdded ''/s/1'' (Some ''/c'') True,
       SsidReply True] = Inr s' \<and>
     ap_calls s' = [CallCreateService (Some ''/s/1''), CallSetSsid ''/c'' ''net'', CallServiceStart ''/s/1''] \<and>
     ap_ssid s' = ''net'' \<and> ap_service_path s' = ''/s/1'' \<and>
     ap_step (\<lambda>p. p \<noteq> '''') s' (ApStart ''other'') = Inr s'"
  using start_brings_the_access_point_up
    [of "\<lambda>p. p \<noteq> ''''" "[]" new_ApManagerClient "''/m''" "''/s/1''" "''net''" "''/c''" True "''other''"]
  by (simp add: new_ApManagerClient_def del: ap_step.simps)

end
