(* ===== verification/Avahi_Mdns_Client.thy ===== *)
theory Avahi_Mdns_Client
  imports Prelude "HOL-Library.Multiset"
begin

text \<open>
  Publishing the privet service over mDNS (\<open>src/buffet/avahi_mdns_client.cc\<close>).  The
  Avahi library is a parameter: the functions the code calls on its entry group, and what such a
  group announces on the network.  \<open>avahi_documented\<close> collects what Avahi documents about
  them.  The publisher is shown to implement "what is announced is what was last requested".
\<close>

section \<open>Avahi\<close>

text \<open>A service as the network sees it: name, type, port and its text records.\<close>

type_synonym mdns_service = "string \<times> string \<times> 16 word \<times> string multiset"

record 'g avahi =
  string_list_new_from_array :: "string list \<Rightarrow> string list option"
  entry_group_reset :: "'g \<Rightarrow> 'g"
  entry_group_is_empty :: "'g \<Rightarrow> bool"
  entry_group_add_service :: "string \<Rightarrow> string \<Rightarrow> 16 word \<Rightarrow> string list \<Rightarrow> 'g \<Rightarrow> int \<times> 'g"
  entry_group_update_txt :: "string \<Rightarrow> string \<Rightarrow> string list \<Rightarrow> 'g \<Rightarrow> int \<times> 'g"
  entry_group_commit :: "'g \<Rightarrow> int \<times> 'g"
  announced :: "'g \<Rightarrow> mdns_service set"

definition avahi_documented :: "'g avahi \<Rightarrow> bool" where
  "avahi_documented av \<longleftrightarrow>
     (\<forall>g. entry_group_is_empty av (entry_group_reset av g)) \<and>
     (\<forall>g. announced av (entry_group_reset av g) = {}) \<and>
     (\<forall>n t p l g r g1 r2 g2.
        entry_group_is_empty av g \<longrightarrow> entry_group_add_service av n t p l g = (r, g1) \<longrightarrow> 0 \<le> r \<longrightarrow>
        entry_group_commit av g1 = (r2, g2) \<longrightarrow> 0 \<le> r2 \<longrightarrow> announced av g2 = {(n, t, p, mset l)}) \<and>
     (\<forall>n t p x l g r g1.
        announced av g = {(n, t, p, x)} \<longrightarrow> entry_group_update_txt av n t l g = (r, g1) \<longrightarrow> 0 \<le> r \<longrightarrow>
        announced av g1 = {(n, t, p, mset l)}) \<and>
     (\<forall>xs l. string_list_new_from_array av xs = Some l \<longrightarrow> mset l = mset xs)"

section \<open>State\<close>

text \<open>
  The constructor creates the poll thread, the client and the entry group, and checks each; an
  object without one of them does not exist.  The arguments say which of them Avahi created.
  While it creates its client Avahi already reports states, and \<open>OnAvahiClientStateUpdate\<close>
  runs before there is a group: nothing has been published then, so the callback returns at once
  (\<open>nothing_to_republish\<close>).  \<open>service_name_\<close> is a fresh GUID.
\<close>

record 'g mdns =
  prev_port :: "16 word"
  prev_service_type :: string
  service_name :: string
  txt_records :: "string list"
  entry_group :: 'g

definition new_AvahiMdnsClient :: "string \<Rightarrow> bool \<Rightarrow> bool \<Rightarrow> 'g option \<Rightarrow> 'g mdns result" where
  "new_AvahiMdnsClient guid new_poll new_client new_group =
     check new_poll ''thread_pool_''
      (check new_client ''client_''
        (case new_group of
           None \<Rightarrow> Inl (CheckFailed ''group_'')
         | Some g \<Rightarrow> Inr \<lparr>prev_port = 0, prev_service_type = '''', service_name = guid,
                          txt_records = [], entry_group = g\<rparr>))"

section \<open>Operations\<close>

definition privet_type :: string where
  "privet_type = ''_privet._tcp''"

text \<open>The text records reach Avahi as C strings; an empty vector is a null list.\<close>

definition make_txt_list :: "'g avahi \<Rightarrow> string list \<Rightarrow> string list result" where
  "make_txt_list av txt =
     (if txt = [] then Inr []
      else case string_list_new_from_array av (map c_str txt) of
             None \<Rightarrow> Inl (CheckFailed ''txt_list'')
           | Some l \<Rightarrow> Inr l)"

definition PublishService ::
    "'g avahi \<Rightarrow> string \<Rightarrow> 16 word \<Rightarrow> string list \<Rightarrow> 'g mdns \<Rightarrow> 'g mdns result" where
  "PublishService av service_type port txt s =
     check (service_type = privet_type) ''_privet._tcp == service_type''
      (if prev_port s = port \<and> prev_service_type s = service_type \<and> txt_records s = txt then Inr s
       else
         bind_result (make_txt_list av txt) (\<lambda>txt_list.
           let s = s\<lparr>txt_records := txt\<rparr>
           in if prev_port s = port \<and> prev_service_type s = service_type
              then (case entry_group_update_txt av (c_str (service_name s)) (c_str service_type) txt_list
                           (entry_group s) of
                      (ret, g) \<Rightarrow> check (0 \<le> ret) ''ret >= 0'' (Inr (s\<lparr>entry_group := g\<rparr>)))
              else
                (let s = s\<lparr>prev_port := port, prev_service_type := service_type\<rparr>;
                     g = entry_group_reset av (entry_group s)
                 in check (entry_group_is_empty av g) ''avahi_entry_group_is_empty''
                     (case entry_group_add_service av (c_str (service_name s)) (c_str service_type) port
                             txt_list g of
                        (ret, g) \<Rightarrow> check (0 \<le> ret) ''ret >= 0''
                          (case entry_group_commit av g of
                             (ret, g) \<Rightarrow> check (0 \<le> ret) ''ret >= 0''
                               (Inr (s\<lparr>entry_group := g\<rparr>)))))))"

definition StopPublishing :: "'g avahi \<Rightarrow> string \<Rightarrow> 'g mdns \<Rightarrow> 'g mdns" where
  "StopPublishing av service_type s =
     s\<lparr>entry_group := entry_group_reset av (entry_group s), prev_service_type := '''',
       prev_port := 0, txt_records := []\<rparr>"

definition RepublishService :: "'g avahi \<Rightarrow> 'g mdns \<Rightarrow> 'g mdns result" where
  "RepublishService av s =
     (if prev_service_type s = '''' then Inr s
      else let service_type = prev_service_type s;
               s1 = s\<lparr>prev_service_type := ''''\<rparr>;
               port = prev_port s1;
               txt = txt_records s1;
               s2 = s1\<lparr>txt_records := []\<rparr>
           in PublishService av service_type port txt (StopPublishing av service_type s2))"

datatype client_state = S_REGISTERING | S_RUNNING | S_COLLISION | S_FAILURE | S_CONNECTING

definition OnAvahiClientStateUpdate :: "'g avahi \<Rightarrow> client_state \<Rightarrow> 'g mdns \<Rightarrow> 'g mdns result" where
  "OnAvahiClientStateUpdate av state s = (if state = S_RUNNING then RepublishService av s else Inr s)"

lemma nothing_to_republish:
  "prev_service_type s = '''' \<Longrightarrow> OnAvahiClientStateUpdate av st s = Inr s"
  by (simp add: OnAvahiClientStateUpdate_def RepublishService_def)

section \<open>Events and the specification\<close>

text \<open>
  When the Avahi server restarts it hands over a group in any state whatever, and then reports
  that it is running.
\<close>

datatype 'g mdns_event =
    Publish string "16 word" "string list"
  | StopPublish string
  | ServerRestarted 'g
  | ServerState client_state

fun mdns_step :: "'g avahi \<Rightarrow> 'g mdns \<Rightarrow> 'g mdns_event \<Rightarrow> 'g mdns result" where
  "mdns_step av s (Publish t p x) = PublishService av t p x s"
| "mdns_step av s (StopPublish t) = Inr (StopPublishing av t s)"
| "mdns_step av s (ServerRestarted g) =
     OnAvahiClientStateUpdate av S_RUNNING (s\<lparr>entry_group := g\<rparr>)"
| "mdns_step av s (ServerState st) = OnAvahiClientStateUpdate av st s"

definition mdns_view :: "string \<Rightarrow> (string \<times> 16 word \<times> string list) option \<Rightarrow> mdns_service set" where
  "mdns_view name r =
     (case r of
        None \<Rightarrow> {}
      | Some (t, p, x) \<Rightarrow> {(c_str name, t, p, mset (map c_str x))})"

section \<open>Refinement\<close>

text \<open>The publisher's fields and its group agree with the request \<open>r\<close>.\<close>

definition mdns_recorded :: "'g mdns \<Rightarrow> (string \<times> 16 word \<times> string list) option \<Rightarrow> bool" where
  "mdns_recorded s r \<longleftrightarrow>
     (case r of
        None \<Rightarrow> prev_service_type s = ''''
      | Some (t, p, x) \<Rightarrow> t = privet_type \<and> prev_service_type s = t \<and> prev_port s = p \<and> txt_records s = x)"

definition mdns_rel :: "'g avahi \<Rightarrow> 'g mdns \<Rightarrow> (string \<times> 16 word \<times> string list) option \<Rightarrow> bool" where
  "mdns_rel av s r \<longleftrightarrow> mdns_recorded s r \<and> announced av (entry_group s) = mdns_view (service_name s) r"

lemma privet_type_facts [simp]: "privet_type \<noteq> ''''" "c_str privet_type = privet_type"
  by (simp_all add: privet_type_def c_str_def)

lemma mdns_recorded_cases:
  assumes "mdns_recorded s r"
  obtains (nothing) "r = None" "prev_service_type s = ''''"
    | (service) x where "r = Some (privet_type, prev_port s, x)" "prev_service_type s = privet_type"
        "txt_records s = x"
proof (cases r)
  case None
  then show ?thesis using assms that(1) by (simp add: mdns_recorded_def)
next
  case (Some q)
  obtain t p x where "q = (t, p, x)" by (cases q)
  then show ?thesis using assms Some that(2) by (simp add: mdns_recorded_def)
qed

lemma mdns_recorded_group [simp]:
  "mdns_recorded (s\<lparr>entry_group := g\<rparr>) r = mdns_recorded s r"
  by (auto simp: mdns_recorded_def split: option.split)

lemma make_txt_list_mset:
  "avahi_documented av \<Longrightarrow> make_txt_list av txt = Inr l \<Longrightarrow> mset l = mset (map c_str txt)"
  by (auto simp: make_txt_list_def avahi_documented_def split: if_splits option.splits)

lemma group_replaced:
  assumes "avahi_documented av" "entry_group_add_service av n t p l (entry_group_reset av g) = (r, g1)"
    and "0 \<le> r" "entry_group_commit av g1 = (r2, g2)" "0 \<le> r2"
  shows "announced av g2 = {(n, t, p, mset l)}"
proof -
  have "entry_group_is_empty av (entry_group_reset av g)"
    using assms(1) by (simp add: avahi_documented_def)
  then show ?thesis using assms unfolding avahi_documented_def by metis
qed

lemma group_updated:
  assumes "avahi_documented av" "announced av g = {(n, t, p, x)}"
    and "entry_group_update_txt av n t l g = (r, g1)" "0 \<le> r"
  shows "announced av g1 = {(n, t, p, mset l)}"
  using assms unfolding avahi_documented_def by blast

lemma PublishService_rel:
  assumes av: "avahi_documented av" and rel: "mdns_rel av s r"
    and pub: "PublishService av t p x s = Inr s'"
  shows "mdns_rel av s' (Some (t, p, x)) \<and> service_name s' = service_name s"
proof -
  have t: "t = privet_type" using pub by (simp add: PublishService_def)
  consider (same) "prev_port s = p" "prev_service_type s = t" "txt_records s = x"
    | (update) "prev_port s = p" "prev_service_type s = t" "txt_records s \<noteq> x"
    | (added) "\<not> (prev_port s = p \<and> prev_service_type s = t)" by blast
  then show ?thesis
  proof cases
    case same
    have s': "s' = s" using pub same t by (simp add: PublishService_def)
    have "mdns_recorded s r" using rel by (simp add: mdns_rel_def)
    then have "r = Some (t, p, x)"
      by (cases rule: mdns_recorded_cases) (use same t in simp_all)
    with rel s' show ?thesis by blast
  next
    case update
    have "mdns_recorded s r" using rel by (simp add: mdns_rel_def)
    then obtain y where r: "r = Some (t, p, y)"
      by (cases rule: mdns_recorded_cases) (use update(1,2) t in simp_all)
    with rel have ann: "announced av (entry_group s) = {(c_str (service_name s), t, p, mset (map c_str y))}"
      by (simp add: mdns_rel_def mdns_view_def)
    let ?u = "\<lambda>l. entry_group_update_txt av (c_str (service_name s)) t l (entry_group s)"
    obtain l where l: "make_txt_list av x = Inr l"
      using pub update by (auto simp: PublishService_def)
    obtain ret g where u: "?u l = (ret, g)" by (cases "?u l")
    have ok: "0 \<le> ret" and s': "s' = s\<lparr>txt_records := x, entry_group := g\<rparr>"
      using pub update l u by (auto simp: PublishService_def)
    show ?thesis
      using group_updated [OF av ann u ok] make_txt_list_mset [OF av l] s' update t
      by (simp add: mdns_rel_def mdns_recorded_def mdns_view_def)
  next
    case added
    let ?a = "\<lambda>l. entry_group_add_service av (c_str (service_name s)) t p l
        (entry_group_reset av (entry_group s))"
    obtain l where l: "make_txt_list av x = Inr l"
      using pub added by (auto simp: PublishService_def)
    obtain r1 g1 where a: "?a l = (r1, g1)" by (cases "?a l")
    obtain r2 g2 where c: "entry_group_commit av g1 = (r2, g2)" by (cases "entry_group_commit av g1")
    have ok: "0 \<le> r1" "0 \<le> r2"
      and s': "s' = s\<lparr>txt_records := x, prev_port := p, prev_service_type := t, entry_group := g2\<rparr>"
      using pub added l a c by (auto simp: PublishService_def Let_def)
    show ?thesis
      using group_replaced [OF av a ok(1) c ok(2)] make_txt_list_mset [OF av l] s' t
      by (simp add: mdns_rel_def mdns_recorded_def mdns_view_def)
  qed
qed

lemma StopPublishing_rel:
  "avahi_documented av \<Longrightarrow>
     mdns_rel av (StopPublishing av t s) None \<and> service_name (StopPublishing av t s) = service_name s"
  by (simp add: mdns_rel_def mdns_recorded_def mdns_view_def StopPublishing_def avahi_documented_def)

lemma RepublishService_rel:
  assumes av: "avahi_documented av" and rec: "mdns_recorded s r"
    and ann: "r = None \<Longrightarrow> announced av (entry_group s) = {}"
    and rep: "RepublishService av s = Inr s'"
  shows "mdns_rel av s' r \<and> service_name s' = service_name s"
proof (cases r)
  case None
  then show ?thesis
    using rec ann rep by (simp add: RepublishService_def mdns_rel_def mdns_recorded_def mdns_view_def)
next
  case (Some q)
  obtain t p x where q: "r = Some (t, p, x)" using Some by (cases q) auto
  let ?s = "s\<lparr>prev_service_type := '''', txt_records := []\<rparr>"
  have "PublishService av t p x (StopPublishing av t ?s) = Inr s'"
    using rep rec q by (simp add: RepublishService_def mdns_recorded_def)
  from PublishService_rel [OF av conjunct1 [OF StopPublishing_rel [OF av]] this]
  show ?thesis using q by (simp add: StopPublishing_def)
qed

section \<open>Runs\<close>

fun request_step :: "'g mdns_event \<Rightarrow> (string \<times> 16 word \<times> string list) option \<Rightarrow>
    (string \<times> 16 word \<times> string list) option" where
  "request_step (Publish t p x) r = Some (t, p, x)"
| "request_step (StopPublish t) r = None"
| "request_step (ServerRestarted g) r = r"
| "request_step (ServerState st) r = r"

definition requested :: "'g mdns_event list \<Rightarrow> (string \<times> 16 word \<times> string list) option" where
  "requested es = fold request_step es None"

text \<open>A server that restarted has forgotten what the group announced.\<close>

definition restart_forgets :: "'g avahi \<Rightarrow> 'g mdns_event \<Rightarrow> bool" where
  "restart_forgets av e = (case e of ServerRestarted g \<Rightarrow> announced av g = {} | _ \<Rightarrow> True)"

definition mdns_implements ::
    "'g avahi \<Rightarrow> string \<Rightarrow> 'g mdns \<Rightarrow> (string \<times> 16 word \<times> string list) option \<Rightarrow> bool" where
  "mdns_implements av guid s r \<longleftrightarrow>
     (avahi_documented av \<longrightarrow> mdns_rel av s r \<and> service_name s = guid)"

lemma mdns_step_implements:
  assumes "mdns_implements av guid s r" "restart_forgets av e" "mdns_step av s e = Inr s'"
  shows "mdns_implements av guid s' (request_step e r)"
proof -
  have "mdns_rel av s' (request_step e r) \<and> service_name s' = service_name s"
    if av: "avahi_documented av" and rel: "mdns_rel av s r"
  proof (cases e)
    case (Publish t p x)
    then show ?thesis using PublishService_rel [OF av rel] assms(3) by simp
  next
    case (StopPublish t)
    then show ?thesis using StopPublishing_rel [OF av] assms(3) by auto
  next
    case (ServerRestarted g)
    have "mdns_recorded (s\<lparr>entry_group := g\<rparr>) r"
      using rel by (simp add: mdns_rel_def)
    from RepublishService_rel [OF av this] show ?thesis
      using ServerRestarted assms(2,3)
      by (simp add: OnAvahiClientStateUpdate_def restart_forgets_def)
  next
    case (ServerState st)
    then show ?thesis
      using RepublishService_rel [OF av, of s r s'] rel assms(3)
      by (auto simp: OnAvahiClientStateUpdate_def mdns_rel_def mdns_view_def split: if_splits)
  qed
  then show ?thesis using assms(1) by (simp add: mdns_implements_def)
qed

interpretation mdns: simulation "mdns_step av" request_step "mdns_implements av guid" "restart_forgets av"
  for av :: "'g avahi" and guid
  by unfold_locales (rule mdns_step_implements)

text \<open>Every Avahi call succeeds.\<close>

definition avahi_succeeds :: "'g avahi \<Rightarrow> bool" where
  "avahi_succeeds av \<longleftrightarrow>
     (\<forall>xs. string_list_new_from_array av xs \<noteq> None) \<and>
     (\<forall>n t p l g. 0 \<le> fst (entry_group_add_service av n t p l g)) \<and>
     (\<forall>n t l g. 0 \<le> fst (entry_group_update_txt av n t l g)) \<and>
     (\<forall>g. 0 \<le> fst (entry_group_commit av g))"

definition privet_only :: "'g mdns_event \<Rightarrow> bool" where
  "privet_only e = (case e of Publish t p x \<Rightarrow> t = privet_type | _ \<Rightarrow> True)"

lemma PublishService_returns:
  assumes av: "avahi_documented av" "avahi_succeeds av" and t: "t = privet_type"
  shows "\<exists>s'. PublishService av t p x s = Inr s'"
proof -
  have "entry_group_is_empty av (entry_group_reset av g)" for g
    using av(1) by (simp add: avahi_documented_def)
  moreover obtain l where "make_txt_list av x = Inr l"
    using av(2) unfolding make_txt_list_def avahi_succeeds_def
    by (cases "string_list_new_from_array av (map c_str x)"; cases "x = []") auto
  ultimately show ?thesis
    using t av(2) by (auto simp: PublishService_def Let_def case_prod_beta avahi_succeeds_def check_def)
qed

lemma RepublishService_returns:
  assumes "avahi_documented av" "avahi_succeeds av" "mdns_recorded s r"
  shows "\<exists>s'. RepublishService av s = Inr s'"
  using assms by (auto simp: RepublishService_def mdns_recorded_def Let_def split: option.splits
      intro!: PublishService_returns)

lemma mdns_step_returns:
  assumes "avahi_documented av" "avahi_succeeds av" "mdns_implements av guid s r" "privet_only e"
  shows "\<exists>s'. mdns_step av s e = Inr s'"
proof -
  have "mdns_recorded s r" using assms(1,3) by (simp add: mdns_implements_def mdns_rel_def)
  then have "mdns_recorded (s\<lparr>entry_group := g\<rparr>) r" "mdns_recorded s r" for g
    by simp_all
  then show ?thesis
    using assms(1,2,4)
    by (cases e) (auto simp: privet_only_def OnAvahiClientStateUpdate_def
        intro: PublishService_returns RepublishService_returns)
qed

lemma mdns_run_returns:
  assumes "avahi_documented av" "avahi_succeeds av"
  shows "mdns_implements av guid s r \<Longrightarrow> list_all privet_only es \<Longrightarrow>
      list_all (restart_forgets av) es \<Longrightarrow> \<exists>s'. run (mdns_step av) s es = Inr s'"
proof (induction es arbitrary: s r)
  case (Cons e es)
  obtain s1 where "mdns_step av s e = Inr s1"
    using mdns_step_returns [OF assms Cons.prems(1)] Cons.prems(2) by auto
  with Cons show ?case by (auto dest: mdns.simulates)
qed simp

lemma new_client_implements:
  "new_AvahiMdnsClient guid poll client (Some g0) = Inr s0 \<Longrightarrow> announced av g0 = {} \<Longrightarrow>
     mdns_implements av guid s0 None"
  by (auto simp: new_AvahiMdnsClient_def check_def mdns_implements_def mdns_rel_def mdns_recorded_def mdns_view_def
      split: if_splits)

text \<open>
  Property C26.  What the network sees is exactly what was last requested: after any run of publish
  and stop requests and of Avahi's state changes, server restarts that forget everything
  included, the entry group announces the service of the last publish request with its port and
  text records under the client's name, and nothing after a stop.  The run ends early only if an
  Avahi call fails or a service that is not privet is published.
\<close>

theorem announced_is_last_requested:
  assumes "avahi_documented av" and "new_AvahiMdnsClient guid poll client (Some g0) = Inr s0"
    and "announced av g0 = {}" and "list_all (restart_forgets av) es"
  shows "case run (mdns_step av) s0 es of
           Inr s \<Rightarrow> announced av (entry_group s) = mdns_view guid (requested es)
         | Inl _ \<Rightarrow> \<not> (avahi_succeeds av \<and> list_all privet_only es)"
proof -
  note start = new_client_implements [OF assms(2,3)]
  show ?thesis
  proof (cases "run (mdns_step av) s0 es")
    case (Inl f)
    then show ?thesis using mdns_run_returns [OF assms(1) _ start _ assms(4)] by auto
  next
    case (Inr s)
    then show ?thesis
      using mdns.run_simulates [OF start assms(4) Inr] assms(1)
      by (simp add: mdns_implements_def mdns_rel_def requested_def)
  qed
qed

text \<open>An entry group that announces its entries at once.\<close>

definition plain_avahi :: "mdns_service list avahi" where
  "plain_avahi =
     \<lparr>string_list_new_from_array = (\<lambda>xs. Some (rev xs)),
      entry_group_reset = (\<lambda>_. []),
      entry_group_is_empty = (\<lambda>g. g = []),
      entry_group_add_service = (\<lambda>n t p l g. (0, g @ [(n, t, p, mset l)])),
      entry_group_update_txt = (\<lambda>n t l g. (0, map (\<lambda>(n', t', p, x). (n', t', p, mset l)) g)),
      entry_group_commit = (\<lambda>g. (0, g)),
      announced = set\<rparr>"

lemma plain_avahi_documented: "avahi_documented plain_avahi"
  by (auto simp: avahi_documented_def plain_avahi_def image_def)

lemma plain_avahi_succeeds: "avahi_succeeds plain_avahi"
  by (simp add: avahi_succeeds_def plain_avahi_def)

lemma announced_is_last_requested_witness:
  "case run (mdns_step plain_avahi)
        \<lparr>prev_port = 0, prev_service_type = '''', service_name = ''id'', txt_records = [], entry_group = []\<rparr>
        [Publish privet_type 80 [''a'', ''b''], Publish privet_type 80 [''c''], ServerRestarted [],
         ServerState S_RUNNING] of
     Inr s \<Rightarrow> announced plain_avahi (entry_group s) = {(''id'', privet_type, 80, {#''c''#})}
   | Inl _ \<Rightarrow> False"
proof -
  let ?es = "[Publish privet_type 80 [''a'', ''b''], Publish privet_type 80 [''c''], ServerRestarted [],
         ServerState S_RUNNING]"
  let ?s0 = "\<lparr>prev_port = 0, prev_service_type = '''', service_name = ''id'', txt_records = [], entry_group = []\<rparr>"
  have start: "announced plain_avahi [] = {}" and forgets: "list_all (restart_forgets plain_avahi) ?es"
    by (simp_all add: restart_forgets_def plain_avahi_def)
  have privet: "list_all privet_only ?es" by (simp add: privet_only_def)
  have view: "mdns_view ''id'' (requested ?es) = {(''id'', privet_type, 80, {#''c''#})}"
    by (simp add: mdns_view_def requested_def c_str_def)
  have new: "new_AvahiMdnsClient ''id'' True True (Some []) = Inr ?s0"
    by (simp add: new_AvahiMdnsClient_def)
  from announced_is_last_requested [OF plain_avahi_documented new start forgets]
  show ?thesis
    unfolding view using plain_avahi_succeeds privet
    by (cases "run (mdns_step plain_avahi) ?s0 ?es") (simp_all only: sum.case, blast+)
qed

end
