(* ===== verification/Mdns_Providers.thy ===== *)
theory Mdns_Providers
  imports Avahi_Mdns_Client
begin

text \<open>
  The interface \<open>MdnsClient\<close> of \<^verbatim>\<open>buffet/mdns_client.h\<close>, whose own methods do nothing,
  and its two providers: the stub (\<^verbatim>\<open>buffet/stub_mdns_client.cc\<close>) and the one on Avahi.
  Libweave's requests are stated once over the interface.
\<close>

section \<open>The interface\<close>

record 's mdns_client =
  mc_PublishService :: "string \<Rightarrow> 16 word \<Rightarrow> string list \<Rightarrow> 's \<Rightarrow> 's result"
  mc_StopPublishing :: "string \<Rightarrow> 's \<Rightarrow> 's"

definition MdnsClient :: "'s mdns_client" where
  "MdnsClient = \<lparr>mc_PublishService = (\<lambda>service_type port txt s. Inr s),
     mc_StopPublishing = (\<lambda>service_type s. s)\<rparr>"

text \<open>The factory, one for each build; the arguments are what Avahi gives the constructor.\<close>

definition CreateInstance_stub :: "(unit mdns_client \<times> unit) result" where
  "CreateInstance_stub = Inr (MdnsClient, ())"

definition AvahiMdnsClient :: "'g avahi \<Rightarrow> 'g mdns mdns_client" where
  "AvahiMdnsClient av = \<lparr>mc_PublishService = PublishService av, mc_StopPublishing = StopPublishing av\<rparr>"

definition CreateInstance_avahi :: "'g avahi \<Rightarrow> string \<Rightarrow> bool \<Rightarrow> bool \<Rightarrow> 'g option \<Rightarrow>
    ('g mdns mdns_client \<times> 'g mdns) result" where
  "CreateInstance_avahi av guid new_poll new_client new_group =
     bind_result (new_AvahiMdnsClient guid new_poll new_client new_group) (\<lambda>s. Inr (AvahiMdnsClient av, s))"

section \<open>Requests over the interface\<close>

datatype mdns_request = ReqPublish "16 word" "string list" | ReqStop

fun mdns_request_step :: "'s mdns_client \<Rightarrow> 's \<Rightarrow> mdns_request \<Rightarrow> 's result" where
  "mdns_request_step mc s (ReqPublish port txt) = mc_PublishService mc privet_type port txt s"
| "mdns_request_step mc s ReqStop = Inr (mc_StopPublishing mc privet_type s)"

fun wanted :: "mdns_request \<Rightarrow> (string \<times> 16 word \<times> string list) option" where
  "wanted (ReqPublish port txt) = Some (privet_type, port, txt)"
| "wanted ReqStop = None"

text \<open>
  The contract: requests are served without a fault, and the network sees the last one, if the
  platform has mDNS at all (\<open>supported\<close>).
\<close>

locale mdns_provider =
  fixes mc :: "'s mdns_client"
    and shows_request :: "'s \<Rightarrow> (string \<times> 16 word \<times> string list) option \<Rightarrow> bool"
    and seen :: "'s \<Rightarrow> mdns_service set"
    and name :: string
    and supported :: bool
  assumes publish: "shows_request s r \<Longrightarrow>
      \<exists>s'. mc_PublishService mc privet_type port x s = Inr s' \<and> shows_request s' (Some (privet_type, port, x))"
    and stop: "shows_request s r \<Longrightarrow> shows_request (mc_StopPublishing mc privet_type s) None"
    and network: "shows_request s r \<Longrightarrow> seen s = (if supported then mdns_view name r else {})"
begin

lemma request_served:
  "shows_request s r \<Longrightarrow> \<exists>s'. mdns_request_step mc s req = Inr s' \<and> shows_request s' (wanted req)"
  using publish stop by (cases req) auto

lemma requests_served:
  assumes "shows_request s r"
  shows "\<exists>s'. run (mdns_request_step mc) s reqs = Inr s' \<and>
    seen s' = (if supported then mdns_view name (fold (\<lambda>req _. wanted req) reqs r) else {})"
proof -
  have "\<exists>s'. run (mdns_request_step mc) s reqs = Inr s' \<and> shows_request s' (fold (\<lambda>req _. wanted req) reqs r)"
    using assms
  proof (induction reqs arbitrary: s r)
    case (Cons req reqs)
    obtain s1 where "mdns_request_step mc s req = Inr s1" "shows_request s1 (wanted req)"
      using request_served [OF Cons.prems] by blast
    with Cons.IH show ?case by simp
  qed simp
  then show ?thesis using network by blast
qed

end

interpretation stub_mdns: mdns_provider "MdnsClient :: 's mdns_client" "\<lambda>_ _. True" "\<lambda>_. {}" name False
  for name
  by unfold_locales (simp_all add: MdnsClient_def)

interpretation avahi_mdns: mdns_provider "AvahiMdnsClient av"
    "\<lambda>s r. avahi_documented av \<and> avahi_succeeds av \<and> mdns_implements av guid s r"
    "\<lambda>s. announced av (entry_group s)" guid True
  for av :: "'g avahi" and guid
proof
  fix s r port x
  assume ok: "avahi_documented av \<and> avahi_succeeds av \<and> mdns_implements av guid s r"
  then obtain s' where s': "PublishService av privet_type port x s = Inr s'"
    using PublishService_returns by blast
  have "mdns_implements av guid s' (Some (privet_type, port, x))"
    using ok PublishService_rel [OF _ _ s', of r] by (auto simp: mdns_implements_def)
  then show "\<exists>s'. mc_PublishService (AvahiMdnsClient av) privet_type port x s = Inr s' \<and>
      avahi_documented av \<and> avahi_succeeds av \<and> mdns_implements av guid s' (Some (privet_type, port, x))"
    using ok s' by (simp add: AvahiMdnsClient_def)
next
  fix s r
  assume ok: "avahi_documented av \<and> avahi_succeeds av \<and> mdns_implements av guid s r"
  then show "avahi_documented av \<and> avahi_succeeds av \<and>
      mdns_implements av guid (mc_StopPublishing (AvahiMdnsClient av) privet_type s) None"
    using StopPublishing_rel [of av privet_type s] by (auto simp: mdns_implements_def AvahiMdnsClient_def)
  show "announced av (entry_group s) = (if True then mdns_view guid r else {})"
    using ok by (simp add: mdns_implements_def mdns_rel_def)
qed

text \<open>
  On either platform libweave's requests never end the daemon: the stub takes any
  of them, and a client on Avahi, whose calls succeed, serves every publish and stop request of
  any list of them, and then the network sees the last one: the privet service with its port and
  text records, or nothing.
\<close>

theorem mdns_requests_are_served:
  fixes av :: "'g avahi"
  assumes "avahi_documented av" and "avahi_succeeds av" and "announced av g = {}"
  shows "(\<exists>s s'. CreateInstance_avahi av guid True True (Some g) = Inr (AvahiMdnsClient av, s) \<and>
      run (mdns_request_step (AvahiMdnsClient av)) s reqs = Inr s' \<and>
      announced av (entry_group s') = mdns_view guid (fold (\<lambda>req _. wanted req) reqs None)) \<and>
    (\<exists>s s'. CreateInstance_stub = Inr (MdnsClient, s) \<and> run (mdns_request_step MdnsClient) s reqs = Inr s')"
proof -
  obtain s :: "'g mdns" where s: "new_AvahiMdnsClient guid True True (Some g) = Inr s" by (simp add: new_AvahiMdnsClient_def)
  from new_client_implements [OF this assms(3)] have "mdns_implements av guid s None" .
  then have "\<exists>s'. run (mdns_request_step (AvahiMdnsClient av)) s reqs = Inr s' \<and>
      announced av (entry_group s') = mdns_view guid (fold (\<lambda>req _. wanted req) reqs None)"
    using avahi_mdns.requests_served [of av guid s None reqs] assms(1,2) by simp
  moreover have "CreateInstance_avahi av guid True True (Some g) = Inr (AvahiMdnsClient av, s)"
    by (simp add: CreateInstance_avahi_def s)
  moreover have "\<exists>s'. run (mdns_request_step (MdnsClient :: unit mdns_client)) () reqs = Inr s'"
    using stub_mdns.requests_served [OF TrueI, of "()" reqs] by auto
  ultimately show ?thesis by (auto simp: CreateInstance_stub_def)
qed

lemma mdns_requests_are_served_witness:
  "\<exists>s s'. CreateInstance_avahi plain_avahi ''id'' True True (Some []) = Inr (AvahiMdnsClient plain_avahi, s) \<and>
     run (mdns_request_step (AvahiMdnsClient plain_avahi)) s
       [ReqPublish 80 [''a''], ReqStop, ReqPublish 81 [''b'']] = Inr s' \<and>
     announced plain_avahi (entry_group s') = {(''id'', privet_type, 81, {#''b''#})}"
  using mdns_requests_are_served [OF plain_avahi_documented plain_avahi_succeeds, of "[]" "''id''"
      "[ReqPublish 80 [''a''], ReqStop, ReqPublish 81 [''b'']]"]
  by (simp add: mdns_view_def c_str_def plain_avahi_def)

end
