(* ===== verification/Socket_Connect.thy ===== *)
theory Socket_Connect
  imports Prelude
begin

text \<open>
  Opening a TCP connection (\<open>ConnectSocket\<close> and \<open>ConnectBlocking\<close> of
  \<open>src/buffet/socket_stream.cc\<close>).  The operating system is the environment: each resolved
  address carries what \<open>socket\<close> and \<open>connect\<close> return for it.  The state is the set of
  open file descriptors, so that the lemmas account for every descriptor.
\<close>

section \<open>Connecting\<close>

text \<open>
  The text of an address, for the log.  The address families and \<open>inet_ntop\<close> (of an IPv4 and of
  an IPv6 address) are the system's; it has no text for an address it cannot print.
\<close>

definition GetIPAddress :: "int \<Rightarrow> int \<Rightarrow> ('sa \<Rightarrow> string option) \<Rightarrow> ('sa \<Rightarrow> string option) \<Rightarrow> int \<Rightarrow> 'sa \<Rightarrow> string" where
  "GetIPAddress AF_INET AF_INET6 ntop_in ntop_in6 sa_family sa =
     (let addr = (if sa_family = AF_INET then (case ntop_in sa of None \<Rightarrow> '''' | Some str \<Rightarrow> str)
                  else if sa_family = AF_INET6 then (case ntop_in6 sa of None \<Rightarrow> '''' | Some str \<Rightarrow> str)
                  else '''')
      in if addr = '''' then ''<Unknown address family: '' @ to_string_int sa_family @ ''>'' else addr)"

lemma GetIPAddress_says_something: "GetIPAddress AF_INET AF_INET6 ntop_in ntop_in6 sa_family sa \<noteq> ''''"
  by (simp add: GetIPAddress_def Let_def)

record address =
  socket_result :: int
  connect_result :: int

type_synonym fds = "int set"

text \<open>\<open>fd\<close> is \<open>socket_fd\<close>, whose last value survives the loop.\<close>

fun connect_loop :: "address list \<Rightarrow> int \<Rightarrow> fds \<Rightarrow> int \<times> fds" where
  "connect_loop [] fd fds = (fd, fds)"
| "connect_loop (info # infos) fd fds =
     (let fd = socket_result info
      in if fd < 0 then connect_loop infos fd fds
         else let fds = insert fd fds
              in if connect_result info = 0 then (fd, fds)
                 else connect_loop infos (- 1) (fds - {fd}))"

text \<open>\<open>resolved\<close> is the address list, or nothing if the name does not resolve.\<close>

definition ConnectSocket :: "address list option \<Rightarrow> fds \<Rightarrow> int \<times> fds" where
  "ConnectSocket resolved fds =
     (case resolved of None \<Rightarrow> (- 1, fds) | Some result \<Rightarrow> connect_loop result (- 1) fds)"

text \<open>
  The result is the descriptor of the stream that now owns it.  \<open>made\<close> is whether a file
  stream can be made of the descriptor.
\<close>

definition ConnectBlocking :: "address list option \<Rightarrow> bool \<Rightarrow> fds \<Rightarrow> int option \<times> fds" where
  "ConnectBlocking resolved made fds =
     (case ConnectSocket resolved fds of
        (socket_fd, fds) \<Rightarrow>
          if socket_fd \<le> 0 then (None, fds)
          else if made then (Some socket_fd, fds)
          else (None, fds - {socket_fd}))"

section \<open>Accounting for descriptors\<close>

text \<open>
  The descriptor of the first address that can be connected to.  \<open>fresh_sockets\<close> is what the
  operating system promises: a new socket's descriptor is not one that is open.
\<close>

definition reachable_address :: "address \<Rightarrow> bool" where
  "reachable_address a \<longleftrightarrow> 0 \<le> socket_result a \<and> connect_result a = 0"

definition first_connection :: "address list option \<Rightarrow> int option" where
  "first_connection resolved =
     (case resolved of
        None \<Rightarrow> None
      | Some result \<Rightarrow> map_option socket_result (List.find reachable_address result))"

definition fresh_sockets :: "fds \<Rightarrow> address list option \<Rightarrow> bool" where
  "fresh_sockets fds resolved \<longleftrightarrow>
     (\<forall>result. resolved = Some result \<longrightarrow> (\<forall>a \<in> set result. socket_result a \<notin> fds))"

lemma connect_loop_result:
  assumes "\<forall>a \<in> set infos. socket_result a \<notin> fds" "fd < 0"
  shows "\<exists>failed < 0. connect_loop infos fd fds =
           (case List.find reachable_address infos of
              None \<Rightarrow> (failed, fds)
            | Some a \<Rightarrow> (socket_result a, insert (socket_result a) fds))"
  using assms
proof (induction infos arbitrary: fd)
  case Nil
  then show ?case by auto
next
  case (Cons info infos)
  consider (no_socket) "socket_result info < 0"
    | (connected) "0 \<le> socket_result info" "connect_result info = 0"
    | (refused) "0 \<le> socket_result info" "connect_result info \<noteq> 0" by linarith
  then show ?case
  proof cases
    case no_socket
    then show ?thesis using Cons.IH [of "socket_result info"] Cons.prems
      by (simp add: reachable_address_def)
  next
    case connected
    then show ?thesis using Cons.prems(2) by (auto simp: reachable_address_def Let_def)
  next
    case refused
    have "insert (socket_result info) fds - {socket_result info} = fds"
      using Cons.prems by auto
    then show ?thesis using refused Cons.IH [of "- 1"] Cons.prems
      by (simp add: reachable_address_def Let_def)
  qed
qed

lemma ConnectSocket_result:
  assumes "fresh_sockets fds resolved"
  shows "\<exists>failed < 0. ConnectSocket resolved fds =
           (case first_connection resolved of
              None \<Rightarrow> (failed, fds) | Some fd \<Rightarrow> (fd, insert fd fds))"
proof (cases resolved)
  case None
  then show ?thesis by (auto simp: ConnectSocket_def first_connection_def)
next
  case (Some result)
  then show ?thesis
    using connect_loop_result [of result fds "- 1"] assms
    by (auto simp: ConnectSocket_def first_connection_def fresh_sockets_def split: option.split)
qed

lemma first_connection_nonneg: "first_connection resolved = Some fd \<Longrightarrow> 0 \<le> fd"
  by (auto simp: first_connection_def reachable_address_def find_Some_iff split: option.splits)

lemma ConnectBlocking_result:
  assumes "fresh_sockets fds resolved"
  shows "ConnectBlocking resolved made fds =
     (case first_connection resolved of
        None \<Rightarrow> (None, fds)
      | Some fd \<Rightarrow> if fd = 0 then (None, insert 0 fds)
                  else if made then (Some fd, insert fd fds) else (None, fds))"
proof -
  have fresh: "fd \<notin> fds" if "first_connection resolved = Some fd" for fd
    using that assms
    by (auto simp: first_connection_def fresh_sockets_def find_Some_iff split: option.splits)
  obtain failed where "failed < 0" and c: "ConnectSocket resolved fds =
      (case first_connection resolved of
         None \<Rightarrow> (failed, fds) | Some fd \<Rightarrow> (fd, insert fd fds))"
    using ConnectSocket_result [OF assms] by blast
  show ?thesis
  proof (cases "first_connection resolved")
    case None
    then show ?thesis using c \<open>failed < 0\<close> by (simp add: ConnectBlocking_def)
  next
    case (Some fd)
    then show ?thesis using c fresh [OF Some] first_connection_nonneg [OF Some]
      by (auto simp: ConnectBlocking_def)
  qed
qed

text \<open>
  Property C30.  A connection attempt uses the first address that accepts it and leaks no
  descriptor: it opens exactly the descriptor the stream owns, and none when it fails, except
  that a connection on descriptor 0 is taken for a failure and stays open.
\<close>

theorem connecting_leaks_no_descriptor:
  assumes "fresh_sockets fds resolved"
  shows "ConnectBlocking resolved made fds =
     (case first_connection resolved of
        None \<Rightarrow> (None, fds)
      | Some fd \<Rightarrow> if fd = 0 then (None, insert 0 fds)
                  else if made then (Some fd, insert fd fds) else (None, fds))"
  by (rule ConnectBlocking_result [OF assms])

lemma connecting_leaks_no_descriptor_witness:
  "ConnectBlocking (Some [\<lparr>socket_result = - 1, connect_result = 0\<rparr>,
      \<lparr>socket_result = 5, connect_result = - 1\<rparr>, \<lparr>socket_result = 5, connect_result = 0\<rparr>]) True {0, 1, 2}
   = (Some 5, {0, 1, 2, 5})"
  using connecting_leaks_no_descriptor
    [of "{0, 1, 2}" "Some [\<lparr>socket_result = - 1, connect_result = 0\<rparr>,
      \<lparr>socket_result = 5, connect_result = - 1\<rparr>, \<lparr>socket_result = 5, connect_result = 0\<rparr>]" True]
  by (simp add: fresh_sockets_def first_connection_def reachable_address_def) auto

end
