(* ===== verification/Completion.thy ===== *)
theory Completion
  imports Prelude "HOL-Library.Multiset"
begin

text \<open>
  The contract of the providers that answer asynchronously: a request hands over a callback, and
  the callback is run once, now or by a later event.  \<open>outstanding\<close> are the callbacks that are
  still owed, \<open>settled\<close> those that were run or given up for good.
\<close>

locale completion = guarded_component initial step inv
  for initial :: "'s \<Rightarrow> bool"
    and step :: "'s \<Rightarrow> 'e \<Rightarrow> 's result"
    and inv :: "'s \<Rightarrow> bool" +
  fixes asked :: "'e \<Rightarrow> 'cb multiset"
    and outstanding :: "'s \<Rightarrow> 'cb multiset"
    and settled :: "'s \<Rightarrow> 'cb multiset"
  assumes nothing_yet: "initial s \<Longrightarrow> outstanding s = {#} \<and> settled s = {#}"
    and balance: "inv s \<Longrightarrow> step s e = Inr s' \<Longrightarrow>
      outstanding s' + settled s' = outstanding s + settled s + asked e"

text \<open>So a run implements the specification that only collects what was asked.\<close>

sublocale completion \<subseteq> asking: simulation
    step "\<lambda>e r. r + asked e" "\<lambda>s r. inv s \<and> r = outstanding s + settled s" "\<lambda>_. True"
  by unfold_locales (auto simp: balance intro: inv_step)

context completion
begin

definition asked_in :: "'e list \<Rightarrow> 'cb multiset" where
  "asked_in es = sum_list (map asked es)"

lemma fold_asked: "fold (\<lambda>e r. r + asked e) es r = r + asked_in es"
  by (induction es arbitrary: r) (simp_all add: asked_in_def add.assoc)

lemma answered_once:
  assumes "initial s" "run step s es = Inr s'"
  shows "outstanding s' + settled s' = asked_in es"
  using asking.run_simulates [of s "{#}" es s'] assms inv_initial [OF assms(1)] nothing_yet [OF assms(1)]
  by (simp add: fold_asked list_all_iff)

end

text \<open>Taking the entry at an index out of a list, as an answer to one of several requests does.\<close>

definition take_out :: "nat \<Rightarrow> 'a list \<Rightarrow> ('a \<times> 'a list) option" where
  "take_out i xs = (if i < length xs then Some (xs ! i, take i xs @ drop (Suc i) xs) else None)"

lemma take_out_mset: "take_out i xs = Some (x, ys) \<Longrightarrow> mset xs = add_mset x (mset ys)"
proof -
  assume "take_out i xs = Some (x, ys)"
  then have i: "i < length xs" and x: "x = xs ! i" and ys: "ys = take i xs @ drop (Suc i) xs"
    by (auto simp: take_out_def split: if_splits)
  have "mset xs = mset (take i xs @ xs ! i # drop (Suc i) xs)"
    using id_take_nth_drop [OF i] by simp
  then show ?thesis by (simp add: x ys)
qed

lemma take_out_mset_map:
  "take_out i xs = Some (x, ys) \<Longrightarrow> mset (map f xs) = add_mset (f x) (mset (map f ys))"
  by (drule take_out_mset) (metis image_mset_add_mset mset_map)

lemma take_out_set: "take_out i xs = Some (x, ys) \<Longrightarrow> x \<in> set xs \<and> set ys \<subseteq> set xs"
  by (drule take_out_mset) (metis set_mset_add_mset_insert set_mset_mset insert_iff subset_insertI)

end
