(* ===== verification/Socket_Stream.thy ===== *)
theory Socket_Stream
  imports Completion Binder_Utils
begin

text \<open>
  The asynchronous half of \<^verbatim>\<open>buffet/socket_stream.cc\<close>: \<open>Read\<close>, \<open>Write\<close>,
  \<open>CancelPendingOperations\<close> and \<open>TlsConnect\<close>.  The brillo stream behind \<open>ptr_\<close> and the
  TLS library are the environment: whether they accept an operation, and how they finish it, are
  parts of the events.  A bound callback is a value of a closure type; the runs of the callers'
  callbacks are recorded in \<open>ran\<close>.
\<close>

section \<open>Callbacks\<close>

text \<open>
  The closures the code binds for success: the lambda of \<open>Read\<close>,
  \<open>Bind(callback, nullptr)\<close> of \<open>Write\<close> and \<open>Bind(&OnSuccess, callback)\<close> of
  \<open>TlsConnect\<close>; and for failure: \<open>OnError\<close> with \<open>Bind(callback, 0)\<close>, with
  \<open>callback\<close>, and with \<open>Bind(callback, nullptr)\<close>.
\<close>

datatype 'cb on_success = ReadDone 'cb | WriteDone 'cb | OnSuccess 'cb
datatype 'cb on_error = ReadError 'cb | WriteError 'cb | TlsError 'cb

text \<open>A run of a caller's callback, with its arguments.\<close>

datatype 'cb invocation =
    RanRead (invoked: 'cb) nat weave_error_ptr
  | RanWrite (invoked: 'cb) weave_error_ptr
  | RanTls (invoked: 'cb) bool weave_error_ptr

fun run_success :: "'cb on_success \<Rightarrow> nat \<Rightarrow> 'cb invocation" where
  "run_success (ReadDone cb) n = RanRead cb n []"
| "run_success (WriteDone cb) _ = RanWrite cb []"
| "run_success (OnSuccess cb) _ = RanTls cb True []"

fun OnError :: "'cb on_error \<Rightarrow> brillo_error \<Rightarrow> 'cb invocation" where
  "OnError (ReadError cb) e = RanRead cb 0 (ConvertError_to_weave e [])"
| "OnError (WriteError cb) e = RanWrite cb (ConvertError_to_weave e [])"
| "OnError (TlsError cb) e = RanTls cb False (ConvertError_to_weave e [])"

fun success_cb :: "'cb on_success \<Rightarrow> 'cb" where
  "success_cb (ReadDone cb) = cb"
| "success_cb (WriteDone cb) = cb"
| "success_cb (OnSuccess cb) = cb"

fun error_cb :: "'cb on_error \<Rightarrow> 'cb" where
  "error_cb (ReadError cb) = cb"
| "error_cb (WriteError cb) = cb"
| "error_cb (TlsError cb) = cb"

section \<open>Operations\<close>

text \<open>
  \<open>accepted\<close> are the operations the brillo stream has taken, \<open>connecting\<close> the TLS
  connections under way, \<open>posted\<close> the callbacks in the message loop.  \<open>refused\<close> are
  operations whose callbacks were cancelled with them.
\<close>

type_synonym 'cb pending = "'cb on_success \<times> 'cb on_error"

record 'cb stream_state =
  accepted :: "'cb pending list"
  connecting :: "'cb pending list"
  posted :: "'cb invocation list"
  ran :: "'cb invocation list"
  cancelled :: "'cb pending list"

definition new_stream :: "'cb stream_state" where
  "new_stream = \<lparr>accepted = [], connecting = [], posted = [], ran = [], cancelled = []\<rparr>"

text \<open>
  The stream's answer to \<open>ReadAsync\<close> and \<open>WriteAllAsync\<close>: it takes the operation, or
  returns false with an error.
\<close>

datatype verdict = Accepted | Refused "brillo_error option"

definition SocketStream_Read :: "verdict \<Rightarrow> 'cb \<Rightarrow> 'cb stream_state \<Rightarrow> 'cb stream_state result" where
  "SocketStream_Read ReadAsync callback s =
     (case ReadAsync of
        Accepted \<Rightarrow> Inr (s\<lparr>accepted := accepted s @ [(ReadDone callback, ReadError callback)]\<rparr>)
      | Refused None \<Rightarrow> Inl (NullDeref ''brillo_error'')
      | Refused (Some brillo_error) \<Rightarrow>
          Inr (s\<lparr>posted := posted s @ [RanRead callback 0 (ConvertError_to_weave brillo_error [])]\<rparr>))"

definition SocketStream_Write :: "verdict \<Rightarrow> 'cb \<Rightarrow> 'cb stream_state \<Rightarrow> 'cb stream_state result" where
  "SocketStream_Write WriteAllAsync callback s =
     (case WriteAllAsync of
        Accepted \<Rightarrow> Inr (s\<lparr>accepted := accepted s @ [(WriteDone callback, WriteError callback)]\<rparr>)
      | Refused None \<Rightarrow> Inl (NullDeref ''brillo_error'')
      | Refused (Some brillo_error) \<Rightarrow>
          Inr (s\<lparr>posted := posted s @ [RanWrite callback (ConvertError_to_weave brillo_error [])]\<rparr>))"

definition CancelPendingOperations :: "'cb stream_state \<Rightarrow> 'cb stream_state" where
  "CancelPendingOperations s = s\<lparr>cancelled := cancelled s @ accepted s, accepted := []\<rparr>"

definition SocketStream_TlsConnect :: "'cb \<Rightarrow> 'cb stream_state \<Rightarrow> 'cb stream_state" where
  "SocketStream_TlsConnect callback s =
     s\<lparr>connecting := connecting s @ [(OnSuccess callback, TlsError callback)]\<rparr>"

section \<open>Events\<close>

text \<open>
  The environment finishes an accepted operation or a TLS connection, with a size or an error,
  and the message loop runs a posted callback; which one is given by its position.
\<close>

datatype 'cb stream_event =
    EvRead verdict 'cb
  | EvWrite verdict 'cb
  | EvCancel
  | EvTlsConnect 'cb
  | EvFinished nat "nat + brillo_error"
  | EvTlsFinished nat "unit + brillo_error"
  | EvRunPosted nat

definition finish :: "'cb pending \<Rightarrow> nat + brillo_error \<Rightarrow> 'cb invocation" where
  "finish p outcome =
     (case outcome of Inl n \<Rightarrow> run_success (fst p) n | Inr e \<Rightarrow> OnError (snd p) e)"

fun stream_step :: "'cb stream_state \<Rightarrow> 'cb stream_event \<Rightarrow> 'cb stream_state result" where
  "stream_step s (EvRead v cb) = SocketStream_Read v cb s"
| "stream_step s (EvWrite v cb) = SocketStream_Write v cb s"
| "stream_step s EvCancel = Inr (CancelPendingOperations s)"
| "stream_step s (EvTlsConnect cb) = Inr (SocketStream_TlsConnect cb s)"
| "stream_step s (EvFinished i outcome) =
     Inr (case take_out i (accepted s) of
            None \<Rightarrow> s
          | Some (p, rest) \<Rightarrow> s\<lparr>accepted := rest, ran := ran s @ [finish p outcome]\<rparr>)"
| "stream_step s (EvTlsFinished i outcome) =
     Inr (case take_out i (connecting s) of
            None \<Rightarrow> s
          | Some (p, rest) \<Rightarrow>
              s\<lparr>connecting := rest, ran := ran s @ [finish p (map_sum (\<lambda>_. 0) (\<lambda>e. e) outcome)]\<rparr>)"
| "stream_step s (EvRunPosted i) =
     Inr (case take_out i (posted s) of
            None \<Rightarrow> s
          | Some (task, rest) \<Rightarrow> s\<lparr>posted := rest, ran := ran s @ [task]\<rparr>)"

section \<open>Every callback once\<close>

fun stream_asked :: "'cb stream_event \<Rightarrow> 'cb multiset" where
  "stream_asked (EvRead v cb) = {#cb#}"
| "stream_asked (EvWrite v cb) = {#cb#}"
| "stream_asked (EvTlsConnect cb) = {#cb#}"
| "stream_asked _ = {#}"

definition pending_cbs :: "'cb pending list \<Rightarrow> 'cb multiset" where
  "pending_cbs ps = mset (map (\<lambda>p. success_cb (fst p)) ps)"

definition stream_outstanding :: "'cb stream_state \<Rightarrow> 'cb multiset" where
  "stream_outstanding s =
     pending_cbs (accepted s) + pending_cbs (connecting s) + mset (map invoked (posted s))"

definition stream_settled :: "'cb stream_state \<Rightarrow> 'cb multiset" where
  "stream_settled s = mset (map invoked (ran s)) + pending_cbs (cancelled s)"

text \<open>Both closures of an operation belong to the same caller.\<close>

definition stream_ok :: "'cb stream_state \<Rightarrow> bool" where
  "stream_ok s \<longleftrightarrow>
     (\<forall>p \<in> set (accepted s @ connecting s). success_cb (fst p) = error_cb (snd p))"

lemma invoked_finish:
  "success_cb (fst p) = error_cb (snd p) \<Longrightarrow> invoked (finish p outcome) = success_cb (fst p)"
  by (cases "fst p"; cases "snd p") (auto simp: finish_def split: sum.split)

lemma stream_step_ok:
  assumes ok: "stream_ok s" and step: "stream_step s e = Inr s'"
  shows "stream_ok s'"
proof (cases e)
  case (EvFinished i outcome)
  show ?thesis
  proof (cases "take_out i (accepted s)")
    case (Some pr)
    then obtain p rest where pr: "take_out i (accepted s) = Some (p, rest)" by (cases pr) auto
    with take_out_set [OF pr] show ?thesis
      using ok step EvFinished by (auto simp: stream_ok_def subset_iff)
  qed (use ok step EvFinished in simp)
next
  case (EvTlsFinished i outcome)
  show ?thesis
  proof (cases "take_out i (connecting s)")
    case (Some pr)
    then obtain p rest where pr: "take_out i (connecting s) = Some (p, rest)" by (cases pr) auto
    with take_out_set [OF pr] show ?thesis
      using ok step EvTlsFinished by (auto simp: stream_ok_def subset_iff)
  qed (use ok step EvTlsFinished in simp)
next
  case (EvRunPosted i)
  then show ?thesis using ok step by (auto simp: stream_ok_def split: option.splits)
qed (use assms in \<open>auto simp: stream_ok_def SocketStream_Read_def SocketStream_Write_def
      CancelPendingOperations_def SocketStream_TlsConnect_def ball_Un
      split: verdict.splits option.splits\<close>)

lemma stream_step_balance:
  assumes ok: "stream_ok s" and step: "stream_step s e = Inr s'"
  shows "stream_outstanding s' + stream_settled s' = stream_outstanding s + stream_settled s + stream_asked e"
proof (cases e)
  case (EvFinished i outcome)
  show ?thesis
  proof (cases "take_out i (accepted s)")
    case (Some pr)
    obtain p rest where pr: "take_out i (accepted s) = Some (p, rest)" using Some by (cases pr) auto
    have "success_cb (fst p) = error_cb (snd p)"
      using take_out_set [OF pr] ok by (auto simp: stream_ok_def)
    from invoked_finish [OF this] take_out_mset_map [OF pr, of "\<lambda>p. success_cb (fst p)"] show ?thesis
      using step EvFinished pr
      by (auto simp: stream_outstanding_def stream_settled_def pending_cbs_def)
  qed (use step EvFinished in simp)
next
  case (EvTlsFinished i outcome)
  show ?thesis
  proof (cases "take_out i (connecting s)")
    case (Some pr)
    obtain p rest where pr: "take_out i (connecting s) = Some (p, rest)" using Some by (cases pr) auto
    have "success_cb (fst p) = error_cb (snd p)"
      using take_out_set [OF pr] ok by (auto simp: stream_ok_def)
    from invoked_finish [OF this] take_out_mset_map [OF pr, of "\<lambda>p. success_cb (fst p)"] show ?thesis
      using step EvTlsFinished pr
      by (auto simp: stream_outstanding_def stream_settled_def pending_cbs_def)
  qed (use step EvTlsFinished in simp)
next
  case (EvRunPosted i)
  then show ?thesis
    using step
    by (auto simp: stream_outstanding_def stream_settled_def
        dest: take_out_mset_map [of _ _ _ _ invoked] split: option.splits)
qed (use step in \<open>auto simp: stream_outstanding_def stream_settled_def pending_cbs_def
      SocketStream_Read_def SocketStream_Write_def CancelPendingOperations_def
      SocketStream_TlsConnect_def split: verdict.splits option.splits\<close>)

interpretation stream: completion
    "\<lambda>s. s = new_stream" stream_step stream_ok stream_asked stream_outstanding stream_settled
proof unfold_locales
  fix s :: "'a stream_state"
  assume "s = new_stream"
  then show "stream_ok s" "stream_outstanding s = {#} \<and> stream_settled s = {#}"
    by (simp_all add: new_stream_def stream_ok_def stream_outstanding_def stream_settled_def pending_cbs_def)
qed (rule stream_step_ok stream_step_balance; assumption)+

text \<open>
  Property C35.  Every callback is run once: over any run of reads, writes, TLS connections,
  cancellations and the environment's answers, the callbacks that were run, those cancelled and
  those still owed are, with multiplicity, exactly the callbacks handed in; and the run ends early
  only if the stream refuses an operation without giving an error.
\<close>

theorem stream_callbacks_run_once:
  "case run stream_step new_stream es of
     Inr s \<Rightarrow> mset (map invoked (ran s)) + pending_cbs (cancelled s) + stream_outstanding s =
              sum_list (map stream_asked es)
   | Inl _ \<Rightarrow> \<exists>cb. EvRead (Refused None) cb \<in> set es \<or> EvWrite (Refused None) cb \<in> set es"
proof (cases "run stream_step new_stream es")
  case (Inr s)
  then show ?thesis
    using stream.answered_once [OF refl Inr] by (simp add: stream_settled_def stream.asked_in_def ac_simps)
next
  case (Inl f)
  then obtain s' e where e: "e \<in> set es" "stream_step s' e = Inl f"
    using run_fault [OF Inl] by blast
  from e(2) have "\<exists>cb. e = EvRead (Refused None) cb \<or> e = EvWrite (Refused None) cb"
    by (cases e) (auto simp: SocketStream_Read_def SocketStream_Write_def split: verdict.splits option.splits)
  then show ?thesis using Inl e(1) by auto
qed

end
