(* ===== verification/Secure_Connection.thy ===== *)
theory Secure_Connection
  imports Shill_Client Socket_Connect Socket_Stream
begin

text \<open>
  A secure connection across three components: \<open>ShillClient::OpenSslSocket\<close> connects a socket
  with \<open>SocketStream::ConnectBlocking\<close>, and then either posts the error or starts
  \<open>SocketStream::TlsConnect\<close>.  The network client's effects are carried out on the streams of
  \<open>Socket_Stream\<close> and the descriptors of \<open>Socket_Connect\<close>.
\<close>

fun carry_out :: "shill_effect \<Rightarrow> nat stream_state \<Rightarrow> nat stream_state" where
  "carry_out (TlsConnect raw_stream host cb) st = SocketStream_TlsConnect cb st"
| "carry_out (PostSocketError cb e) st = st\<lparr>posted := posted st @ [RanTls cb False e]\<rparr>"
| "carry_out _ st = st"

text \<open>
  \<open>resolved\<close> are the addresses the host name has, \<open>made\<close> whether a stream can be made of a
  descriptor, \<open>errno\<close> the system error a failed connection leaves behind.
\<close>

definition open_secure_socket ::
    "address list option \<Rightarrow> bool \<Rightarrow> brillo_error \<Rightarrow> string \<Rightarrow> 16 word \<Rightarrow> nat \<Rightarrow>
     ShillClient \<times> nat stream_state \<times> fds \<Rightarrow> ShillClient \<times> nat stream_state \<times> fds" where
  "open_secure_socket resolved made errno host port cb world =
     (case world of (s, st, fds) \<Rightarrow>
        (let (raw_stream, fds') =
               (if sc_disable_xmpp s then (None, fds) else ConnectBlocking resolved made fds);
             s' = OpenSslSocket (\<lambda>_ _. map_option nat raw_stream) errno host port cb s;
             new_effects = drop (length (sc_effects s)) (sc_effects s')
         in (s', fold carry_out new_effects st, fds')))"

text \<open>The stream of the first address that accepts a connection, if one can be used.\<close>

definition usable_connection :: "address list option \<Rightarrow> bool \<Rightarrow> int option" where
  "usable_connection resolved made =
     (case first_connection resolved of
        None \<Rightarrow> None
      | Some fd \<Rightarrow> if fd = 0 \<or> \<not> made then None else Some fd)"

lemma open_secure_socket_cases:
  assumes "fresh_sockets fds resolved"
  shows "open_secure_socket resolved made errno host port cb (s, st, fds) =
     (if sc_disable_xmpp s then (s, st, fds)
      else case usable_connection resolved made of
        None \<Rightarrow> (sc_emit (PostSocketError cb (ConvertError_to_weave errno [])) s,
                 st\<lparr>posted := posted st @ [RanTls cb False (ConvertError_to_weave errno [])]\<rparr>,
                 if first_connection resolved = Some 0 then insert 0 fds else fds)
      | Some fd \<Rightarrow> (sc_emit (TlsConnect (nat fd) host cb) s, SocketStream_TlsConnect cb st, insert fd fds))"
  using ConnectBlocking_result [OF assms, of made]
  by (auto simp: open_secure_socket_def OpenSslSocket_def usable_connection_def sc_emit_def Let_def
      split: option.split)

text \<open>
  Property C36.  A request for a secure connection owes its caller exactly one run of the callback
  more, whatever fails, and holds at most one more descriptor; a host that cannot be connected is
  reported with the system's error.  With XMPP disabled nothing happens and the callback is never
  owed.
\<close>

theorem secure_connection_is_owed_once:
  assumes "fresh_sockets fds resolved"
    and "open_secure_socket resolved made errno host port cb (s, st, fds) = (s', st', fds')"
  shows "stream_outstanding st' = stream_outstanding st + (if sc_disable_xmpp s then {#} else {#cb#}) \<and>
    (sc_disable_xmpp s \<longrightarrow> s' = s \<and> st' = st \<and> fds' = fds) \<and>
    (\<not> sc_disable_xmpp s \<longrightarrow>
       (case usable_connection resolved made of
          None \<Rightarrow> last (posted st') = RanTls cb False (ConvertError_to_weave errno []) \<and>
                  fds' \<subseteq> insert 0 fds
        | Some fd \<Rightarrow> last (connecting st') = (OnSuccess cb, TlsError cb) \<and> fds' = insert fd fds))"
  using assms(2) unfolding open_secure_socket_cases [OF assms(1)]
  by (auto simp: stream_outstanding_def pending_cbs_def SocketStream_TlsConnect_def
      split: option.splits if_splits)


lemma secure_connection_is_owed_once_witness:
  "\<exists>s' st' fds'. open_secure_socket (Some [\<lparr>socket_result = 5, connect_result = 0\<rparr>]) True
       (BrilloError \<lparr>function_name = '''', file_name = '''', line_number = 0\<rparr> ''system'' ''EIO'' ''io'' None)
       ''host'' 443 9 (blank_ShillClient {} False, new_stream, {0, 1, 2}) = (s', st', fds') \<and>
     stream_outstanding st' = {#9#} \<and> fds' = {0, 1, 2, 5}"
proof -
  let ?resolved = "Some [\<lparr>socket_result = 5, connect_result = 0\<rparr>]"
  let ?errno = "BrilloError \<lparr>function_name = '''', file_name = '''', line_number = 0\<rparr> ''system'' ''EIO'' ''io'' None"
  obtain s' st' fds' where run: "open_secure_socket ?resolved True ?errno ''host'' 443 9
      (blank_ShillClient {} False, new_stream, {0, 1, 2}) = (s', st', fds')"
    by (metis prod_cases3)
  have fresh: "fresh_sockets {0, 1, 2} ?resolved" by (simp add: fresh_sockets_def)
  have "usable_connection ?resolved True = Some 5"
    by (simp add: usable_connection_def first_connection_def reachable_address_def)
  with secure_connection_is_owed_once [OF fresh run] show ?thesis
    using run by (auto simp: blank_ShillClient_def new_stream_def stream_outstanding_def pending_cbs_def)
qed

end
