(* ===== verification/Http_Transport.thy ===== *)
theory Http_Transport
  imports Completion Binder_Utils
begin

text \<open>
  \<^verbatim>\<open>buffet/http_transport_client.{h,cc}\<close>: libweave's HTTP client over brillo's HTTP
  transport.  The transport is the environment: it takes a request and finishes it with a response
  or an error, and it runs callbacks it was asked to run later.  What libweave's callback is run
  with is recorded in \<open>http_ran\<close>.
\<close>

section \<open>Requests and responses\<close>

definition kRequestTimeoutSeconds :: nat where
  "kRequestTimeoutSeconds = 30"

record http_request =
  request_url :: string
  request_method :: string
  request_headers :: "(string \<times> string) list"
  request_body :: "string option"

text \<open>The transport's response; its body can be extracted once, which the constructor does.\<close>

record transport_response =
  status_code :: int
  content_type :: string
  ExtractDataAsString :: string

record ResponseImpl =
  response :: transport_response
  response_data :: string

definition new_ResponseImpl :: "transport_response \<Rightarrow> ResponseImpl" where
  "new_ResponseImpl r = \<lparr>response = r, response_data = ExtractDataAsString r\<rparr>"

definition Response_GetStatusCode :: "ResponseImpl \<Rightarrow> int" where
  "Response_GetStatusCode r = status_code (response r)"

definition Response_GetContentType :: "ResponseImpl \<Rightarrow> string" where
  "Response_GetContentType r = content_type (response r)"

definition Response_GetData :: "ResponseImpl \<Rightarrow> string" where
  "Response_GetData r = response_data r"

section \<open>The client\<close>

text \<open>
  \<open>in_flight\<close> are the requests the transport has, each with the callback bound into its two
  closures; \<open>queued\<close> are the runs the transport was asked for with \<open>RunCallbackAsync\<close>.
\<close>

type_synonym 'cb http_answer = "'cb \<times> ResponseImpl option \<times> weave_error_ptr"

record 'cb http_client =
  default_timeout :: nat
  in_flight :: "(http_request \<times> 'cb) list"
  queued :: "'cb http_answer list"
  http_ran :: "'cb http_answer list"

definition new_HttpTransportClient :: "'cb http_client" where
  "new_HttpTransportClient =
     \<lparr>default_timeout = kRequestTimeoutSeconds, in_flight = [], queued = [], http_ran = []\<rparr>"

definition OnSuccessCallback :: "'cb \<Rightarrow> transport_response \<Rightarrow> 'cb http_answer" where
  "OnSuccessCallback callback r = (callback, Some (new_ResponseImpl r), [])"

definition OnErrorCallback :: "'cb \<Rightarrow> brillo_error \<Rightarrow> 'cb http_answer" where
  "OnErrorCallback callback e = (callback, None, ConvertError_to_weave e [])"

text \<open>
  \<open>stream\<close> is the memory stream opened on a copy of the data, given by its content, and
  \<open>AddRequestBody\<close> the transport's verdict on it: taken, or an error.
\<close>

datatype body_verdict = BodyTaken | BodyRefused "brillo_error option"

definition SendRequest ::
    "('m \<Rightarrow> string) \<Rightarrow> body_verdict \<Rightarrow> 'm \<Rightarrow> string \<Rightarrow> (string \<times> string) list \<Rightarrow> string \<Rightarrow> 'cb \<Rightarrow>
     'cb http_client \<Rightarrow> 'cb http_client result" where
  "SendRequest EnumToString AddRequestBody verb url headers data callback s =
     (let request = \<lparr>request_url = url, request_method = EnumToString verb,
                     request_headers = headers, request_body = None\<rparr>
      in if data \<noteq> '''' then
           (let stream = data
            in check (length stream \<noteq> 0) ''stream->GetRemainingSize()''
                (case AddRequestBody of
                   BodyRefused None \<Rightarrow> Inl (NullDeref ''cromeos_error'')
                 | BodyRefused (Some cromeos_error) \<Rightarrow>
                     Inr (s\<lparr>queued := queued s @ [(callback, None, ConvertError_to_weave cromeos_error [])]\<rparr>)
                 | BodyTaken \<Rightarrow>
                     Inr (s\<lparr>in_flight := in_flight s @ [(request\<lparr>request_body := Some stream\<rparr>, callback)]\<rparr>)))
         else Inr (s\<lparr>in_flight := in_flight s @ [(request, callback)]\<rparr>))"

section \<open>Events\<close>

datatype ('m, 'cb) http_event =
    HttpSend body_verdict 'm string "(string \<times> string) list" string 'cb
  | HttpFinished nat "transport_response + brillo_error"
  | HttpRunQueued nat

fun http_step :: "('m \<Rightarrow> string) \<Rightarrow> 'cb http_client \<Rightarrow> ('m, 'cb) http_event \<Rightarrow> 'cb http_client result" where
  "http_step EnumToString s (HttpSend v verb url headers data cb) =
     SendRequest EnumToString v verb url headers data cb s"
| "http_step EnumToString s (HttpFinished i outcome) =
     Inr (case take_out i (in_flight s) of
            None \<Rightarrow> s
          | Some ((request, cb), rest) \<Rightarrow>
              s\<lparr>in_flight := rest,
                http_ran := http_ran s @ [case outcome of Inl r \<Rightarrow> OnSuccessCallback cb r
                                                        | Inr e \<Rightarrow> OnErrorCallback cb e]\<rparr>)"
| "http_step EnumToString s (HttpRunQueued i) =
     Inr (case take_out i (queued s) of
            None \<Rightarrow> s
          | Some (answer, rest) \<Rightarrow> s\<lparr>queued := rest, http_ran := http_ran s @ [answer]\<rparr>)"

section \<open>Every request answered once\<close>

fun http_asked :: "('m, 'cb) http_event \<Rightarrow> 'cb multiset" where
  "http_asked (HttpSend v verb url headers data cb) = {#cb#}"
| "http_asked _ = {#}"

definition http_outstanding :: "'cb http_client \<Rightarrow> 'cb multiset" where
  "http_outstanding s = mset (map snd (in_flight s)) + mset (map fst (queued s))"

definition http_settled :: "'cb http_client \<Rightarrow> 'cb multiset" where
  "http_settled s = mset (map fst (http_ran s))"

text \<open>An answer has a response or an error, never both or neither.\<close>

definition one_of :: "'cb http_answer \<Rightarrow> bool" where
  "one_of a = (case a of (_, r, e) \<Rightarrow> (r = None) \<noteq> (e = []))"

definition http_ok :: "'cb http_client \<Rightarrow> bool" where
  "http_ok s \<longleftrightarrow> default_timeout s = kRequestTimeoutSeconds \<and>
     list_all one_of (queued s) \<and> list_all one_of (http_ran s)"

lemma one_of_simps [simp]:
  "one_of (OnSuccessCallback cb r)" "one_of (OnErrorCallback cb e)"
  "one_of (cb, None, ConvertError_to_weave e p)"
  by (simp_all add: one_of_def OnSuccessCallback_def OnErrorCallback_def)

lemma fst_answers [simp]:
  "fst (OnSuccessCallback cb r) = cb" "fst (OnErrorCallback cb e) = cb"
  by (simp_all add: OnSuccessCallback_def OnErrorCallback_def)

lemma http_step_ok:
  assumes ok: "http_ok s" and step: "http_step EnumToString s e = Inr s'"
  shows "http_ok s'"
proof (cases e)
  case (HttpFinished i outcome)
  then show ?thesis
    using assms by (auto simp: http_ok_def list_all_iff split: option.splits prod.splits sum.splits)
next
  case (HttpRunQueued i)
  show ?thesis
  proof (cases "take_out i (queued s)")
    case (Some pr)
    then obtain p rest where pr: "take_out i (queued s) = Some (p, rest)" by (cases pr) auto
    with take_out_set [OF pr] show ?thesis
      using ok step HttpRunQueued by (auto simp: http_ok_def list_all_iff subset_iff)
  qed (use ok step HttpRunQueued in simp)
qed (use assms in \<open>auto simp: http_ok_def SendRequest_def Let_def split: if_splits body_verdict.splits option.splits\<close>)

lemma http_step_balance:
  assumes "http_step EnumToString s e = Inr s'"
  shows "http_outstanding s' + http_settled s' = http_outstanding s + http_settled s + http_asked e"
proof (cases e)
  case (HttpFinished i outcome)
  show ?thesis
  proof (cases "take_out i (in_flight s)")
    case (Some pr)
    then obtain r cb rest where pr: "take_out i (in_flight s) = Some ((r, cb), rest)" by (cases pr) auto
    from take_out_mset_map [OF pr, of snd] show ?thesis
      using assms HttpFinished pr by (auto simp: http_outstanding_def http_settled_def split: sum.split)
  qed (use assms HttpFinished in simp)
next
  case (HttpRunQueued i)
  then show ?thesis
    using assms by (auto simp: http_outstanding_def http_settled_def
        dest: take_out_mset_map [of _ _ _ _ fst] split: option.splits)
qed (use assms in \<open>auto simp: http_outstanding_def http_settled_def SendRequest_def Let_def
      split: if_splits body_verdict.splits option.splits\<close>)

lemma http_new:
  "http_ok new_HttpTransportClient" "http_outstanding new_HttpTransportClient = {#}"
  "http_settled new_HttpTransportClient = {#}"
  by (simp_all add: new_HttpTransportClient_def http_ok_def http_outstanding_def http_settled_def)

interpretation http: completion
    "\<lambda>s. s = new_HttpTransportClient" "http_step EnumToString" http_ok http_asked
    http_outstanding http_settled
  for EnumToString
  by unfold_locales (simp_all add: http_new http_step_ok http_step_balance)

text \<open>What the transport was given is what was asked for.\<close>

definition sent_as_asked :: "('m \<Rightarrow> string) \<Rightarrow> ('m, 'cb) http_event list \<Rightarrow> http_request \<times> 'cb \<Rightarrow> bool" where
  "sent_as_asked EnumToString es p =
     (case p of (r, cb) \<Rightarrow>
        \<exists>v verb data. HttpSend v verb (request_url r) (request_headers r) data cb \<in> set es \<and>
          request_method r = EnumToString verb \<and>
          request_body r = (if data = '''' then None else Some data))"

lemma sent_as_asked_mono: "sent_as_asked E es p \<Longrightarrow> set es \<subseteq> set es' \<Longrightarrow> sent_as_asked E es' p"
  unfolding sent_as_asked_def by (cases p) blast

lemma sent_as_asked_new:
  "sent_as_asked E (es @ [HttpSend v verb url headers data cb])
     (\<lparr>request_url = url, request_method = E verb, request_headers = headers,
       request_body = (if data = '''' then None else Some data)\<rparr>, cb)"
  by (auto simp: sent_as_asked_def)

lemma http_step_sent:
  assumes sent: "list_all (sent_as_asked E es) (in_flight s)" and step: "http_step E s e = Inr s'"
  shows "list_all (sent_as_asked E (es @ [e])) (in_flight s')"
proof -
  have old: "\<forall>p \<in> set (in_flight s). sent_as_asked E (es @ [e]) p"
    using sent sent_as_asked_mono [of E es _ "es @ [e]"] by (auto simp: list_all_iff)
  show ?thesis
  proof (cases e)
    case (HttpSend v verb url headers data cb)
    then show ?thesis
      using step old sent_as_asked_new [of E es v verb url headers data cb]
      by (auto simp: list_all_iff SendRequest_def Let_def split: if_splits body_verdict.splits option.splits)
  next
    case (HttpFinished i outcome)
    show ?thesis
    proof (cases "take_out i (in_flight s)")
      case (Some pr)
      then obtain p rest where pr: "take_out i (in_flight s) = Some (p, rest)" by (cases pr) auto
      with take_out_set [OF pr] show ?thesis
        using old step HttpFinished by (cases p) (auto simp: list_all_iff subset_iff)
    qed (use old step HttpFinished in \<open>simp add: list_all_iff\<close>)
  next
    case (HttpRunQueued i)
    then show ?thesis using old step by (auto simp: list_all_iff split: option.splits prod.splits)
  qed
qed

interpretation http_history: simulation
    "http_step E" "\<lambda>e es. es @ [e]" "\<lambda>s es. list_all (sent_as_asked E es) (in_flight s)" "\<lambda>_. True"
  for E
  by unfold_locales (rule http_step_sent)

text \<open>
  Property C34.  Every request is answered once: over any run of requests and of the transport's
  events, the callbacks that were run and those still owed are, with multiplicity, exactly the
  callbacks of the requests; every run has either a response or an error; a request the transport
  holds has the method, URL, headers and body it was made with; and the run ends early only if the
  transport refuses a body without giving an error.
\<close>

theorem every_request_is_answered_once:
  "case run (http_step EnumToString) new_HttpTransportClient es of
     Inr s \<Rightarrow> mset (map fst (http_ran s)) + http_outstanding s = sum_list (map http_asked es) \<and>
              list_all one_of (http_ran s) \<and> default_timeout s = 30 \<and>
              list_all (sent_as_asked EnumToString es) (in_flight s)
   | Inl _ \<Rightarrow> \<exists>verb url headers data cb.
                HttpSend (BodyRefused None) verb url headers data cb \<in> set es"
proof (cases "run (http_step EnumToString) new_HttpTransportClient es")
  case (Inr s)
  have "list_all (sent_as_asked EnumToString es) (in_flight s)"
    using http_history.run_simulates [OF _ _ Inr, of "[]"]
    by (simp add: fold_snoc new_HttpTransportClient_def list_all_iff)
  then show ?thesis
    using http.answered_once [OF refl Inr] http.inv_run [OF refl Inr] Inr
    by (simp add: http_settled_def http_ok_def kRequestTimeoutSeconds_def http.asked_in_def add.commute)
next
  case (Inl f)
  then obtain s' e where e: "e \<in> set es" "http_step EnumToString s' e = Inl f"
    using run_fault [OF Inl] by blast
  from e(2) have "\<exists>verb url headers data cb. e = HttpSend (BodyRefused None) verb url headers data cb"
    by (cases e) (auto simp: SendRequest_def Let_def split: if_splits body_verdict.splits option.splits)
  with e(1) have "\<exists>verb url headers data cb. HttpSend (BodyRefused None) verb url headers data cb \<in> set es"
    by metis
  then show ?thesis using Inl by simp
qed

end
