(* ===== verification/Bluetooth_Client.thy ===== *)
theory Bluetooth_Client
  imports Socket_Connect
begin

text \<open>
  \<^verbatim>\<open>buffet/flouride_socket_bluetooth_client.cc\<close>: the socket to the Bluetooth daemon.  The
  state is the stream the client owns, given by its descriptor, and the open descriptors.
\<close>

definition kFlourideSocketPath :: string where
  "kFlourideSocketPath = ''/dev/socket/bluetooth''"

record bluetooth_client =
  bt_stream :: "int option"

definition new_FlourideSocketBluetoothClient :: bluetooth_client where
  "new_FlourideSocketBluetoothClient = \<lparr>bt_stream = None\<rparr>"

text \<open>
  The address carries what \<open>socket\<close> and \<open>connect\<close> return; \<open>made\<close> is whether a file stream
  can be made of the descriptor.  Assigning \<open>stream_\<close> closes the stream it held.
\<close>

definition OpenSocket ::
    "address \<Rightarrow> bool \<Rightarrow> bluetooth_client \<times> fds \<Rightarrow> bool \<times> bluetooth_client \<times> fds" where
  "OpenSocket a made w =
     (case w of (c, fds) \<Rightarrow>
        (let socket_fd = socket_result a
         in if socket_fd < 0 then (False, c, fds)
            else let fds = insert socket_fd fds
                 in if connect_result a \<noteq> 0 then (False, c, fds - {socket_fd})
                    else (True, c\<lparr>bt_stream := (if made then Some socket_fd else None)\<rparr>,
                          fds - set_option (bt_stream c))))"

text \<open>The path and its terminating zero fit into the 108 bytes of a socket address.\<close>

lemma path_fits: "length kFlourideSocketPath + 1 \<le> 108"
  by (simp add: kFlourideSocketPath_def)

text \<open>
  \<open>OpenSocket\<close> accounts for its descriptors: a failure leaves client and descriptors alone, a
  success replaces the old stream's descriptor; only when no stream can be made of it the new
  descriptor stays open without an owner, although success is reported.
\<close>

lemma OpenSocket_descriptors:
  assumes "socket_result a \<notin> fds" and "OpenSocket a made (c, fds) = (ok, c', fds')"
  shows "ok = reachable_address a \<and>
    (if \<not> ok then c' = c \<and> fds' = fds
     else fds' = insert (socket_result a) fds - set_option (bt_stream c) \<and>
          bt_stream c' = (if made then Some (socket_result a) else None))"
  using assms by (auto simp: OpenSocket_def reachable_address_def Let_def split: if_splits)

end
