(* ===== verification/Daemon_Main.thy ===== *)
theory Daemon_Main
  imports Buffet_Manager
begin

text \<open>
  \<^verbatim>\<open>buffet/main.cc\<close>: the options the command line gives, and the daemon around the
  manager: its start, its registration with binder, its shutdown.  Outside the repository, so
  arguments: the flag parser's result, the string splitter, and what libbrillo's daemon classes
  return.
\<close>

section \<open>Options\<close>

record flags =
  FLAGS_config_path :: string
  FLAGS_state_path :: string
  FLAGS_enable_xmpp :: bool
  FLAGS_disable_privet :: bool
  FLAGS_enable_ping :: bool
  FLAGS_device_whitelist :: string
  FLAGS_test_privet_ssid :: string
  FLAGS_test_definitions_path :: string

definition kDefaultConfigFilePath :: string where
  "kDefaultConfigFilePath = ''/etc/weaved/weaved.conf''"

definition kDefaultStateFilePath :: string where
  "kDefaultStateFilePath = ''/data/misc/weaved/device_reg_info''"

text \<open>The values of the flags that are not on the command line.\<close>

definition default_flags :: flags where
  "default_flags =
     \<lparr>FLAGS_config_path = kDefaultConfigFilePath, FLAGS_state_path = kDefaultStateFilePath,
      FLAGS_enable_xmpp = True, FLAGS_disable_privet = False, FLAGS_enable_ping = False,
      FLAGS_device_whitelist = '''', FLAGS_test_privet_ssid = '''', FLAGS_test_definitions_path = ''''\<rparr>"

text \<open>An empty path is replaced by the default one.\<close>

definition default_empty_paths :: "flags \<Rightarrow> flags" where
  "default_empty_paths f =
     (let f = (if FLAGS_config_path f = '''' then f\<lparr>FLAGS_config_path := kDefaultConfigFilePath\<rparr> else f)
      in if FLAGS_state_path f = '''' then f\<lparr>FLAGS_state_path := kDefaultStateFilePath\<rparr> else f)"

text \<open>
  The whitelist becomes an ordered set.  The account fields of the configuration's options keep
  their initial, empty values.
\<close>

definition main_options :: "(string \<Rightarrow> string list) \<Rightarrow> flags \<Rightarrow> manager_options" where
  "main_options split_list flags =
     (let f = default_empty_paths flags;
          whitelist = split_list (FLAGS_device_whitelist f)
      in \<lparr>xmpp_enabled = FLAGS_enable_xmpp f,
          disable_privet = FLAGS_disable_privet f,
          enable_ping = FLAGS_enable_ping f,
          device_whitelist = remdups (sort whitelist),
          config_options =
            \<lparr>opt_client_id = '''', opt_client_secret = '''', opt_api_key = '''', opt_oauth_url = '''',
             opt_service_url = '''', opt_defaults = FLAGS_config_path f, opt_settings = FLAGS_state_path f,
             opt_definitions = ''/etc/weaved'', opt_test_definitions = FLAGS_test_definitions_path f,
             opt_test_privet_ssid = FLAGS_test_privet_ssid f\<rparr>\<rparr>)"

lemma default_empty_paths_fields [simp]:
  "FLAGS_enable_xmpp (default_empty_paths f) = FLAGS_enable_xmpp f"
  "FLAGS_disable_privet (default_empty_paths f) = FLAGS_disable_privet f"
  "FLAGS_enable_ping (default_empty_paths f) = FLAGS_enable_ping f"
  "FLAGS_device_whitelist (default_empty_paths f) = FLAGS_device_whitelist f"
  "FLAGS_test_privet_ssid (default_empty_paths f) = FLAGS_test_privet_ssid f"
  "FLAGS_test_definitions_path (default_empty_paths f) = FLAGS_test_definitions_path f"
  by (simp_all add: default_empty_paths_def Let_def)

lemma paths_not_empty [simp]:
  "FLAGS_config_path (default_empty_paths f) \<noteq> ''''" "FLAGS_state_path (default_empty_paths f) \<noteq> ''''"
  by (simp_all add: default_empty_paths_def kDefaultConfigFilePath_def kDefaultStateFilePath_def Let_def)

section \<open>The daemon\<close>

text \<open>
  The daemon holds its options and, once its D-Bus objects are registered, the manager; the
  manager's binder object is registered by name before the manager is started.
\<close>

record 'dev daemon =
  dm_options :: manager_options
  dm_manager :: "'dev Manager option"
  dm_binder_services :: "string list"

definition new_Daemon :: "manager_options \<Rightarrow> 'dev daemon" where
  "new_Daemon options = \<lparr>dm_options = options, dm_manager = None, dm_binder_services = []\<rparr>"

definition kWeaveServiceName :: string where
  "kWeaveServiceName = ''weave_service''"

definition EX_OSERR :: int where
  "EX_OSERR = 71"

text \<open>\<open>base_init\<close> is what \<^verbatim>\<open>DBusServiceDaemon::OnInit\<close> returns.\<close>

definition OnInit :: "bool \<Rightarrow> int \<Rightarrow> int" where
  "OnInit watcher_ok base_init = (if \<not> watcher_ok then EX_OSERR else base_init)"

definition RegisterDBusObjectsAsync ::
    "bool \<Rightarrow> ('dev, 'v) manager_device_api \<Rightarrow> 'dev manager_env \<Rightarrow> nat \<Rightarrow> 'dev daemon \<Rightarrow> 'dev daemon result" where
  "RegisterDBusObjectsAsync wifi api env first_address d =
     (let m = new_Manager (dm_options d) first_address;
          d = d\<lparr>dm_binder_services := dm_binder_services d @ [kWeaveServiceName]\<rparr>
      in bind_result (Manager_Start wifi api env m) (\<lambda>m. Inr (d\<lparr>dm_manager := Some m\<rparr>)))"

definition OnShutdown :: "bool \<Rightarrow> 'dev daemon \<Rightarrow> 'dev daemon result" where
  "OnShutdown wifi d =
     (case dm_manager d of
        None \<Rightarrow> Inl (NullDeref ''manager_'')
      | Some m \<Rightarrow> Inr (d\<lparr>dm_manager := Some (Manager_Stop wifi m)\<rparr>))"

end
