(* ===== verification/Web_Server_Client.thy ===== *)
theory Web_Server_Client
  imports Prelude
begin

text \<open>
  The HTTP server libweave uses (\<open>src/buffet/webserv_client.cc\<close>): which ports and which
  certificate it reports while the web server's protocol handlers come and go, when it announces
  that the server is available, and how a request's body is read.  libwebserv is a parameter: the
  protocol handlers it reports are the events, their two names are arguments, and a request's
  data stream is a state with a read operation.
\<close>

section \<open>The server\<close>

text \<open>
  \<open>GetPorts\<close> returns an ordered set of ports, a sorted list here.  Handlers are registered with
  the default HTTP or HTTPS handler; \<open>available_calls\<close> counts the runs of
  \<open>server_available_callback_\<close>.
\<close>

record protocol_handler =
  handler_name :: string
  handler_ports :: "16 word list"
  handler_fingerprint :: "8 word list"

datatype transport = Http | Https

record 'cb webserv =
  http_port :: "16 word"
  https_port :: "16 word"
  certificate :: "8 word list"
  request_handlers :: "(transport \<times> string \<times> string \<times> 'cb) list"
  available_calls :: nat

definition new_WebServClient :: "'cb webserv" where
  "new_WebServClient =
     \<lparr>http_port = 0, https_port = 0, certificate = [], request_handlers = [], available_calls = 0\<rparr>"

definition AddHttpRequestHandler :: "string \<Rightarrow> 'cb \<Rightarrow> 'cb webserv \<Rightarrow> 'cb webserv" where
  "AddHttpRequestHandler path callback s =
     s\<lparr>request_handlers := request_handlers s @ [(Http, path, '''', callback)]\<rparr>"

definition AddHttpsRequestHandler :: "string \<Rightarrow> 'cb \<Rightarrow> 'cb webserv \<Rightarrow> 'cb webserv" where
  "AddHttpsRequestHandler path callback s =
     s\<lparr>request_handlers := request_handlers s @ [(Https, path, '''', callback)]\<rparr>"

definition GetHttpPort :: "'cb webserv \<Rightarrow> 16 word" where
  "GetHttpPort s = http_port s"

definition GetHttpsPort :: "'cb webserv \<Rightarrow> 16 word" where
  "GetHttpsPort s = https_port s"

definition GetHttpsCertificateFingerprint :: "'cb webserv \<Rightarrow> 8 word list" where
  "GetHttpsCertificateFingerprint s = certificate s"

text \<open>The first port; an empty set has none to read.\<close>

definition first_port :: "protocol_handler \<Rightarrow> (16 word \<Rightarrow> 'a result) \<Rightarrow> 'a result" where
  "first_port h k =
     (case handler_ports h of [] \<Rightarrow> Inl (DanglingUse ''GetPorts().begin()'') | p # _ \<Rightarrow> k p)"

text \<open>The end of \<open>OnProtocolHandlerConnected\<close>, with its condition as it is written.\<close>

definition run_server_available :: "'cb webserv \<Rightarrow> 'cb webserv" where
  "run_server_available s =
     (if https_port s \<noteq> 0 \<and> https_port s \<noteq> 0
      then s\<lparr>available_calls := available_calls s + 1\<rparr> else s)"

lemma run_server_available_simps [simp]:
  "http_port (run_server_available s) = http_port s"
  "https_port (run_server_available s) = https_port s"
  "certificate (run_server_available s) = certificate s"
  "available_calls (run_server_available s) = available_calls s + (if https_port s \<noteq> 0 then 1 else 0)"
  by (simp_all add: run_server_available_def)

definition OnProtocolHandlerConnected ::
    "string \<Rightarrow> string \<Rightarrow> protocol_handler \<Rightarrow> 'cb webserv \<Rightarrow> 'cb webserv result" where
  "OnProtocolHandlerConnected kHttp kHttps h s =
     bind_result
       (if handler_name h = kHttp then first_port h (\<lambda>p. Inr (s\<lparr>http_port := p\<rparr>))
        else if handler_name h = kHttps
        then first_port h (\<lambda>p. Inr (s\<lparr>https_port := p, certificate := handler_fingerprint h\<rparr>))
        else Inr s)
       (\<lambda>s. Inr (run_server_available s))"

definition OnProtocolHandlerDisconnected ::
    "string \<Rightarrow> string \<Rightarrow> protocol_handler \<Rightarrow> 'cb webserv \<Rightarrow> 'cb webserv" where
  "OnProtocolHandlerDisconnected kHttp kHttps h s =
     (if handler_name h = kHttp then s\<lparr>http_port := 0\<rparr>
      else if handler_name h = kHttps then s\<lparr>https_port := 0, certificate := []\<rparr>
      else s)"

datatype 'cb web_event =
    HandlerConnected protocol_handler
  | HandlerDisconnected protocol_handler
  | AddHandler transport string 'cb

fun web_step :: "string \<Rightarrow> string \<Rightarrow> 'cb webserv \<Rightarrow> 'cb web_event \<Rightarrow> 'cb webserv result" where
  "web_step kHttp kHttps s (HandlerConnected h) = OnProtocolHandlerConnected kHttp kHttps h s"
| "web_step kHttp kHttps s (HandlerDisconnected h) = Inr (OnProtocolHandlerDisconnected kHttp kHttps h s)"
| "web_step kHttp kHttps s (AddHandler t path cb) =
     Inr (case t of Http \<Rightarrow> AddHttpRequestHandler path cb s | Https \<Rightarrow> AddHttpsRequestHandler path cb s)"

section \<open>Specification\<close>

text \<open>
  The protocol handler of a name that is connected now, by the events alone, and how often a
  handler connected while the HTTPS one was up.
\<close>

definition current_step :: "string \<Rightarrow> 'cb web_event \<Rightarrow> protocol_handler option \<Rightarrow> protocol_handler option" where
  "current_step n e c =
     (case e of
        HandlerConnected h \<Rightarrow> if handler_name h = n then Some h else c
      | HandlerDisconnected h \<Rightarrow> if handler_name h = n then None else c
      | AddHandler t p cb \<Rightarrow> c)"

definition current_handler :: "string \<Rightarrow> 'cb web_event list \<Rightarrow> protocol_handler option" where
  "current_handler n es = fold (current_step n) es None"

definition reported_port :: "protocol_handler option \<Rightarrow> 16 word" where
  "reported_port c = (case c of None \<Rightarrow> 0 | Some h \<Rightarrow> hd (handler_ports h))"

definition announcements :: "string \<Rightarrow> 'cb web_event list \<Rightarrow> nat" where
  "announcements kHttps es =
     length (filter (\<lambda>i. (case es ! i of HandlerConnected _ \<Rightarrow> True | _ \<Rightarrow> False) \<and>
                         reported_port (current_handler kHttps (take (i + 1) es)) \<noteq> 0)
       [0 ..< length es])"

lemma current_handler_snoc [simp]:
  "current_handler n (es @ [e]) = current_step n e (current_handler n es)"
  by (simp add: current_handler_def)

lemma announcements_snoc [simp]:
  "announcements kHttps (es @ [e]) = announcements kHttps es +
     (if (case e of HandlerConnected _ \<Rightarrow> True | _ \<Rightarrow> False) \<and>
         reported_port (current_handler kHttps (es @ [e])) \<noteq> 0 then 1 else 0)"
proof -
  have "filter (\<lambda>i. (case (es @ [e]) ! i of HandlerConnected _ \<Rightarrow> True | _ \<Rightarrow> False) \<and>
           reported_port (current_handler kHttps (take (i + 1) (es @ [e]))) \<noteq> 0) [0 ..< length es] =
        filter (\<lambda>i. (case es ! i of HandlerConnected _ \<Rightarrow> True | _ \<Rightarrow> False) \<and>
           reported_port (current_handler kHttps (take (i + 1) es)) \<noteq> 0) [0 ..< length es]"
    by (rule filter_cong) (auto simp: nth_append)
  then show ?thesis by (simp add: announcements_def)
qed

text \<open>What the client's fields mean after the events \<open>es\<close>.\<close>

definition web_rel :: "string \<Rightarrow> string \<Rightarrow> 'cb webserv \<Rightarrow> 'cb web_event list \<Rightarrow> bool" where
  "web_rel kHttp kHttps s es \<longleftrightarrow>
     http_port s = reported_port (current_handler kHttp es) \<and>
     https_port s = reported_port (current_handler kHttps es) \<and>
     certificate s = (case current_handler kHttps es of None \<Rightarrow> [] | Some h \<Rightarrow> handler_fingerprint h) \<and>
     available_calls s = announcements kHttps es"

lemma web_step_rel:
  assumes rel: "kHttp \<noteq> kHttps \<longrightarrow> web_rel kHttp kHttps s es" and step: "web_step kHttp kHttps s e = Inr s'"
  shows "kHttp \<noteq> kHttps \<longrightarrow> web_rel kHttp kHttps s' (es @ [e])"
proof (cases e)
  case (HandlerConnected h)
  with rel step show ?thesis
    by (auto simp: web_rel_def OnProtocolHandlerConnected_def first_port_def current_step_def
        reported_port_def split: if_splits list.splits)
next
  case (HandlerDisconnected h)
  with rel step show ?thesis
    by (auto simp: web_rel_def OnProtocolHandlerDisconnected_def current_step_def reported_port_def)
next
  case (AddHandler t p cb)
  with rel step show ?thesis
    by (cases t) (auto simp: web_rel_def AddHttpRequestHandler_def AddHttpsRequestHandler_def current_step_def)
qed

interpretation web: simulation
    "web_step kHttp kHttps" "\<lambda>e es. es @ [e]" "\<lambda>s es. kHttp \<noteq> kHttps \<longrightarrow> web_rel kHttp kHttps s es" "\<lambda>_. True"
  for kHttp kHttps
  by unfold_locales (rule web_step_rel)

text \<open>
  Property C31.  The ports and the certificate are those of the protocol handlers connected now,
  zero and empty for one that is not; and the server is announced each time a handler connects
  while the HTTPS handler is up, whether or not there is an HTTP handler.
\<close>

theorem web_server_reports_current_handlers:
  assumes "kHttp \<noteq> kHttps" and "run (web_step kHttp kHttps) new_WebServClient es = Inr s"
  shows "GetHttpPort s = reported_port (current_handler kHttp es) \<and>
     GetHttpsPort s = reported_port (current_handler kHttps es) \<and>
     GetHttpsCertificateFingerprint s =
       (case current_handler kHttps es of None \<Rightarrow> [] | Some h \<Rightarrow> handler_fingerprint h) \<and>
     available_calls s = announcements kHttps es"
proof -
  have "kHttp \<noteq> kHttps \<longrightarrow> web_rel kHttp kHttps (new_WebServClient :: 'a webserv) []"
    by (simp add: web_rel_def new_WebServClient_def current_handler_def reported_port_def announcements_def)
  from web.run_simulates [OF this _ assms(2)] show ?thesis
    using assms(1)
    by (simp add: fold_snoc list_all_iff web_rel_def GetHttpPort_def GetHttpsPort_def
        GetHttpsCertificateFingerprint_def)
qed

lemma web_server_reports_current_handlers_witness:
  "\<exists>s :: unit webserv. run (web_step ''http'' ''https'') new_WebServClient
      [HandlerConnected \<lparr>handler_name = ''https'', handler_ports = [443], handler_fingerprint = [1]\<rparr>] = Inr s \<and>
     GetHttpPort s = 0 \<and> GetHttpsPort s = 443 \<and> GetHttpsCertificateFingerprint s = [1] \<and>
     available_calls s = 1"
proof -
  let ?h = "\<lparr>handler_name = ''https'', handler_ports = [443], handler_fingerprint = [1]\<rparr>"
  obtain s :: "unit webserv" where
    s: "run (web_step ''http'' ''https'') new_WebServClient [HandlerConnected ?h] = Inr s"
    by (simp add: OnProtocolHandlerConnected_def first_port_def)
  show ?thesis
    using web_server_reports_current_handlers [OF _ s] s
    by (simp add: current_handler_def current_step_def reported_port_def announcements_def del: run.simps)
qed

section \<open>Requests\<close>

text \<open>
  A request as libweave sees it: libwebserv's request, whose body is a stream, and the text
  replies sent to it.  \<open>ReadBlocking\<close> gives the bytes it read and the rest of the stream, or
  fails; reading nothing is the end.  The loop need not end, so its result is optional.
\<close>

record 'st request_impl =
  request_path :: string
  request_header :: "string \<Rightarrow> string"
  data_stream :: "'st option"
  request_data :: "string option"
  replies :: "(int \<times> string \<times> string) list"

definition Request_GetPath :: "'st request_impl \<Rightarrow> string" where
  "Request_GetPath r = request_path r"

definition Request_GetFirstHeader :: "string \<Rightarrow> 'st request_impl \<Rightarrow> string" where
  "Request_GetFirstHeader name r = request_header r name"

partial_function (option) read_loop ::
    "('st \<Rightarrow> nat \<Rightarrow> (string \<times> 'st) option) \<Rightarrow> 'st \<Rightarrow> string \<Rightarrow> string option" where
  "read_loop ReadBlocking stream acc =
     (case ReadBlocking stream (16 * 1024) of
        None \<Rightarrow> Some acc
      | Some (buffer, stream') \<Rightarrow>
          if buffer = [] then Some acc else read_loop ReadBlocking stream' (acc @ buffer))"

definition Request_GetData ::
    "('st \<Rightarrow> nat \<Rightarrow> (string \<times> 'st) option) \<Rightarrow> 'st request_impl \<Rightarrow> (string \<times> 'st request_impl) option" where
  "Request_GetData ReadBlocking r =
     (case request_data r of
        Some d \<Rightarrow> Some (d, r)
      | None \<Rightarrow>
          (case (case data_stream r of None \<Rightarrow> Some '''' | Some st \<Rightarrow> read_loop ReadBlocking st '''') of
             None \<Rightarrow> None
           | Some d \<Rightarrow> Some (d, r\<lparr>request_data := Some d\<rparr>)))"

definition Request_SendReply :: "int \<Rightarrow> string \<Rightarrow> string \<Rightarrow> 'st request_impl \<Rightarrow> 'st request_impl" where
  "Request_SendReply status_code data mime_type r =
     r\<lparr>replies := replies r @ [(status_code, data, mime_type)]\<rparr>"

text \<open>\<open>OnRequest\<close> runs the registered callback with a request that has read nothing yet.\<close>

definition WebServClient_OnRequest ::
    "('st request_impl \<Rightarrow> 'b) \<Rightarrow> string \<Rightarrow> (string \<Rightarrow> string) \<Rightarrow> 'st option \<Rightarrow> 'b" where
  "WebServClient_OnRequest callback path header stream =
     callback \<lparr>request_path = path, request_header = header, data_stream = stream,
               request_data = None, replies = []\<rparr>"

text \<open>The stream \<open>st\<close> delivers the nonempty chunks \<open>cs\<close> and then ends.\<close>

fun stream_gives :: "('st \<Rightarrow> nat \<Rightarrow> (string \<times> 'st) option) \<Rightarrow> 'st \<Rightarrow> string list \<Rightarrow> bool" where
  "stream_gives rd st [] =
     (case rd st (16 * 1024) of None \<Rightarrow> True | Some (c, _) \<Rightarrow> c = [])"
| "stream_gives rd st (c # cs) =
     (c \<noteq> [] \<and> (case rd st (16 * 1024) of
        None \<Rightarrow> False | Some (c', st') \<Rightarrow> c' = c \<and> stream_gives rd st' cs))"

lemma read_loop_gives:
  "stream_gives rd st cs \<Longrightarrow> read_loop rd st acc = Some (acc @ concat cs)"
proof (induction cs arbitrary: st acc)
  case Nil
  then show ?case by (subst read_loop.simps) (auto split: option.splits)
next
  case (Cons c cs)
  then show ?case by (subst read_loop.simps) (auto split: option.splits)
qed

text \<open>The body is what the stream delivers, and reading it again gives the same.\<close>

lemma GetData_is_the_body:
  assumes "data_stream r = Some st" "request_data r = None" "stream_gives rd st cs"
  shows "\<exists>r'. Request_GetData rd r = Some (concat cs, r') \<and> Request_GetData rd r' = Some (concat cs, r')"
  using read_loop_gives [OF assms(3), of "''''"] assms(1,2) by (simp add: Request_GetData_def)

text \<open>Every read that gives something leaves less to read.\<close>

definition stream_shrinks :: "('st \<Rightarrow> nat \<Rightarrow> (string \<times> 'st) option) \<Rightarrow> ('st \<Rightarrow> nat) \<Rightarrow> bool" where
  "stream_shrinks rd left \<longleftrightarrow>
     (\<forall>st c st'. rd st (16 * 1024) = Some (c, st') \<longrightarrow> c \<noteq> [] \<longrightarrow> left st' < left st)"

lemma shrinking_stream_gives: "stream_shrinks rd left \<Longrightarrow> \<exists>cs. stream_gives rd st cs"
proof (induction "left st" arbitrary: st rule: less_induct)
  case less
  show ?case
  proof (cases "rd st (16 * 1024)")
    case None
    then have "stream_gives rd st []" by simp
    then show ?thesis by blast
  next
    case (Some p)
    obtain c st' where p: "rd st (16 * 1024) = Some (c, st')" using Some by (cases p) auto
    show ?thesis
    proof (cases "c = []")
      case True
      then have "stream_gives rd st []" using p by simp
      then show ?thesis by blast
    next
      case False
      then have "left st' < left st" using less.prems p by (simp add: stream_shrinks_def)
      then obtain cs where "stream_gives rd st' cs" using less by blast
      then have "stream_gives rd st (c # cs)" using p False by simp
      then show ?thesis by blast
    qed
  qed
qed

text \<open>
  Property C37.  Reading a request's body ends whenever every read leaves less to read, whatever
  the sizes of the reads; the result is all the stream gave until its end or its first failure,
  and a second call returns it again without reading.
\<close>

theorem reading_a_body_ends:
  assumes "stream_shrinks rd left"
  shows "\<exists>d r'. Request_GetData rd r = Some (d, r') \<and> Request_GetData rd r' = Some (d, r') \<and>
    (request_data r = None \<longrightarrow>
       (case data_stream r of
          None \<Rightarrow> d = ''''
        | Some st \<Rightarrow> \<exists>cs. stream_gives rd st cs \<and> d = concat cs))"
proof (cases "request_data r")
  case (Some d)
  then show ?thesis by (simp add: Request_GetData_def)
next
  case None
  show ?thesis
  proof (cases "data_stream r")
    case (Some st)
    obtain cs where "stream_gives rd st cs" using shrinking_stream_gives [OF assms] by blast
    with GetData_is_the_body [OF Some None this] show ?thesis using Some by auto
  qed (use None in \<open>simp add: Request_GetData_def\<close>)
qed

lemma reading_a_body_ends_witness:
  "\<exists>d r'. Request_GetData (\<lambda>st n. Some (take n st, drop n st))
      \<lparr>request_path = ''/'', request_header = (\<lambda>_. ''''), data_stream = Some ''body'',
       request_data = None, replies = []\<rparr> = Some (d, r')"
proof -
  have "stream_shrinks (\<lambda>st n. Some (take n st, drop n st)) length"
    by (auto simp: stream_shrinks_def)
  from reading_a_body_ends [OF this] show ?thesis by blast
qed

end
