(* ===== verification/Daemon_System.thy ===== *)
theory Daemon_System
  imports Daemon_Main Manager_Properties Web_Server_Client
begin

text \<open>
  The daemon from its command line to its device: the options of \<^verbatim>\<open>main.cc\<close>, the manager
  they start, and the web server client whose announcements make the manager create the device.
\<close>

section \<open>Manager and web server together\<close>

text \<open>
  The manager binds \<open>CreateDevice\<close> as the web server client's \<open>server_available_callback_\<close>, so
  every announcement is a \<open>MeWebServerReady\<close>, and nothing else is one.  The client's callbacks
  hold weak pointers: without a client, because of the build or the flag or after
  \<open>Manager::Stop\<close>, nothing hears the web server.  The other events of the manager come from
  binder, from the device and from the message loop.
\<close>

datatype ('dev, 'pt, 'role) daemon_event =
    FromWebServer "nat web_event"
  | FromOthers "('dev, 'pt, 'role) manager_event"

type_synonym 'dev daemon_state = "'dev Manager \<times> nat webserv"

definition announces :: "('dev, 'pt, 'role) manager_event \<Rightarrow> bool" where
  "announces e = (case e of MeWebServerReady _ \<Rightarrow> True | _ \<Rightarrow> False)"

fun daemon_step ::
    "bool \<Rightarrow> ('dev, 'v) manager_device_api \<Rightarrow> ('v, 'd) codec \<Rightarrow> 'dev manager_env \<Rightarrow> string \<Rightarrow> string \<Rightarrow>
     'dev daemon_state \<Rightarrow> ('dev, 'pt, 'role) daemon_event \<Rightarrow> 'dev daemon_state result" where
  "daemon_step wifi api cd env kHttp kHttps (m, w) (FromWebServer e) =
     (if \<not> mg_web_serv_client m then Inr (m, w)
      else
        bind_result (web_step kHttp kHttps w e) (\<lambda>w'.
          if available_calls w' = available_calls w then Inr (m, w')
          else bind_result (manager_step wifi api cd m
                              (MeWebServerReady env :: ('dev, 'pt, 'role) manager_event))
                 (\<lambda>m'. Inr (m', w'))))"
| "daemon_step wifi api cd env kHttp kHttps (m, w) (FromOthers e) =
     (if announces e then Inr (m, w)
      else bind_result (manager_step wifi api cd m e) (\<lambda>m'. Inr (m', w)))"

definition stopped :: "('dev, 'pt, 'role) daemon_event list \<Rightarrow> bool" where
  "stopped es = list_ex (\<lambda>e. case e of FromOthers MeStop \<Rightarrow> True | _ \<Rightarrow> False) es"

definition web_events :: "('dev, 'pt, 'role) daemon_event list \<Rightarrow> nat web_event list" where
  "web_events es = concat (map (\<lambda>e. case e of FromWebServer e \<Rightarrow> [e] | FromOthers _ \<Rightarrow> []) es)"

section \<open>When there is a device\<close>

lemma notify_fields [simp]:
  "mg_device (NotifyServiceManagerChange ids m) = mg_device m"
  "mg_web_serv_client (NotifyServiceManagerChange ids m) = mg_web_serv_client m"
  by (simp_all add: NotifyServiceManagerChange_def)

lemma create_services_web [simp]: "mg_web_serv_client (fold create_service cs m) = mg_web_serv_client m"
  by (induction cs arbitrary: m) simp_all

lemma set_pairing_device [simp]:
  "mg_device (set_pairing a b c m) = mg_device m"
  "mg_web_serv_client (set_pairing a b c m) = mg_web_serv_client m"
  by (simp_all add: set_pairing_def)

lemma others_keep_device:
  assumes "manager_step wifi api cd m e = Inr m'" and "\<not> announces e" and "e \<noteq> MeStop"
  shows "(mg_device m' = None) = (mg_device m = None) \<and> mg_web_serv_client m' = mg_web_serv_client m"
  using assms
  by (cases e) (auto simp: announces_def Manager_connect_def CreateServicesForClients_def Let_def
      registerNotificationListener_def OnClientDisconnected_def OnNotificationListenerDestroyed_def
      OnTraitDefsChanged_def OnComponentTreeChanged_def OnGcdStateChanged_def OnConfigChanged_eq
      OnPairingStart_eq OnPairingEnd_eq OnRebootDevice_def RebootDeviceNow_def
      split: if_splits option.splits)

lemma CreateDevice_makes_device:
  assumes "CreateDevice api env m = Inr m'"
  shows "mg_device m' \<noteq> None \<and> mg_web_serv_client m' = mg_web_serv_client m"
  using assms by (auto simp: CreateDevice_def CreateServicesForClients_def Let_def split: if_splits)

text \<open>\<open>http\<close> says whether the manager was started with a web server client.\<close>

definition daemon_rel ::
    "bool \<Rightarrow> string \<Rightarrow> string \<Rightarrow> 'dev daemon_state \<Rightarrow> ('dev, 'pt, 'role) daemon_event list \<Rightarrow> bool" where
  "daemon_rel http kHttp kHttps s es \<longleftrightarrow>
     (case s of (m, w) \<Rightarrow>
        if stopped es then \<not> mg_web_serv_client m \<and> mg_device m = None
        else if \<not> http then \<not> mg_web_serv_client m \<and> mg_device m \<noteq> None
        else web_rel kHttp kHttps w (web_events es) \<and> mg_web_serv_client m \<and>
          (mg_device m \<noteq> None \<longleftrightarrow> 0 < available_calls w))"

lemma stopped_snoc [simp]:
  "stopped (es @ [FromOthers e']) \<longleftrightarrow> stopped es \<or> e' = MeStop"
  "stopped (es @ [FromWebServer e]) \<longleftrightarrow> stopped es"
  "\<not> stopped []"
  by (cases e') (auto simp: stopped_def)

lemma web_events_snoc [simp]:
  "web_events (es @ [FromWebServer e]) = web_events es @ [e]"
  "web_events (es @ [FromOthers e']) = web_events es"
  "web_events [] = []"
  by (simp_all add: web_events_def)

lemma available_calls_grow: "web_step kHttp kHttps w e = Inr w' \<Longrightarrow> available_calls w \<le> available_calls w'"
  by (cases e) (auto simp: OnProtocolHandlerConnected_def OnProtocolHandlerDisconnected_def
      first_port_def AddHttpRequestHandler_def AddHttpsRequestHandler_def
      split: if_splits list.splits transport.splits)

lemma Stop_fields [simp]:
  "mg_device (Manager_Stop wifi m) = None"
  "mg_web_serv_client (Manager_Stop wifi m) \<longleftrightarrow> mg_web_serv_client m \<and> \<not> wifi"
  by (simp_all add: Manager_Stop_def Let_def)

lemma daemon_step_rel:
  assumes k: "kHttp \<noteq> kHttps" and http: "http \<longrightarrow> wifi" and rel: "daemon_rel http kHttp kHttps s es"
    and step: "daemon_step wifi api cd env kHttp kHttps s e = Inr s'"
  shows "daemon_rel http kHttp kHttps s' (es @ [e])"
proof -
  obtain m w where s: "s = (m, w)" by (cases s)
  show ?thesis
  proof (cases e)
    case (FromOthers e')
    consider "announces e'" | "e' = MeStop" | "\<not> announces e'" "e' \<noteq> MeStop" by blast
    then show ?thesis
    proof cases
      case 3
      then show ?thesis
        using step s rel FromOthers others_keep_device [of wifi api cd m e'] by (auto simp: daemon_rel_def split: if_splits)
    qed (use step s rel http FromOthers in \<open>auto simp: daemon_rel_def announces_def split: if_splits\<close>)
  next
    case (FromWebServer e')
    show ?thesis
    proof (cases "mg_web_serv_client m")
      case False
      then show ?thesis using step s rel FromWebServer by (auto simp: daemon_rel_def split: if_splits)
    next
      case True
      then have up: "\<not> stopped es" http using rel s by (auto simp: daemon_rel_def split: if_splits)
      obtain w' where w': "web_step kHttp kHttps w e' = Inr w'" using step s True FromWebServer by auto
      have web: "web_rel kHttp kHttps w' (web_events es @ [e'])"
        using web_step_rel [OF _ w', of "web_events es"] rel s k up by (simp add: daemon_rel_def)
      show ?thesis
      proof (cases "available_calls w' = available_calls w")
        case same: True
        then show ?thesis using step s FromWebServer w' web rel up True by (auto simp: daemon_rel_def)
      next
        case False
        then have "0 < available_calls w'" using available_calls_grow [OF w'] by simp
        with False show ?thesis
          using step s FromWebServer w' web rel up True
          by (auto simp: daemon_rel_def dest: CreateDevice_makes_device)
      qed
    qed
  qed
qed

interpretation whole_daemon: simulation
    "daemon_step wifi api cd env kHttp kHttps" "\<lambda>e es. es @ [e]"
    "\<lambda>s es. kHttp \<noteq> kHttps \<and> (http \<longrightarrow> wifi) \<and> daemon_rel http kHttp kHttps s es" "\<lambda>_. True"
  for api :: "('dev, 'v) manager_device_api" and cd :: "('v, 'd) codec" and env kHttp kHttps wifi http
  by unfold_locales (blast intro: daemon_step_rel)

section \<open>Properties\<close>

lemma started_manager:
  assumes "Manager_Start wifi api env (new_Manager options a) = Inr m"
  shows "mg_web_serv_client m = (wifi \<and> \<not> disable_privet options) \<and>
    (mg_device m = None) = (wifi \<and> \<not> disable_privet options)"
  using assms
  by (auto simp: Manager_Start_def RestartWeave_def Manager_Stop_def new_Manager_def Let_def split: if_splits
      dest!: CreateDevice_makes_device)

text \<open>
  Property C32.  From the command line to the device: in a daemon that is not stopped the device
  exists exactly if some protocol handler connected while the HTTPS handler was up, or there is no web
  server to wait for, because privet is disabled by its flag or the build has no WiFi bootstrapping;
  after a stop there is none.  This holds through any interleaving of the web server's events with
  those of clients, listeners, the device and the message loop.
\<close>

theorem device_exists_once_https_was_up:
  fixes api :: "('dev, 'v) manager_device_api" and cd :: "('v, 'd) codec"
    and es :: "('dev, 'pt, 'role) daemon_event list"
  assumes "kHttp \<noteq> kHttps"
    and "RegisterDBusObjectsAsync wifi api env a (new_Daemon (main_options split_list f)) = Inr d"
    and "dm_manager d = Some m0"
    and "run (daemon_step wifi api cd env kHttp kHttps) (m0, new_WebServClient) es = Inr (m, w)"
  shows "mg_device m \<noteq> None \<longleftrightarrow> \<not> stopped es \<and>
    (\<not> wifi \<or> FLAGS_disable_privet f \<or> 0 < announcements kHttps (web_events es))"
proof -
  let ?http = "wifi \<and> \<not> FLAGS_disable_privet f"
  have start: "Manager_Start wifi api env (new_Manager (main_options split_list f) a) = Inr m0"
    using assms(2,3) by (auto simp: RegisterDBusObjectsAsync_def new_Daemon_def Let_def)
  have "disable_privet (main_options split_list f) = FLAGS_disable_privet f"
    by (simp add: main_options_def Let_def)
  with started_manager [OF start]
  have "daemon_rel ?http kHttp kHttps (m0, new_WebServClient) ([] :: ('dev, 'pt, 'role) daemon_event list)"
    by (auto simp: daemon_rel_def web_rel_def new_WebServClient_def current_handler_def reported_port_def
        announcements_def)
  with assms(1) have "kHttp \<noteq> kHttps \<and> (?http \<longrightarrow> wifi) \<and>
      daemon_rel ?http kHttp kHttps (m0, new_WebServClient) ([] :: ('dev, 'pt, 'role) daemon_event list)"
    by blast
  from whole_daemon.run_simulates [OF this _ assms(4)]
  have "daemon_rel ?http kHttp kHttps (m, w) es" by (simp add: fold_snoc list_all_iff)
  then show ?thesis by (auto simp: daemon_rel_def web_rel_def split: if_splits)
qed

definition sample_daemon_events :: "(string, unit, unit) daemon_event list" where
  "sample_daemon_events =
     [FromOthers (MeConnect (Sp 7)),
      FromWebServer (HandlerConnected \<lparr>handler_name = ''https'', handler_ports = [443], handler_fingerprint = []\<rparr>)]"

definition sample_waiting :: "(string, unit, unit) daemon_event list" where
  "sample_waiting = [FromOthers (MeConnect (Sp 7))]"

abbreviation "sample_daemon_step \<equiv> daemon_step True sample_manager_api sample_codec sample_env ''http'' ''https''"

definition sample_daemon :: "flags \<Rightarrow> string daemon result" where
  "sample_daemon f = RegisterDBusObjectsAsync True sample_manager_api sample_env 1 (new_Daemon (main_options (\<lambda>_. []) f))"

text \<open>A run from the command line.\<close>

definition sample_daemon_run :: "flags \<Rightarrow> (string, unit, unit) daemon_event list \<Rightarrow>
    (string daemon \<times> string Manager \<times> string Manager \<times> nat webserv) result" where
  "sample_daemon_run f es =
     bind_result (sample_daemon f) (\<lambda>d.
       case dm_manager d of
         None \<Rightarrow> Inl (NullDeref ''manager_'')
       | Some m0 \<Rightarrow> bind_result (run sample_daemon_step (m0, new_WebServClient) es)
           (\<lambda>(m, w). Inr (d, m0, m, w)))"

lemma sample_daemon_runs:
  "\<exists>d m0 m w. sample_daemon default_flags = Inr d \<and> dm_manager d = Some m0 \<and>
     run sample_daemon_step (m0, new_WebServClient) sample_daemon_events = Inr (m, w) \<and> GetHttpPort w = 0"
  "\<exists>d m0 m w. sample_daemon (default_flags\<lparr>FLAGS_disable_privet := True\<rparr>) = Inr d \<and> dm_manager d = Some m0 \<and>
     run sample_daemon_step (m0, new_WebServClient) sample_waiting = Inr (m, w)"
proof -
  have "case sample_daemon_run default_flags sample_daemon_events of Inl _ \<Rightarrow> False | Inr (d, m0, m, w) \<Rightarrow> GetHttpPort w = 0"
    by code_simp
  moreover have "case sample_daemon_run (default_flags\<lparr>FLAGS_disable_privet := True\<rparr>) sample_waiting of
      Inl _ \<Rightarrow> False | Inr (d, m0, m, w) \<Rightarrow> True"
    by code_simp
  ultimately show
    "\<exists>d m0 m w. sample_daemon default_flags = Inr d \<and> dm_manager d = Some m0 \<and>
       run sample_daemon_step (m0, new_WebServClient) sample_daemon_events = Inr (m, w) \<and> GetHttpPort w = 0"
    "\<exists>d m0 m w. sample_daemon (default_flags\<lparr>FLAGS_disable_privet := True\<rparr>) = Inr d \<and> dm_manager d = Some m0 \<and>
       run sample_daemon_step (m0, new_WebServClient) sample_waiting = Inr (m, w)"
    by (auto simp: sample_daemon_run_def split: sum.splits prod.splits option.splits)
qed

lemma device_exists_once_https_was_up_witness:
  "(\<exists>d m0 m w. sample_daemon default_flags = Inr d \<and> dm_manager d = Some m0 \<and>
     run sample_daemon_step (m0, new_WebServClient) sample_daemon_events = Inr (m, w) \<and>
     mg_device m \<noteq> None \<and> GetHttpPort w = 0) \<and>
   (\<exists>d m0 m w. sample_daemon (default_flags\<lparr>FLAGS_disable_privet := True\<rparr>) = Inr d \<and> dm_manager d = Some m0 \<and>
     run sample_daemon_step (m0, new_WebServClient) sample_waiting = Inr (m, w) \<and>
     mg_device m \<noteq> None)"
proof -
  have up: "0 < announcements ''https'' (web_events sample_daemon_events)" "\<not> stopped sample_daemon_events"
    "\<not> stopped sample_waiting"
    by (simp_all add: sample_daemon_events_def sample_waiting_def web_events_def announcements_def current_handler_def
        current_step_def reported_port_def stopped_def)
  have "mg_device m \<noteq> None"
    if "sample_daemon default_flags = Inr d" "dm_manager d = Some m0"
      "run sample_daemon_step (m0, new_WebServClient) sample_daemon_events = Inr (m, w)" for d m0 m w
    using device_exists_once_https_was_up [OF _ that(1) [unfolded sample_daemon_def] that(2,3)] up by simp
  moreover have "mg_device m \<noteq> None"
    if "sample_daemon (default_flags\<lparr>FLAGS_disable_privet := True\<rparr>) = Inr d" "dm_manager d = Some m0"
      "run sample_daemon_step (m0, new_WebServClient) sample_waiting = Inr (m, w)" for d m0 m w
    using device_exists_once_https_was_up [OF _ that(1) [unfolded sample_daemon_def] that(2,3)] up by simp
  ultimately show ?thesis using sample_daemon_runs by meson
qed

lemma Manager_Start_effects:
  assumes "Manager_Start wifi api env (new_Manager options a) = Inr m"
  shows "mg_options m = options \<and>
    mg_effects m = [PowerManagerInit, NewShillClient (device_whitelist options) (\<not> xmpp_enabled options)] @
      (if wifi \<and> \<not> disable_privet options
       then if enable_ping options then [AddPingHandlers] else []
       else [AddSettingsChangedCallback, AddTraitDefsChangedCallback, AddStateChangedCallback,
             AddComponentTreeChangedCallback, AddGcdStateChangedCallback, AddPairingChangedCallbacks])"
  using assms
  by (auto simp: Manager_Start_def RestartWeave_def Manager_Stop_def new_Manager_def Let_def mg_emit_def
      CreateDevice_def CreateServicesForClients_def split: if_splits)

lemma main_options_fields:
  "xmpp_enabled (main_options split_list f) = FLAGS_enable_xmpp f"
  "disable_privet (main_options split_list f) = FLAGS_disable_privet f"
  "enable_ping (main_options split_list f) = FLAGS_enable_ping f"
  "device_whitelist (main_options split_list f) = remdups (sort (split_list (FLAGS_device_whitelist f)))"
  by (simp_all add: main_options_def Let_def)

lemma main_options_config:
  "config_options (main_options split_list f) =
     \<lparr>opt_client_id = '''', opt_client_secret = '''', opt_api_key = '''', opt_oauth_url = '''', opt_service_url = '''',
      opt_defaults = (if FLAGS_config_path f = '''' then ''/etc/weaved/weaved.conf'' else FLAGS_config_path f),
      opt_settings = (if FLAGS_state_path f = '''' then ''/data/misc/weaved/device_reg_info'' else FLAGS_state_path f),
      opt_definitions = ''/etc/weaved'', opt_test_definitions = FLAGS_test_definitions_path f,
      opt_test_privet_ssid = FLAGS_test_privet_ssid f\<rparr>"
  by (simp add: main_options_def default_empty_paths_def kDefaultConfigFilePath_def kDefaultStateFilePath_def Let_def)

lemma flags_settings:
  "let s' = fst (LoadDefaults lib (config_options (main_options split_list f)) (Store store) s);
       s0 = hardcoded_defaults s
   in client_id s' = stored store ''client_id'' (client_id s0) \<and>
      client_secret s' = stored store ''client_secret'' (client_secret s0) \<and>
      api_key s' = stored store ''api_key'' (api_key s0) \<and>
      oauth_url s' = stored store ''oauth_url'' (oauth_url s) \<and>
      service_url s' = stored store ''service_url'' (service_url s) \<and>
      test_privet_ssid s' = FLAGS_test_privet_ssid f"
  by (simp add: LoadDefaults_fst main_options_def Let_def override_def LoadDefaults_store_keys)
    (simp add: hardcoded_defaults_def)

text \<open>
  Property C33.  The command line reaches the daemon: once started, its manager is registered with
  binder, monitors the interfaces of the whitelist with XMPP as the flag says, and has ping handlers
  exactly if asked for and possible; it reads its defaults from the file of the one path flag and
  keeps its main settings in that of the other, or in the built-in files where a flag is empty, and
  takes test definitions from the directory of their flag.  With a defaults file that loads, the
  account settings are those of the file or the built-in ones, since no flag sets them, and the test
  SSID is the flag's.
\<close>

theorem startup_follows_the_flags:
  assumes "RegisterDBusObjectsAsync wifi api env a (new_Daemon (main_options split_list f)) = Inr d"
  shows "dm_binder_services d = [kWeaveServiceName] \<and>
    (\<exists>m. dm_manager d = Some m \<and>
       NewShillClient (remdups (sort (split_list (FLAGS_device_whitelist f)))) (\<not> FLAGS_enable_xmpp f)
         \<in> set (mg_effects m) \<and>
       (AddPingHandlers \<in> set (mg_effects m) \<longleftrightarrow>
          wifi \<and> \<not> FLAGS_disable_privet f \<and> FLAGS_enable_ping f) \<and>
       opt_defaults (config_options (mg_options m)) =
         (if FLAGS_config_path f = '''' then ''/etc/weaved/weaved.conf'' else FLAGS_config_path f) \<and>
       CreatePath insert_ext (config_options (mg_options m)) '''' =
         (if FLAGS_state_path f = '''' then ''/data/misc/weaved/device_reg_info'' else FLAGS_state_path f) \<and>
       opt_definitions (config_options (mg_options m)) = ''/etc/weaved'' \<and>
       opt_test_definitions (config_options (mg_options m)) = FLAGS_test_definitions_path f \<and>
       (let s' = fst (LoadDefaults lib (config_options (mg_options m)) (Store store) s);
            s0 = hardcoded_defaults s
        in client_id s' = stored store ''client_id'' (client_id s0) \<and>
           client_secret s' = stored store ''client_secret'' (client_secret s0) \<and>
           api_key s' = stored store ''api_key'' (api_key s0) \<and>
           oauth_url s' = stored store ''oauth_url'' (oauth_url s) \<and>
           service_url s' = stored store ''service_url'' (service_url s) \<and>
           test_privet_ssid s' = FLAGS_test_privet_ssid f))"
proof -
  let ?o = "main_options split_list f"
  obtain m where start: "Manager_Start wifi api env (new_Manager ?o a) = Inr m"
    and d: "dm_manager d = Some m" "dm_binder_services d = [kWeaveServiceName]"
    using assms by (auto simp: RegisterDBusObjectsAsync_def new_Daemon_def Let_def)
  note effects = Manager_Start_effects [OF start]
  have "CreatePath insert_ext (config_options ?o) '''' =
      (if FLAGS_state_path f = '''' then ''/data/misc/weaved/device_reg_info'' else FLAGS_state_path f)"
    by (simp add: CreatePath_def main_options_config)
  then show ?thesis
    using effects d flags_settings [of lib split_list f store s] main_options_config [of split_list f]
    by (auto simp: main_options_fields Let_def)
qed

definition sample_flags :: flags where
  "sample_flags = default_flags\<lparr>FLAGS_config_path := ''/tmp/weaved.conf'', FLAGS_state_path := ''''\<rparr>"

lemma startup_follows_the_flags_witness:
  "\<exists>d. RegisterDBusObjectsAsync True sample_manager_api sample_env 1
        (new_Daemon (main_options (\<lambda>_. [''wlan0'']) sample_flags)) = Inr d \<and>
     dm_binder_services d = [kWeaveServiceName] \<and>
     (\<exists>m. dm_manager d = Some m \<and> NewShillClient [''wlan0''] False \<in> set (mg_effects m) \<and>
       opt_defaults (config_options (mg_options m)) = ''/tmp/weaved.conf'' \<and>
       CreatePath (@) (config_options (mg_options m)) '''' = ''/data/misc/weaved/device_reg_info'')"
proof -
  let ?r = "RegisterDBusObjectsAsync True sample_manager_api sample_env 1
        (new_Daemon (main_options (\<lambda>_. [''wlan0'']) sample_flags))"
  obtain d where d: "?r = Inr d"
    by (simp add: RegisterDBusObjectsAsync_def new_Daemon_def Manager_Start_def RestartWeave_def
        Manager_Stop_def new_Manager_def main_options_def sample_flags_def default_flags_def mg_emit_def Let_def)
  from startup_follows_the_flags [OF d, where lib = "undefined :: (unit, unit) config_lib"
      and store = undefined and s = undefined and insert_ext = "(@)"]
  show ?thesis unfolding d by (auto simp: sample_flags_def default_flags_def)
qed

end
