(* ===== verification/Weaved_Retries.thy ===== *)
theory Weaved_Retries
  imports Weaved_Service
begin

text \<open>
  How often the client library tries: each instance of \<open>ServiceImpl\<close> has at most one
  connection attempt, pending or made.
\<close>

definition is_try :: "nat \<Rightarrow> client_task \<Rightarrow> bool" where
  "is_try wid t \<longleftrightarrow> t = TaskTryConnecting wid"

definition is_connect :: "nat \<Rightarrow> 'w client_effect \<Rightarrow> bool" where
  "is_connect wid e = (case e of ManagerConnect _ i \<Rightarrow> i = wid | _ \<Rightarrow> False)"

text \<open>The retries of an instance in the message loop, and its \<open>connect\<close> calls to the manager.\<close>

definition retries :: "'w client_process \<Rightarrow> nat \<Rightarrow> nat" where
  "retries p wid = length (filter (is_try wid) (cp_tasks p))"

definition connects_made :: "'w client_process \<Rightarrow> nat \<Rightarrow> nat" where
  "connects_made p wid = length (filter (is_connect wid) (cp_effects p))"

definition retry_inv :: "'w client_process \<Rightarrow> bool" where
  "retry_inv p \<longleftrightarrow>
     (\<forall>wid. retries p wid + connects_made p wid \<le> (if wid < cp_made p then 1 else 0))"

lemmas attempt_defs = retries_def connects_made_def is_try_def is_connect_def

lemma retry_inv_same:
  assumes "retry_inv p" "cp_made p' = cp_made p"
    and "\<And>wid. retries p' wid = retries p wid" "\<And>wid. connects_made p' wid = connects_made p wid"
  shows "retry_inv p'"
  using assms by (simp add: retry_inv_def)

lemma destroy_effects [simp]: "filter (is_connect wid) (destroy_ServiceImpl si) = []"
  by (auto simp: destroy_ServiceImpl_def is_connect_def split: option.split)

lemma start_instance_attempts:
  "cp_made (start_instance p) = Suc (cp_made p)"
  "retries (start_instance p) wid = retries p wid + (if wid = cp_made p then 1 else 0)"
  "connects_made (start_instance p) wid = connects_made p wid"
  by (simp_all add: start_instance_def BeginConnect_def Let_def retries_def connects_made_def is_try_def
      split: option.split)

lemma start_instance_retry:
  assumes "retry_inv p"
  shows "retry_inv (start_instance p)"
  unfolding retry_inv_def start_instance_attempts
proof
  fix wid
  have "retries p wid + connects_made p wid \<le> (if wid < cp_made p then 1 else 0)"
    using assms by (simp add: retry_inv_def)
  then show "retries p wid + (if wid = cp_made p then 1 else 0) + connects_made p wid
      \<le> (if wid < Suc (cp_made p) then 1 else 0)"
    by (cases "wid = cp_made p") (simp_all split: if_splits)
qed

text \<open>Effects that do not connect, and posted reconnections, leave the counts alone.\<close>

definition connects_nothing :: "'w client_effect list \<Rightarrow> bool" where
  "connects_nothing es \<longleftrightarrow> (\<forall>wid. filter (is_connect wid) es = [])"

lemma retry_inv_quiet:
  assumes "retry_inv p" "cp_made p' = cp_made p"
    and "cp_tasks p' = cp_tasks p \<or> (\<exists>wid. cp_tasks p' = cp_tasks p @ [TaskReconnect wid])"
    and "\<exists>es. cp_effects p' = cp_effects p @ es \<and> connects_nothing es"
  shows "retry_inv p'"
proof (rule retry_inv_same [OF assms(1,2)])
  show "retries p' wid = retries p wid" for wid
    using assms(3) by (auto simp: retries_def is_try_def)
  show "connects_made p' wid = connects_made p wid" for wid
    using assms(4) by (auto simp: connects_made_def connects_nothing_def)
qed

lemma effects_connect_nothing [simp]:
  "connects_nothing []"
  "connects_nothing (destroy_ServiceImpl si)"
  "connects_nothing (ServiceImpl_OnCommand component command w si)"
  "connects_nothing [RunConnectionCallback wid]"
  "connects_nothing [AbortCommand w a b]"
  by (auto simp: connects_nothing_def ServiceImpl_OnCommand_def is_connect_def split: option.split)

lemma callbacks_connect_nothing:
  "ServiceImpl_SetPairingInfoListener callback si = (si', es) \<Longrightarrow> connects_nothing es"
  "ServiceImpl_OnNotification cd ids si = Inr (si', es) \<Longrightarrow> connects_nothing es"
  by (auto simp: ServiceImpl_SetPairingInfoListener_def ServiceImpl_OnNotification_def
      connects_nothing_def is_connect_def Let_def split: option.splits if_splits)

text \<open>A task that runs was one of the pending ones.\<close>

lemma retries_taken:
  assumes "n < length (cp_tasks p)"
  shows "retries p wid = (if is_try wid (cp_tasks p ! n) then 1 else 0) +
    retries (p\<lparr>cp_tasks := take n (cp_tasks p) @ drop (Suc n) (cp_tasks p)\<rparr>) wid"
proof -
  have "filter (is_try wid) (cp_tasks p) =
      filter (is_try wid) (take n (cp_tasks p) @ cp_tasks p ! n # drop (Suc n) (cp_tasks p))"
    using id_take_nth_drop [OF assms] by simp
  then show ?thesis by (simp add: retries_def)
qed

lemma TryConnecting_attempts:
  "cp_made (TryConnecting gs ok self si p) = cp_made p"
  "retries (TryConnecting gs ok self si p) wid + connects_made (TryConnecting gs ok self si p) wid
     \<le> retries p wid + connects_made p wid + (if wid = self then 1 else 0)"
  by (auto simp: TryConnecting_def OnWeaveServiceDisconnected_def attempt_defs Let_def split: option.split)

lemma run_task_retry:
  assumes inv: "retry_inv p" and n: "n < length (cp_tasks p)"
  shows "retry_inv (run_task gs ok (cp_tasks p ! n)
    (p\<lparr>cp_tasks := take n (cp_tasks p) @ drop (Suc n) (cp_tasks p)\<rparr>))"
proof -
  let ?p = "p\<lparr>cp_tasks := take n (cp_tasks p) @ drop (Suc n) (cp_tasks p)\<rparr>"
  have made: "connects_made ?p wid = connects_made p wid" for wid by (simp add: connects_made_def)
  have inv': "retry_inv ?p"
    unfolding retry_inv_def
  proof
    fix wid
    have "retries ?p wid \<le> retries p wid" using retries_taken [OF n, of wid] by simp
    moreover have "retries p wid + connects_made p wid \<le> (if wid < cp_made ?p then 1 else 0)"
      using inv by (simp add: retry_inv_def)
    ultimately show "retries ?p wid + connects_made ?p wid \<le> (if wid < cp_made ?p then 1 else 0)"
      unfolding made by linarith
  qed
  show ?thesis
  proof (cases "cp_tasks p ! n")
    case (TaskReconnect i)
    have "retry_inv (?p\<lparr>cp_live := l\<rparr>)" for l
      by (rule retry_inv_same [OF inv']) (simp_all add: retries_def connects_made_def)
    then show ?thesis
      using inv' TaskReconnect
      by (auto simp: ReconnectOnServiceDisconnection_def intro: start_instance_retry split: option.split)
  next
    case (TaskTryConnecting i)
    have "retry_inv (TryConnecting gs ok i si ?p)" for si
      unfolding retry_inv_def TryConnecting_attempts(1)
    proof
      fix wid
      have "retries p wid + connects_made p wid \<le> (if wid < cp_made p then 1 else 0)"
        using inv by (simp add: retry_inv_def)
      moreover have "retries p wid = (if i = wid then 1 else 0) + retries ?p wid"
        using retries_taken [OF n] TaskTryConnecting by (simp add: is_try_def)
      ultimately show "retries (TryConnecting gs ok i si ?p) wid + connects_made (TryConnecting gs ok i si ?p) wid
          \<le> (if wid < cp_made ?p then 1 else 0)"
        using TryConnecting_attempts(2) [of gs ok i si ?p wid] made by (auto split: if_splits)
    qed
    then show ?thesis using inv' TaskTryConnecting by (auto split: option.split)
  qed
qed

lemma client_step_retry:
  assumes inv: "retry_inv p" and step: "client_step cd dict_Set p e = Inr p'"
  shows "retry_inv p'"
proof (cases e)
  case (EvTask n gs ok)
  then show ?thesis using inv step run_task_retry [OF inv] by (auto split: if_splits)
next
  case (EvServiceConnected wid service)
  have "retry_inv (WeaveClient_onServiceConnected wid service p)"
    by (rule retry_inv_quiet [OF inv])
      (auto simp: WeaveClient_onServiceConnected_def ServiceImpl_OnServiceConnected_def lock_def
        intro: exI [of _ "[]"] split: option.splits)
  then show ?thesis using inv step EvServiceConnected by (auto split: if_splits)
next
  case (EvClientCommand wid component command w)
  have "retry_inv (WeaveClient_onCommand cd wid component command w p)"
    by (rule retry_inv_quiet [OF inv]) (auto simp: WeaveClient_onCommand_def split: option.splits)
  then show ?thesis using inv step EvClientCommand by (auto split: if_splits)
next
  case (EvClientNotify wid ids)
  have "retry_inv q" if "NotificationListener_notifyServiceManagerChange cd wid ids p = Inr q" for q
    by (rule retry_inv_quiet [OF inv])
      (use that in \<open>auto simp: NotificationListener_notifyServiceManagerChange_def
        dest: callbacks_connect_nothing(2) intro: exI [of _ "[]"] split: option.splits\<close>)
  then show ?thesis using inv step EvClientNotify by (auto split: if_splits)
next
  case (EvBinderDied wid)
  have "retry_inv (OnWeaveServiceDisconnected wid p)"
    by (rule retry_inv_quiet [OF inv]) (auto simp: OnWeaveServiceDisconnected_def)
  then show ?thesis using inv step EvBinderDied by (auto split: if_splits)
next
  case (EvApi wid call)
  have "retry_inv q" if "api_step cd dict_Set wid si call p = Inr q" for si q
    by (rule retry_inv_quiet [OF inv])
      (use that in \<open>cases call; auto dest: callbacks_connect_nothing(1)
        intro: exI [of _ "[]"] split: prod.splits\<close>)+
  then show ?thesis using inv step EvApi by (auto split: option.splits if_splits)
next
  case EvDestroySubscription
  have "retry_inv (destroy_Subscription p)"
    by (rule retry_inv_quiet [OF inv])
      (auto simp: destroy_Subscription_def intro: exI [of _ "[]"] split: option.splits)
  then show ?thesis using step EvDestroySubscription by simp
qed

lemma retry_inv_start: "retry_inv Service_Connect"
  unfolding Service_Connect_def
  by (rule start_instance_retry) (simp add: retry_inv_def attempt_defs)

interpretation attempts: guarded_component
    "\<lambda>p. p = Service_Connect" "client_step cd dict_Set" retry_inv
  for cd :: "('v, 'd) codec" and dict_Set
  by unfold_locales (auto simp: retry_inv_start intro: client_step_retry)

text \<open>
  Property C38.  The library does not flood the daemon: over any run, each instance has at most one
  connection attempt, pending in the message loop or made, and an instance that was never created
  has none; so a client is handed to the manager at most once per instance.
\<close>

theorem one_attempt_per_instance:
  assumes "run (client_step cd dict_Set) Service_Connect es = Inr p"
  shows "retries p wid + connects_made p wid \<le> (if wid < cp_made p then 1 else 0)"
  using attempts.inv_run [OF refl assms] by (simp add: retry_inv_def)

lemma one_attempt_per_instance_witness:
  "\<exists>p :: nat client_process.
     run (client_step sample_codec (\<lambda>_ _ d. d)) Service_Connect
       [EvTask 0 None True, EvTask 0 (Some (Sp 5)) True, EvBinderDied 0, EvTask 0 None True] = Inr p \<and>
     retries p 0 + connects_made p 0 \<le> 1 \<and> retries p 2 + connects_made p 2 \<le> 0"
proof -
  let ?es = "[EvTask 0 None True, EvTask 0 (Some (Sp 5)) True, EvBinderDied 0, EvTask 0 None True]
      :: (nat, string, string) client_event list"
  have "bind_result (run (client_step sample_codec (\<lambda>_ _ d. d)) Service_Connect ?es)
      (\<lambda>p. Inr (cp_made p)) = Inr 2"
    by code_simp
  then obtain p where p: "run (client_step sample_codec (\<lambda>_ _ d. d)) Service_Connect ?es = Inr p"
    and made: "cp_made p = 2" by auto
  show ?thesis
    using one_attempt_per_instance [OF p, of 0] one_attempt_per_instance [OF p, of 2] p made by auto
qed

end
