(* ===== verification/Weave_System.thy ===== *)
theory Weave_System
  imports Pairing_System Weaved_Retries
begin

text \<open>
  The whole system: one daemon, any number of applications, and the binder driver between them.

  The processes are the models of \<^verbatim>\<open>buffet/manager.cc\<close> (with the services of
  \<^verbatim>\<open>buffet/binder_weave_service.cc\<close> it holds) and of \<^verbatim>\<open>libweaved/service.cc\<close>;
  nothing of them is repeated here.  A step lets one process handle one event and puts the one-way
  calls it made (\<open>connect\<close>, \<open>registerNotificationListener\<close>, \<open>onServiceConnected\<close>,
  \<open>onCommand\<close>, \<open>notifyServiceManagerChange\<close>: all \<open>oneway\<close> in the AIDL files) in flight; the
  synchronous calls (\<open>IWeaveService\<close>, the manager's getters) are answered within the step.

  The driver delivers the calls to one object in their order and is free otherwise.  A fault ends
  the process it happens in, and only that one; the daemon may die at any time and be started
  again, an application may be killed at any time.
\<close>

section \<open>The world around the processes\<close>

text \<open>
  The driver names the objects: the binder of the daemon's \<open>n\<close>-th manager, and the
  \<open>WeaveClient\<close> and \<open>NotificationListener\<close> that instance \<open>wid\<close> of process \<open>pid\<close> made.
\<close>

record ('dev, 'v, 'd) world =
  w_codec :: "('v, 'd) codec"
  w_dict_Set :: "string \<Rightarrow> 'v \<Rightarrow> 'd \<Rightarrow> 'd"
  w_codes :: binder_codes
  w_api :: "('dev, 'v) manager_device_api"
  w_dead_object :: binder_exception
  w_wifi :: bool
  w_manager :: "nat \<Rightarrow> sp"
  w_client :: "nat \<Rightarrow> nat \<Rightarrow> sp"
  w_listener :: "nat \<Rightarrow> nat \<Rightarrow> sp"

definition names_ok :: "('dev, 'v, 'd) world \<Rightarrow> bool" where
  "names_ok w \<longleftrightarrow> inj (w_manager w) \<and>
     (\<forall>pid wid pid' wid'. w_client w pid wid = w_client w pid' wid' \<longrightarrow> pid = pid' \<and> wid = wid')"

datatype manager_call = CallConnect sp | CallRegisterListener sp

datatype 'w client_message =
    MsgServiceConnected sp sp
  | MsgCommand sp string16 string16 'w
  | MsgNotify sp "int list"

text \<open>The object a message is for: a client object, or a listener.\<close>

primrec target :: "'w client_message \<Rightarrow> sp + sp" where
  "target (MsgServiceConnected client service) = Inl client"
| "target (MsgCommand client component command cmd) = Inl client"
| "target (MsgNotify listener ids) = Inr listener"

text \<open>
  The state, with the history the properties speak of: the services handed out and the commands
  dispatched.  Addresses below \<open>ws_addresses\<close> were used by daemons that are gone.
\<close>

record ('dev, 'w) weave_system =
  ws_manager :: "'dev Manager option"
  ws_generation :: nat
  ws_addresses :: nat
  ws_client :: "nat \<Rightarrow> 'w client_process"
  ws_dead :: "nat list"
  ws_to_manager :: "manager_call list"
  ws_to_clients :: "'w client_message list"
  ws_issued :: "(sp \<times> sp) list"
  ws_dispatched :: "(sp \<times> string \<times> string \<times> 'w) list"

definition new_system :: "('dev, 'w) weave_system" where
  "new_system = \<lparr>ws_manager = None, ws_generation = 0, ws_addresses = 0,
     ws_client = (\<lambda>_. Service_Connect), ws_dead = [], ws_to_manager = [], ws_to_clients = [],
     ws_issued = [], ws_dispatched = []\<rparr>"

section \<open>Calls in flight\<close>

fun calls_of :: "('dev, 'v, 'd) world \<Rightarrow> nat \<Rightarrow> 'w client_effect \<Rightarrow> manager_call list" where
  "calls_of w pid (ManagerConnect _ wid) = [CallConnect (w_client w pid wid)]"
| "calls_of w pid (ManagerRegisterListener _ wid) = [CallRegisterListener (w_listener w pid wid)]"
| "calls_of w pid _ = []"

fun messages_of :: "manager_effect \<Rightarrow> 'w client_message list" where
  "messages_of (ClientOnServiceConnected client service) = [MsgServiceConnected client service]"
| "messages_of (NotifyListener listener ids) = [MsgNotify listener ids]"
| "messages_of _ = []"

fun issued_by :: "manager_effect \<Rightarrow> (sp \<times> sp) list" where
  "issued_by (ClientOnServiceConnected client service) = [(client, service)]"
| "issued_by _ = []"

text \<open>The outcome of a handler, in its process and in the driver.\<close>

definition process_ran :: "('dev, 'v, 'd) world \<Rightarrow> nat \<Rightarrow> 'w client_process result \<Rightarrow>
    ('dev, 'w) weave_system \<Rightarrow> ('dev, 'w) weave_system" where
  "process_ran w pid r S =
     (case r of
        Inl _ \<Rightarrow> S\<lparr>ws_dead := pid # ws_dead S\<rparr>
      | Inr p \<Rightarrow>
          (let made = drop (length (cp_effects (ws_client S pid))) (cp_effects p)
           in S\<lparr>ws_client := (ws_client S)(pid := p),
                ws_to_manager := ws_to_manager S @
                  (if ws_manager S = None then [] else concat (map (calls_of w pid) made))\<rparr>))"

definition daemon_died :: "('dev, 'w) weave_system \<Rightarrow> ('dev, 'w) weave_system" where
  "daemon_died S =
     (case ws_manager S of
        None \<Rightarrow> S
      | Some m \<Rightarrow> S\<lparr>ws_manager := None, ws_addresses := mg_next_address m, ws_to_manager := []\<rparr>)"

definition daemon_ran :: "manager_effect list \<Rightarrow> 'dev Manager result \<Rightarrow>
    ('dev, 'w) weave_system \<Rightarrow> ('dev, 'w) weave_system" where
  "daemon_ran before r S =
     (case r of
        Inl _ \<Rightarrow> daemon_died S
      | Inr m \<Rightarrow>
          (let made = drop (length before) (mg_effects m)
           in S\<lparr>ws_manager := Some m,
                ws_to_clients := ws_to_clients S @ concat (map messages_of made),
                ws_issued := ws_issued S @ concat (map issued_by made)\<rparr>))"

section \<open>The calls of an application\<close>

datatype ('v, 'd) app_request =
    AppAddComponent string "string list"
  | AppAddCommandHandler string string string nat
  | AppSetStateProperties string 'd
  | AppSetStateProperty string string string 'v
  | AppSetPairingInfoListener "nat option"

fun app_call :: "('dev, 'v, 'd) world \<Rightarrow> 's IWeaveService \<Rightarrow> ('v, 'd) app_request \<Rightarrow> ServiceImpl \<Rightarrow> 's \<Rightarrow>
    (ServiceImpl \<times> 'w client_effect list \<times> 's) result" where
  "app_call w remote (AppAddComponent component traits) si s =
     bind_result (ServiceImpl_AddComponent (w_codec w) remote component traits si s [])
       (\<lambda>(s, _). Inr (si, [], s))"
| "app_call w remote (AppAddCommandHandler component trait_name command_name callback) si s =
     bind_result (ServiceImpl_AddCommandHandler (w_codec w) remote component trait_name command_name callback si s)
       (\<lambda>(si, s). Inr (si, [], s))"
| "app_call w remote (AppSetStateProperties component dict) si s =
     bind_result (ServiceImpl_SetStateProperties (w_codec w) remote component dict si s [])
       (\<lambda>(s, _). Inr (si, [], s))"
| "app_call w remote (AppSetStateProperty component trait_name name v) si s =
     bind_result (ServiceImpl_SetStateProperty (w_codec w) (w_dict_Set w) remote component trait_name name v si s [])
       (\<lambda>(s, _). Inr (si, [], s))"
| "app_call w remote (AppSetPairingInfoListener callback) si s =
     (case ServiceImpl_SetPairingInfoListener callback si of (si, es) \<Rightarrow> Inr (si, es, s))"

definition gone_service :: "binder_exception \<Rightarrow> 's IWeaveService" where
  "gone_service tf = \<lparr>addComponent = (\<lambda>_ _ s. (s, Inl tf)), registerCommandHandler = (\<lambda>_ _ s. (s, Inl tf)),
     updateState = (\<lambda>_ _ s. (s, Inl tf))\<rparr>"

definition find_service :: "sp \<Rightarrow> 'dev Manager \<Rightarrow> (sp \<times> BinderWeaveService) option" where
  "find_service this m = find (\<lambda>kv. bws_this (snd kv) = this) (mg_services m)"

text \<open>
  What an application's call does to its own process and to the daemon, if there is a service there.
  A manager that was stopped has destroyed the device its services point to: a call then gets no
  answer, as from a daemon that is gone, and whether the daemon survives it is left open
  (\<open>SysDaemonDied\<close> may come next).
\<close>

definition app_step :: "('dev, 'v, 'd) world \<Rightarrow> nat \<Rightarrow> nat \<Rightarrow> ('v, 'd) app_request \<Rightarrow> ServiceImpl \<Rightarrow>
    ('dev, 'w) weave_system \<Rightarrow> ('dev, 'w) weave_system" where
  "app_step w pid wid req si S =
     (let p = ws_client S pid;
          local = (\<lambda>(si, es). cp_emit es (p\<lparr>cp_live := Some (wid, si)\<rparr>));
          unanswered = process_ran w pid
            (bind_result (app_call w (gone_service (w_dead_object w)) req si ()) (\<lambda>(si, es, _). Inr (local (si, es)))) S
      in case (ws_manager S, si_weave_service si) of
           (Some m, Some service) \<Rightarrow>
             (case (find_service service m, mg_device m) of
                (Some (client, sv), Some device) \<Rightarrow>
                  (case app_call w (daemon_service (w_codes w) (weave_device_api.truncate (w_api w)) (w_codec w)
                          (w_dead_object w)) req si (device, sv) of
                     Inl f \<Rightarrow> process_ran w pid (Inl f) S
                   | Inr (si, es, (device, sv)) \<Rightarrow>
                       process_ran w pid (Inr (local (si, es)))
                         (S\<lparr>ws_manager := Some (m\<lparr>mg_device := Some device,
                              mg_services := smap_put client sv (mg_services m)\<rparr>)\<rparr>))
              | _ \<Rightarrow> unanswered)
         | _ \<Rightarrow> unanswered)"

section \<open>Steps\<close>

datatype ('dev, 'pt, 'role, 'w, 'v, 'd) system_event =
    SysTask nat nat bool \<comment> \<open>a task of a process; does the death registration succeed\<close>
  | SysBinderDied nat nat
  | SysDestroy nat
  | SysKill nat
  | SysApp nat nat "('v, 'd) app_request"
  | SysDeliver nat nat nat
  | SysReceive
  | SysManager "('dev, 'pt, 'role) manager_event"
  | SysClientDied nat nat
  | SysListenerDied nat nat
  | SysDispatch sp string string 'w
  | SysDaemonStart "'dev manager_env" manager_options nat
  | SysDaemonDied

fun from_binder :: "('dev, 'pt, 'role) manager_event \<Rightarrow> bool" where
  "from_binder (MeConnect _) = True"
| "from_binder (MeRegisterListener _) = True"
| "from_binder (MeClientDied _) = True"
| "from_binder (MeListenerDied _) = True"
| "from_binder _ = False"

primrec handle_call :: "manager_call \<Rightarrow> ('dev, 'pt, 'role) manager_event" where
  "handle_call (CallConnect client) = MeConnect client"
| "handle_call (CallRegisterListener listener) = MeRegisterListener listener"

text \<open>The death of a daemon whose binder an instance registered for, once it is dead.\<close>

definition death_due :: "('dev, 'v, 'd) world \<Rightarrow> ('dev, 'w) weave_system \<Rightarrow> nat \<Rightarrow> nat \<Rightarrow> bool" where
  "death_due w S pid wid \<longleftrightarrow> (\<exists>(ibinder, i) \<in> set (cp_deaths (ws_client S pid)). i = wid \<and>
     (ws_manager S = None \<or> ibinder \<noteq> w_manager w (ws_generation S)))"

definition GetService :: "('dev, 'v, 'd) world \<Rightarrow> ('dev, 'w) weave_system \<Rightarrow> sp option" where
  "GetService w S = (if ws_manager S = None then None else Some (w_manager w (ws_generation S)))"

text \<open>
  What a client's getter call gets.  The call goes to the manager the instance found; the objects of
  a daemon that has died answer no more, also when another one has been started.
\<close>

definition manager_of :: "('dev, 'v, 'd) world \<Rightarrow> ('dev, 'w) weave_system \<Rightarrow> nat \<Rightarrow> nat \<Rightarrow> 'dev Manager option" where
  "manager_of w S pid wid =
     (case lock (ws_client S pid) wid of
        None \<Rightarrow> None
      | Some si \<Rightarrow> if si_manager si = Some (w_manager w (ws_generation S)) then ws_manager S else None)"

definition getter_reply :: "('dev, 'v, 'd) world \<Rightarrow> 'dev Manager option \<Rightarrow> int \<Rightarrow> string16 status" where
  "getter_reply w mo nid =
     (case mo of None \<Rightarrow> Inl (w_dead_object w) | Some m \<Rightarrow> pairing_reply (w_codec w) m nid)"

definition message_event :: "('dev, 'v, 'd) world \<Rightarrow> 'dev Manager option \<Rightarrow> nat \<Rightarrow> 'w client_message \<Rightarrow>
    ('w, 'v, 'd) client_event" where
  "message_event w mo wid msg =
     (case msg of
        MsgServiceConnected client service \<Rightarrow> EvServiceConnected wid service
      | MsgCommand client component command cmd \<Rightarrow> EvClientCommand wid component command cmd
      | MsgNotify listener ids \<Rightarrow> EvClientNotify wid (map (\<lambda>nid. (nid, getter_reply w mo nid)) ids))"

definition object_of :: "('dev, 'v, 'd) world \<Rightarrow> nat \<Rightarrow> nat \<Rightarrow> 'w client_message \<Rightarrow> bool" where
  "object_of w pid wid msg \<longleftrightarrow>
     (case target msg of Inl client \<Rightarrow> client = w_client w pid wid
      | Inr listener \<Rightarrow> listener = w_listener w pid wid)"

definition process_step :: "('dev, 'v, 'd) world \<Rightarrow> nat \<Rightarrow> ('w, 'v, 'd) client_event \<Rightarrow>
    ('dev, 'w) weave_system \<Rightarrow> ('dev, 'w) weave_system" where
  "process_step w pid e S =
     (if pid \<in> set (ws_dead S) then S
      else process_ran w pid (client_step (w_codec w) (w_dict_Set w) (ws_client S pid) e) S)"

definition daemon_step :: "('dev, 'v, 'd) world \<Rightarrow> ('dev, 'pt, 'role) manager_event \<Rightarrow>
    ('dev, 'w) weave_system \<Rightarrow> ('dev, 'w) weave_system" where
  "daemon_step w e S =
     (case ws_manager S of
        None \<Rightarrow> S
      | Some m \<Rightarrow> daemon_ran (mg_effects m) (manager_step (w_wifi w) (w_api w) (w_codec w) m e) S)"

text \<open>
  \<open>SysDeliver n pid wid\<close> delivers the \<open>n\<close>-th message in flight, to an object of instance
  \<open>wid\<close>, if no earlier one is for the same object.
\<close>

definition deliver_message :: "('dev, 'v, 'd) world \<Rightarrow> nat \<Rightarrow> nat \<Rightarrow> nat \<Rightarrow>
    ('dev, 'w) weave_system \<Rightarrow> ('dev, 'w) weave_system" where
  "deliver_message w n pid wid S =
     (if n < length (ws_to_clients S) \<and> object_of w pid wid (ws_to_clients S ! n) \<and>
         target (ws_to_clients S ! n) \<notin> target ` set (take n (ws_to_clients S))
      then process_step w pid (message_event w (manager_of w S pid wid) wid (ws_to_clients S ! n))
             (S\<lparr>ws_to_clients := take n (ws_to_clients S) @ drop (Suc n) (ws_to_clients S)\<rparr>)
      else S)"

definition dispatch_command :: "('dev, 'v, 'd) world \<Rightarrow> sp \<Rightarrow> string \<Rightarrow> string \<Rightarrow> 'w \<Rightarrow>
    ('dev, 'w) weave_system \<Rightarrow> ('dev, 'w) weave_system" where
  \<comment> \<open>the handler is bound to the service by a weak pointer\<close>
  "dispatch_command w this component command cmd S =
     (case ws_manager S of
        None \<Rightarrow> S
      | Some m \<Rightarrow>
          (case find_service this m of
             None \<Rightarrow> S
           | Some (_, sv) \<Rightarrow>
               (case BinderWeaveService_OnCommand (w_codec w) sv component command cmd of
                  ClientOnCommand client c n cmd \<Rightarrow>
                    S\<lparr>ws_to_clients := ws_to_clients S @ [MsgCommand client c n cmd],
                      ws_dispatched := ws_dispatched S @ [(this, component, command, cmd)]\<rparr>)))"

fun sys_step :: "('dev, 'v, 'd) world \<Rightarrow> ('dev, 'pt, 'role, 'w, 'v, 'd) system_event \<Rightarrow>
    ('dev, 'w) weave_system \<Rightarrow> ('dev, 'w) weave_system" where
  "sys_step w (SysTask pid n ok) S = process_step w pid (EvTask n (GetService w S) ok) S"
| "sys_step w (SysBinderDied pid wid) S =
     (if death_due w S pid wid then process_step w pid (EvBinderDied wid) S else S)"
| "sys_step w (SysDestroy pid) S = process_step w pid EvDestroySubscription S"
| "sys_step w (SysKill pid) S = S\<lparr>ws_dead := pid # ws_dead S\<rparr>"
| "sys_step w (SysApp pid wid req) S =
     (if pid \<in> set (ws_dead S) then S
      else (case lock (ws_client S pid) wid of
              None \<Rightarrow> S
            | Some si \<Rightarrow>
                (if RunConnectionCallback wid \<in> set (cp_effects (ws_client S pid))
                 then app_step w pid wid req si S else S)))"
| "sys_step w (SysDeliver n pid wid) S = deliver_message w n pid wid S"
| "sys_step w SysReceive S =
     (case (ws_manager S, ws_to_manager S) of
        (Some _, c # cs) \<Rightarrow>
          daemon_step w (handle_call c :: ('dev, 'pt, 'role) manager_event) (S\<lparr>ws_to_manager := cs\<rparr>)
      | _ \<Rightarrow> S)"
| "sys_step w (SysManager e) S = (if from_binder e then S else daemon_step w e S)"
| "sys_step w (SysClientDied pid wid) S =
     (if pid \<in> set (ws_dead S)
      then daemon_step w (MeClientDied (w_client w pid wid) :: ('dev, 'pt, 'role) manager_event) S else S)"
| "sys_step w (SysListenerDied pid wid) S =
     (if pid \<in> set (ws_dead S)
      then daemon_step w (MeListenerDied (w_listener w pid wid) :: ('dev, 'pt, 'role) manager_event) S else S)"
| "sys_step w (SysDispatch this component command cmd) S = dispatch_command w this component command cmd S"
| "sys_step w (SysDaemonStart env options first) S =
     (if ws_manager S = None \<and> ws_addresses S \<le> first
      then daemon_ran [] (Manager_Start (w_wifi w) (w_api w) env (new_Manager options first))
             (S\<lparr>ws_generation := Suc (ws_generation S)\<rparr>)
      else S)"
| "sys_step w SysDaemonDied S = daemon_died S"

definition sys_run :: "('dev, 'v, 'd) world \<Rightarrow> ('dev, 'pt, 'role, 'w, 'v, 'd) system_event list \<Rightarrow>
    ('dev, 'w) weave_system \<Rightarrow> ('dev, 'w) weave_system" where
  "sys_run w es S = fold (sys_step w) es S"

end
