(* ===== verification/System_Moves.thy ===== *)
theory System_Moves
  imports Weave_System
begin

text \<open>
  What the steps of the whole system come down to: the effects a handler of an application or of
  the daemon adds, and the moves every step is made of.  The invariants of the system are proved
  over the moves.
\<close>

section \<open>What the handlers of an application add\<close>

definition adds_effects :: "('w, 'v, 'd) client_event \<Rightarrow> 'w client_effect list \<Rightarrow> bool" where
  "adds_effects e es \<longleftrightarrow>
     (\<forall>wid. RunConnectionCallback wid \<in> set es \<longrightarrow>
        (\<exists>service. e = EvServiceConnected wid service) \<and> es = [RunConnectionCallback wid]) \<and>
     (\<forall>cb cmd. RunCommandHandler cb cmd \<in> set es \<longrightarrow>
        (\<exists>wid component command. e = EvClientCommand wid component command cmd))"

lemma adds_effects_simps [simp]:
  "adds_effects e []"
  "adds_effects e (destroy_ServiceImpl si)"
  "adds_effects e [RunPairingCallback cb info]"
  "adds_effects e [AbortCommand cmd a b]"
  "adds_effects e [ManagerConnect ibinder wid, ManagerRegisterListener ibinder wid]"
  "adds_effects (EvServiceConnected wid service) [RunConnectionCallback wid]"
  "adds_effects (EvClientCommand wid component command cmd) (ServiceImpl_OnCommand c n cmd si)"
  by (auto simp: adds_effects_def destroy_ServiceImpl_def ServiceImpl_OnCommand_def split: option.splits)

lemma OnNotification_adds: "ServiceImpl_OnNotification cd ids si = Inr (si', es) \<Longrightarrow> adds_effects e es"
  by (auto simp: ServiceImpl_OnNotification_def split: option.splits if_splits)

lemma SetPairingInfoListener_adds:
  "ServiceImpl_SetPairingInfoListener callback si = (si', es) \<Longrightarrow> adds_effects e es"
  by (auto simp: ServiceImpl_SetPairingInfoListener_def Let_def split: option.splits if_splits)

lemma start_instance_effects:
  "\<exists>es. cp_effects (start_instance p) = cp_effects p @ es \<and> adds_effects e es"
  by (auto simp: start_instance_def BeginConnect_def Let_def split: option.split)

lemma run_task_effects:
  "\<exists>es. cp_effects (run_task gs ok t p) = cp_effects p @ es \<and> adds_effects e es"
proof (cases t)
  case (TaskTryConnecting wid)
  then show ?thesis
    by (auto simp: TryConnecting_def OnWeaveServiceDisconnected_def Let_def split: option.split)
next
  case (TaskReconnect wid)
  then show ?thesis
    using start_instance_effects [of "p\<lparr>cp_live := Some (wid, si\<lparr>si_weave_service := None\<rparr>)\<rparr>" e for si]
    by (auto simp: ReconnectOnServiceDisconnection_def split: option.split)
qed

lemma client_step_effects:
  assumes "client_step cd dict_Set p e = Inr p'"
  shows "\<exists>es. cp_effects p' = cp_effects p @ es \<and> adds_effects e es"
proof (cases e)
  case (EvTask n gs ok)
  then show ?thesis
    using assms run_task_effects [of gs ok "cp_tasks p ! n"
        "p\<lparr>cp_tasks := take n (cp_tasks p) @ drop (Suc n) (cp_tasks p)\<rparr>" e]
    by (auto split: if_splits)
next
  case (EvClientNotify wid ids)
  then show ?thesis
    using assms by (auto simp: NotificationListener_notifyServiceManagerChange_def
        dest: OnNotification_adds split: if_splits option.splits)
next
  case (EvApi wid call)
  show ?thesis
  proof (cases call)
    case (ApiSetPairingInfoListener callback)
    then show ?thesis
      using assms EvApi SetPairingInfoListener_adds [of callback _ _ _ e]
      by (auto split: option.splits if_splits prod.splits)
  qed (use assms EvApi in \<open>auto split: option.splits if_splits prod.splits\<close>)
qed (use assms in \<open>auto simp: WeaveClient_onServiceConnected_def ServiceImpl_OnServiceConnected_def
      WeaveClient_onCommand_def OnWeaveServiceDisconnected_def destroy_Subscription_def
      split: if_splits option.splits\<close>)

section \<open>Where an instance's pointers come from\<close>

lemma start_instance_live [simp]:
  "cp_live (start_instance p) = Some (cp_made p, new_ServiceImpl)"
  "cp_deaths (start_instance p) = cp_deaths p"
  by (simp_all add: start_instance_def BeginConnect_def Let_def split: option.split)

lemma new_ServiceImpl_fields [simp]:
  "si_manager new_ServiceImpl = None" "si_weave_service new_ServiceImpl = None"
  by (simp_all add: new_ServiceImpl_def)

text \<open>
  After a step the live instance is the one before with the same manager and service, or it has
  just connected, or been connected, or is new.
\<close>

definition grown :: "('w, 'v, 'd) client_event \<Rightarrow> 'w client_process \<Rightarrow> 'w client_process \<Rightarrow> bool" where
  "grown e p p' \<longleftrightarrow>
     (\<forall>wid si'. cp_live p' = Some (wid, si') \<longrightarrow>
        (\<forall>b. si_manager si' = Some b \<longrightarrow>
           (\<exists>si. cp_live p = Some (wid, si) \<and> si_manager si = Some b) \<or>
           (\<exists>n ok. e = EvTask n (Some b) ok) \<and> cp_deaths p' = cp_deaths p @ [(b, wid)] \<and>
             cp_weave_clients p' = cp_weave_clients p @ [wid] \<and>
             cp_effects p' = cp_effects p @ [ManagerConnect b wid, ManagerRegisterListener b wid]) \<and>
        (\<forall>s. si_weave_service si' = Some s \<longrightarrow>
           (\<exists>si. cp_live p = Some (wid, si) \<and> si_weave_service si = Some s) \<or> e = EvServiceConnected wid s)) \<and>
     set (cp_weave_clients p) \<subseteq> set (cp_weave_clients p') \<and>
     (cp_live p' \<noteq> None \<longrightarrow> set (cp_deaths p) \<subseteq> set (cp_deaths p'))"

lemma grown_refl [simp]: "grown e p p"
  by (auto simp: grown_def)

lemma TryConnecting_grown:
  "cp_live p = Some (wid, si) \<Longrightarrow> grown (EvTask n gs ok) p (TryConnecting gs ok' wid si (p\<lparr>cp_tasks := ts\<rparr>))"
  by (auto simp: grown_def TryConnecting_def OnWeaveServiceDisconnected_def Let_def split: option.split)

lemma Reconnect_grown: "grown e p (ReconnectOnServiceDisconnection wid si (p\<lparr>cp_tasks := ts\<rparr>))"
  by (simp add: grown_def ReconnectOnServiceDisconnection_def)

lemma run_task_grown: "grown (EvTask n gs ok) p (run_task gs ok t (p\<lparr>cp_tasks := ts\<rparr>))"
proof (cases t)
  case (TaskTryConnecting wid)
  then show ?thesis
    by (auto simp: TryConnecting_grown grown_def [of _ _ "p\<lparr>cp_tasks := ts\<rparr>"] lock_def split: option.split)
next
  case (TaskReconnect wid)
  then show ?thesis
    by (auto simp: Reconnect_grown grown_def [of _ _ "p\<lparr>cp_tasks := ts\<rparr>"] lock_def split: option.split)
qed

lemma notify_grown:
  assumes "NotificationListener_notifyServiceManagerChange cd wid ids p = Inr p'"
  shows "grown e p p'"
proof (cases "lock p wid")
  case (Some si)
  with assms obtain si' es changed where "notification_loop cd ids si False = Inr (si', changed)"
    and "p' = cp_emit es (p\<lparr>cp_live := Some (wid, si')\<rparr>)"
    by (auto simp: NotificationListener_notifyServiceManagerChange_def ServiceImpl_OnNotification_def lock_def)
  then show ?thesis
    using notification_loop_fields [of cd ids si False si' changed] Some by (auto simp: grown_def)
qed (use assms in \<open>simp add: NotificationListener_notifyServiceManagerChange_def\<close>)

lemma api_grown:
  assumes "cp_live p = Some (wid, si)" and "api_step cd dict_Set wid si call p = Inr p'"
  shows "grown e p p'"
proof (cases call)
  case (ApiAddCommandHandler component trait_name command_name callback st)
  then show ?thesis
    using assms by (auto simp: ServiceImpl_AddCommandHandler_def grown_def Let_def split: prod.splits)
next
  case (ApiSetPairingInfoListener callback)
  then show ?thesis
    using assms by (auto simp: ServiceImpl_SetPairingInfoListener_def grown_def Let_def
        split: option.splits if_splits)
qed (use assms in auto)

lemma client_step_grown:
  assumes "client_step cd dict_Set p e = Inr p'"
  shows "grown e p p'"
proof (cases e)
  case (EvTask n gs ok)
  then show ?thesis using assms by (auto simp: run_task_grown split: if_splits)
next
  case (EvClientNotify wid ids)
  then show ?thesis using assms by (auto intro: notify_grown split: if_splits)
next
  case (EvApi wid call)
  then show ?thesis using assms by (auto intro: api_grown split: option.splits if_splits)
next
  case (EvServiceConnected wid service)
  then show ?thesis
    using assms by (auto simp: WeaveClient_onServiceConnected_def ServiceImpl_OnServiceConnected_def
        grown_def lock_def split: option.splits if_splits)
qed (use assms in \<open>auto simp: WeaveClient_onCommand_def OnWeaveServiceDisconnected_def
      destroy_Subscription_def grown_def split: if_splits option.splits\<close>)

text \<open>An instance that has a manager is registered for its death and has its binder object.\<close>

definition link_inv :: "'w client_process \<Rightarrow> bool" where
  "link_inv p \<longleftrightarrow> (\<forall>wid si b. cp_live p = Some (wid, si) \<longrightarrow> si_manager si = Some b \<longrightarrow>
     (b, wid) \<in> set (cp_deaths p) \<and> wid \<in> set (cp_weave_clients p))"

lemma link_inv_grown:
  assumes "link_inv p" and "grown e p p'"
  shows "link_inv p'"
  unfolding link_inv_def
proof (intro allI impI)
  fix wid si' b
  assume live: "cp_live p' = Some (wid, si')" and b: "si_manager si' = Some b"
  have keeps: "set (cp_weave_clients p) \<subseteq> set (cp_weave_clients p')" "set (cp_deaths p) \<subseteq> set (cp_deaths p')"
    using assms(2) live by (auto simp: grown_def)
  consider si where "cp_live p = Some (wid, si)" "si_manager si = Some b"
    | "cp_deaths p' = cp_deaths p @ [(b, wid)]" "cp_weave_clients p' = cp_weave_clients p @ [wid]"
    using assms(2) live b unfolding grown_def by blast
  then show "(b, wid) \<in> set (cp_deaths p') \<and> wid \<in> set (cp_weave_clients p')"
    using assms(1) keeps by cases (auto simp: link_inv_def)
qed

lemma link_inv_start: "link_inv Service_Connect"
  by (simp add: link_inv_def Service_Connect_def)

section \<open>What the handlers of the daemon hand out\<close>

definition handed :: "manager_effect list \<Rightarrow> (sp \<times> sp) list" where
  "handed es = concat (map issued_by es)"

lemma handed_simps [simp]:
  "handed [] = []" "handed (e # es) = issued_by e @ handed es" "handed (es @ es') = handed es @ handed es'"
  by (simp_all add: handed_def)

lemma handed_notify [simp]: "handed (map (\<lambda>kv. NotifyListener (fst kv) ids) ls) = []"
  by (induction ls) simp_all

text \<open>
  \<open>hands_out gone m es m'\<close>: with the effects \<open>es\<close> the daemon gives clients services under
  fresh addresses; its table only gets these, loses at most those of the clients \<open>gone\<close>, and
  has the service of a new client that was given one.
\<close>

definition hands_out :: "sp set \<Rightarrow> 'dev Manager \<Rightarrow> manager_effect list \<Rightarrow> 'dev Manager \<Rightarrow> bool" where
  "hands_out gone m es m' \<longleftrightarrow> mg_effects m' = mg_effects m @ es \<and> mg_next_address m \<le> mg_next_address m' \<and>
     (\<forall>(client, service) \<in> set (handed es).
        mg_next_address m \<le> addr service \<and> addr service < mg_next_address m') \<and>
     distinct (map snd (handed es)) \<and>
     (\<forall>client sv. map_of (mg_services m') client = Some sv \<longrightarrow>
        map_of (mg_services m) client = Some sv \<or> (client, bws_this sv) \<in> set (handed es)) \<and>
     (\<forall>client. client \<notin> gone \<longrightarrow>
        (\<forall>sv. map_of (mg_services m) client = Some sv \<longrightarrow> map_of (mg_services m') client = Some sv) \<and>
        (\<forall>service. map_of (mg_services m) client = None \<longrightarrow>
           filter (\<lambda>cs. fst cs = client) (handed es) = [(client, service)] \<longrightarrow>
           (\<exists>sv. map_of (mg_services m') client = Some sv \<and> bws_this sv = service)))"

lemma hands_outD:
  assumes "hands_out gone m es m'"
  shows "mg_effects m' = mg_effects m @ es" and "mg_next_address m \<le> mg_next_address m'"
    and "distinct (map snd (handed es))"
    and "(client, service) \<in> set (handed es) \<Longrightarrow>
      mg_next_address m \<le> addr service \<and> addr service < mg_next_address m'"
    and "map_of (mg_services m') client = Some sv \<Longrightarrow>
      map_of (mg_services m) client = Some sv \<or> (client, bws_this sv) \<in> set (handed es)"
    and "client \<notin> gone \<Longrightarrow> map_of (mg_services m) client = Some sv \<Longrightarrow> map_of (mg_services m') client = Some sv"
    and "client \<notin> gone \<Longrightarrow> map_of (mg_services m) client = None \<Longrightarrow>
      filter (\<lambda>cs. fst cs = client) (handed es) = [(client, service)] \<Longrightarrow>
      \<exists>sv. map_of (mg_services m') client = Some sv \<and> bws_this sv = service"
  using assms unfolding hands_out_def by blast+

lemma hands_out_mono: "hands_out gone m es m' \<Longrightarrow> gone \<subseteq> gone' \<Longrightarrow> hands_out gone' m es m'"
  unfolding hands_out_def by blast

lemma handed_filter_Nil: "filter (\<lambda>cs. fst cs = client) (handed es) = [] \<longleftrightarrow> (\<forall>s. (client, s) \<notin> set (handed es))"
  by (auto simp: filter_empty_conv)

lemma hands_out_trans:
  assumes "hands_out gone m es m1" and "hands_out gone m1 es' m2"
  shows "hands_out gone m (es @ es') m2"
proof -
  note first = hands_outD [OF assms(1)] and second = hands_outD [OF assms(2)]
  have "snd cs \<noteq> snd cs'" if "cs \<in> set (handed es)" "cs' \<in> set (handed es')" for cs cs'
    using first(4) [of "fst cs" "snd cs"] second(4) [of "fst cs'" "snd cs'"] that by auto
  then have dist: "distinct (map snd (handed (es @ es')))"
    using first(3) second(3) by auto
  have new: "\<exists>sv. map_of (mg_services m2) client = Some sv \<and> bws_this sv = service"
    if c: "client \<notin> gone" "map_of (mg_services m) client = None"
      "filter (\<lambda>cs. fst cs = client) (handed (es @ es')) = [(client, service)]" for client service
  proof (cases "filter (\<lambda>cs. fst cs = client) (handed es)")
    case Nil
    then have "map_of (mg_services m1) client = None"
      using first(5) [of client] c(2) unfolding handed_filter_Nil by fastforce
    then show ?thesis using second(7) [OF c(1)] c(3) Nil by simp
  next
    case (Cons cs css)
    then have "filter (\<lambda>cs. fst cs = client) (handed es) = [(client, service)]" using c(3) by simp
    from first(7) [OF c(1,2) this] second(6) [OF c(1)] show ?thesis by blast
  qed
  have "map_of (mg_services m) client = Some sv \<or> (client, bws_this sv) \<in> set (handed (es @ es'))"
    if "map_of (mg_services m2) client = Some sv" for client sv
    using first(5) second(5) [OF that] by auto
  moreover have "mg_next_address m \<le> addr service \<and> addr service < mg_next_address m2"
    if "(client, service) \<in> set (handed (es @ es'))" for client service
    using first(2) second(2) first(4) [of client service] second(4) [of client service] that by auto
  ultimately show ?thesis
    unfolding hands_out_def using dist new first(1,2,6) second(1,2,6) by (auto simp del: filter_append)
qed

lemma hands_out_nothing:
  "mg_effects m' = mg_effects m @ es \<Longrightarrow> handed es = [] \<Longrightarrow> mg_next_address m' = mg_next_address m \<Longrightarrow>
   mg_services m' = mg_services m \<Longrightarrow> hands_out gone m es m'"
  by (simp add: hands_out_def)

lemma hands_out_refl [simp, intro]: "\<exists>es. hands_out gone m es m"
  by (rule exI [of _ "[]"], rule hands_out_nothing) simp_all

lemma create_service_hands_out:
  "hands_out {} m [ClientOnServiceConnected client (Sp (mg_next_address m)), RegisterForDeathNotifications client]
     (create_service client m)"
  by (auto simp: hands_out_def map_of_smap_emplace new_BinderWeaveService_def split: if_splits)

lemma create_services_hand_out: "\<exists>es. hands_out {} m es (fold create_service clients m)"
proof (induction clients arbitrary: m)
  case (Cons client clients)
  then show ?case using hands_out_trans [OF create_service_hands_out] by fastforce
qed simp

lemma CreateServices_hands_out: "CreateServicesForClients m = Inr m' \<Longrightarrow> \<exists>es. hands_out {} m es m'"
proof -
  assume "CreateServicesForClients m = Inr m'"
  then have m': "m' = fold create_service (mg_pending_clients m) (m\<lparr>mg_pending_clients := []\<rparr>)"
    by (simp add: CreateServicesForClients_def)
  have "hands_out {} m [] (m\<lparr>mg_pending_clients := []\<rparr>)" by (rule hands_out_nothing) simp_all
  then show ?thesis
    unfolding m' using create_services_hand_out hands_out_trans by blast
qed

lemma CreateDevice_hands_out: "CreateDevice api env m = Inr m' \<Longrightarrow> \<exists>es. hands_out {} m es m'"
proof (cases "mg_device m")
  case None
  assume "CreateDevice api env m = Inr m'"
  then obtain device where create: "CreateServicesForClients
      (mg_emit [AddSettingsChangedCallback, AddTraitDefsChangedCallback, AddStateChangedCallback,
         AddComponentTreeChangedCallback, AddGcdStateChangedCallback, AddPairingChangedCallbacks] m
       \<lparr>mg_device := Some device\<rparr>) = Inr m'"
    (is "CreateServicesForClients ?m = _")
    using None by (auto simp: CreateDevice_def Let_def)
  have "hands_out {} m [AddSettingsChangedCallback, AddTraitDefsChangedCallback, AddStateChangedCallback,
         AddComponentTreeChangedCallback, AddGcdStateChangedCallback, AddPairingChangedCallbacks] ?m"
    by (rule hands_out_nothing) simp_all
  then show ?thesis using CreateServices_hands_out [OF create] hands_out_trans by blast
qed (auto simp: CreateDevice_def)

lemma connect_hands_out: "Manager_connect client m = Inr m' \<Longrightarrow> \<exists>es. hands_out {} m es m'"
proof -
  assume connect: "Manager_connect client m = Inr m'"
  have "hands_out {} m [] (m\<lparr>mg_pending_clients := mg_pending_clients m @ [client]\<rparr>)"
    by (rule hands_out_nothing) simp_all
  with connect CreateServices_hands_out hands_out_trans show ?thesis
    by (auto simp: Manager_connect_def Let_def split: if_splits) blast+
qed

lemma notify_hands_out: "\<exists>es. hands_out {} m es (NotifyServiceManagerChange ids m)"
  by (auto simp: NotifyServiceManagerChange_def intro!: hands_out_nothing exI)

definition gone_by :: "('dev, 'pt, 'role) manager_event \<Rightarrow> sp set" where
  "gone_by e = (case e of MeClientDied client \<Rightarrow> {client} | _ \<Rightarrow> {})"

lemma manager_step_hands_out:
  assumes "manager_step wifi api cd m e = Inr m'"
  shows "\<exists>es. hands_out (gone_by e) m es m'"
proof (cases e)
  case (MeConnect client)
  then show ?thesis using assms connect_hands_out by (simp add: gone_by_def)
next
  case (MeWebServerReady env)
  then show ?thesis using assms CreateDevice_hands_out
    by (auto simp: gone_by_def split: if_splits)
next
  case (MeClientDied client)
  have "hands_out {client} m [] (OnClientDisconnected client m)"
    by (auto simp: hands_out_def OnClientDisconnected_def split: if_splits)
  then show ?thesis using assms MeClientDied by (auto simp: gone_by_def)
next
  case (MeConfig settings)
  let ?m = "m\<lparr>mg_cloud_id := cloud_id settings, mg_device_id := device_id settings,
      mg_device_name := set_name settings, mg_device_description := description settings,
      mg_device_location := location_text settings, mg_oem_name := oem_name settings,
      mg_model_id := model_id settings, mg_model_name := model_name settings\<rparr>"
  have "hands_out {} m [] ?m" by (rule hands_out_nothing) simp_all
  then have "\<exists>es. hands_out {} m es (OnConfigChanged settings m)"
    unfolding OnConfigChanged_eq using notify_hands_out hands_out_trans by blast
  then show ?thesis
    using assms MeConfig by (auto simp: gone_by_def split: if_splits)
qed (use assms in \<open>auto simp: gone_by_def registerNotificationListener_def OnNotificationListenerDestroyed_def
      OnTraitDefsChanged_def OnComponentTreeChanged_def OnGcdStateChanged_def RebootDeviceNow_def Let_def
      OnPairingStart_eq OnPairingEnd_eq OnRebootDevice_def Manager_Stop_def set_pairing_def
      NotifyServiceManagerChange_def intro!: hands_out_nothing exI split: if_splits option.splits\<close>)

lemma Manager_Start_hands_out:
  assumes "Manager_Start wifi api env (new_Manager options first) = Inr m"
  shows "\<exists>es. hands_out {} (new_Manager options first) es m"
proof -
  let ?start = "new_Manager options first"
  let ?m = "mg_emit [NewShillClient (device_whitelist options) (\<not> xmpp_enabled options)]
    (Manager_Stop wifi (mg_emit [PowerManagerInit] ?start)
      \<lparr>mg_task_runner := True, mg_config := True, mg_http_client := True, mg_shill_client := True\<rparr>)"
  have start: "hands_out {} ?start [PowerManagerInit, NewShillClient (device_whitelist options) (\<not> xmpp_enabled options)] ?m"
    by (rule hands_out_nothing) (auto simp: Manager_Stop_def Let_def split: if_splits)
  show ?thesis
  proof (cases "wifi \<and> \<not> disable_privet options")
    case True
    let ?es = "[PowerManagerInit, NewShillClient (device_whitelist options) (\<not> xmpp_enabled options)] @
      (if enable_ping options then [AddPingHandlers] else [])"
    have "hands_out {} ?start ?es m"
    proof (rule hands_out_nothing)
      show "mg_effects m = mg_effects ?start @ ?es"
        using assms True by (auto simp: Manager_Start_def RestartWeave_def Manager_Stop_def new_Manager_def Let_def)
      show "mg_next_address m = mg_next_address ?start"
        using assms True by (auto simp: Manager_Start_def RestartWeave_def Manager_Stop_def new_Manager_def Let_def)
      show "mg_services m = mg_services ?start"
        using assms True by (auto simp: Manager_Start_def RestartWeave_def Manager_Stop_def new_Manager_def Let_def)
    qed simp
    then show ?thesis by blast
  next
    case False
    then have "CreateDevice api env ?m = Inr m"
      using assms by (auto simp: Manager_Start_def RestartWeave_def Let_def Manager_Stop_def new_Manager_def
          split: if_splits)
    then show ?thesis using CreateDevice_hands_out start hands_out_trans by blast
  qed
qed

section \<open>Moves\<close>

text \<open>
  What a step of the system does, by the process that is affected and without the details of the
  events; the invariants are proved over these moves.
\<close>

fun own_event :: "('dev, 'v, 'd) world \<Rightarrow> ('dev, 'w) weave_system \<Rightarrow> ('w, 'v, 'd) client_event \<Rightarrow> bool" where
  "own_event w S (EvTask n gs ok) = (gs = GetService w S)"
| "own_event w S (EvServiceConnected _ _) = False"
| "own_event w S (EvClientCommand _ _ _ _) = False"
| "own_event w S (EvClientNotify _ _) = False"
| "own_event w S _ = True"

definition take_message :: "nat \<Rightarrow> ('dev, 'w) weave_system \<Rightarrow> ('dev, 'w) weave_system" where
  "take_message n S = S\<lparr>ws_to_clients := take n (ws_to_clients S) @ drop (Suc n) (ws_to_clients S)\<rparr>"

definition dead_clients :: "('dev, 'v, 'd) world \<Rightarrow> ('dev, 'w) weave_system \<Rightarrow> sp set" where
  "dead_clients w S = {client. \<exists>pid wid. pid \<in> set (ws_dead S) \<and> client = w_client w pid wid}"

definition dead_listeners :: "('dev, 'v, 'd) world \<Rightarrow> ('dev, 'w) weave_system \<Rightarrow> sp set" where
  "dead_listeners w S = {l. \<exists>pid wid. pid \<in> set (ws_dead S) \<and> l = w_listener w pid wid}"

inductive move :: "('dev, 'v, 'd) world \<Rightarrow> ('dev, 'w) weave_system \<Rightarrow> ('dev, 'w) weave_system \<Rightarrow> bool"
  for w :: "('dev, 'v, 'd) world" and S :: "('dev, 'w) weave_system" where
  killed: "move w S (S\<lparr>ws_dead := pid # ws_dead S\<rparr>)"
| ran: "pid \<notin> set (ws_dead S) \<Longrightarrow> own_event w S e \<Longrightarrow>
    client_step (w_codec w) (w_dict_Set w) (ws_client S pid) e = Inr p \<Longrightarrow>
    move w S (process_ran w pid (Inr p) S)"
| delivered: "n < length (ws_to_clients S) \<Longrightarrow> object_of w pid wid (ws_to_clients S ! n) \<Longrightarrow>
    pid \<notin> set (ws_dead S) \<Longrightarrow>
    client_step (w_codec w) (w_dict_Set w) (ws_client S pid)
      (message_event w (manager_of w S pid wid) wid (ws_to_clients S ! n)) = Inr p \<Longrightarrow>
    move w S (process_ran w pid (Inr p) (take_message n S))"
| lost: "n < length (ws_to_clients S) \<Longrightarrow> object_of w pid wid (ws_to_clients S ! n) \<Longrightarrow>
    pid \<in> set dead \<Longrightarrow> set (ws_dead S) \<subseteq> set dead \<Longrightarrow>
    move w S (take_message n S\<lparr>ws_dead := dead\<rparr>)"
| called: "ws_manager S = Some m \<Longrightarrow> ws_to_manager S = c # cs \<Longrightarrow>
    manager_step (w_wifi w) (w_api w) (w_codec w) m
      (handle_call c :: ('dev, unit, unit) manager_event) = Inr m' \<Longrightarrow>
    move w S (daemon_ran (mg_effects m) (Inr m') (S\<lparr>ws_to_manager := cs\<rparr>))"
| daemon: "ws_manager S = Some m \<Longrightarrow> hands_out gone m es m' \<Longrightarrow> gone \<subseteq> dead_clients w S \<Longrightarrow> manager_inv (w_wifi w) m' \<Longrightarrow>
    (\<And>client. ledger client m' = ledger client m) \<Longrightarrow>
    tells unregistered m es m' \<Longrightarrow> unregistered \<subseteq> dead_listeners w S \<Longrightarrow>
    move w S (daemon_ran (mg_effects m) (Inr m') S)"
| died: "move w S (daemon_died S)"
| answered_call: "ws_manager S = Some m \<Longrightarrow> map_of (mg_services m) client = Some sv \<Longrightarrow>
    bws_this sv' = bws_this sv \<Longrightarrow> bws_client sv' = bws_client sv \<Longrightarrow> mg_device m \<noteq> None \<Longrightarrow>
    move w S (S\<lparr>ws_manager := Some (m\<lparr>mg_device := Some device,
      mg_services := smap_put client sv' (mg_services m)\<rparr>)\<rparr>)"
| dispatched: "ws_manager S = Some m \<Longrightarrow> map_of (mg_services m) client = Some sv \<Longrightarrow>
    move w S (S\<lparr>ws_to_clients := ws_to_clients S @ [MsgCommand client c n cmd],
      ws_dispatched := ws_dispatched S @ [(bws_this sv, component, command, cmd)]\<rparr>)"
| started: "ws_manager S = None \<Longrightarrow> ws_addresses S \<le> first \<Longrightarrow>
    Manager_Start (w_wifi w) (w_api w) env (new_Manager options first) = Inr m \<Longrightarrow>
    move w S (daemon_ran [] (Inr m) (S\<lparr>ws_generation := Suc (ws_generation S)\<rparr>))"
| not_started: "ws_manager S = None \<Longrightarrow> move w S (S\<lparr>ws_generation := Suc (ws_generation S)\<rparr>)"

text \<open>An application's call is a call of the library's model, whoever answers it.\<close>

lemma same_process: "cp_live p = Some x \<Longrightarrow> cp_emit [] (p\<lparr>cp_live := Some x\<rparr>) = p"
  by (simp add: cp_emit_def)

lemma app_call_is_api:
  assumes "cp_live p = Some (wid, si)" and "app_call w remote req si s = Inr (si', es, s')"
  shows "\<exists>call. api_step (w_codec w) (w_dict_Set w) wid si call p =
    Inr (cp_emit es (p\<lparr>cp_live := Some (wid, si')\<rparr>))"
proof (cases req)
  case (AppAddComponent component traits)
  then have "api_step (w_codec w) (w_dict_Set w) wid si (ApiAddComponent component traits (Inr ())) p =
      Inr (cp_emit es (p\<lparr>cp_live := Some (wid, si')\<rparr>))"
    using assms by (auto simp: ServiceImpl_AddComponent_def same_process split: prod.splits)
  then show ?thesis by blast
next
  case (AppAddCommandHandler component trait_name command_name callback)
  then have "api_step (w_codec w) (w_dict_Set w) wid si
      (ApiAddCommandHandler component trait_name command_name callback (Inr ())) p =
      Inr (cp_emit es (p\<lparr>cp_live := Some (wid, si')\<rparr>))"
    using assms by (auto simp: ServiceImpl_AddCommandHandler_def answering_def cp_emit_def Let_def split: prod.splits)
  then show ?thesis by blast
next
  case (AppSetStateProperties component dict)
  then have "api_step (w_codec w) (w_dict_Set w) wid si (ApiSetStateProperties component dict (Inr ())) p =
      Inr (cp_emit es (p\<lparr>cp_live := Some (wid, si')\<rparr>))"
    using assms by (auto simp: ServiceImpl_SetStateProperties_def same_process split: prod.splits)
  then show ?thesis by blast
next
  case (AppSetStateProperty component trait_name name v)
  then have "api_step (w_codec w) (w_dict_Set w) wid si
      (ApiSetStateProperty component trait_name name v (Inr ())) p =
      Inr (cp_emit es (p\<lparr>cp_live := Some (wid, si')\<rparr>))"
    using assms by (auto simp: ServiceImpl_SetStateProperty_def ServiceImpl_SetStateProperties_def same_process
        Let_def split: prod.splits)
  then show ?thesis by blast
next
  case (AppSetPairingInfoListener callback)
  then have "api_step (w_codec w) (w_dict_Set w) wid si (ApiSetPairingInfoListener callback) p =
      Inr (cp_emit es (p\<lparr>cp_live := Some (wid, si')\<rparr>))"
    using assms by (auto split: prod.splits)
  then show ?thesis by blast
qed

lemma addComponent_keeps_names:
  "BinderWeaveService_addComponent bc api cd n ts (device, sv) = Inr ((device', sv'), st) \<Longrightarrow>
   bws_this sv' = bws_this sv \<and> bws_client sv' = bws_client sv"
  by (auto simp: BinderWeaveService_addComponent_def Let_def split: prod.splits if_splits)

lemma daemon_service_keeps_names:
  "IWeaveService.addComponent (daemon_service bc api cd tf) n ts (device, sv) = ((device', sv'), st) \<Longrightarrow>
   bws_this sv' = bws_this sv \<and> bws_client sv' = bws_client sv"
  "registerCommandHandler (daemon_service bc api cd tf) c n (device, sv) = ((device', sv'), st) \<Longrightarrow> sv' = sv"
  "updateState (daemon_service bc api cd tf) c j (device, sv) = ((device', sv'), st) \<Longrightarrow> sv' = sv"
  by (auto simp: daemon_service_def deliver_def BinderWeaveService_registerCommandHandler_def
      BinderWeaveService_updateState_def Let_def dest: addComponent_keeps_names
      split: sum.splits prod.splits)

lemma app_call_keeps_names:
  assumes "app_call w (daemon_service bc api cd tf) req si (device, sv) = Inr (si', es, (device', sv'))"
  shows "bws_this sv' = bws_this sv \<and> bws_client sv' = bws_client sv"
  using assms
  by (cases req)
    (auto simp: ServiceImpl_AddComponent_def ServiceImpl_AddCommandHandler_def ServiceImpl_SetStateProperties_def
      ServiceImpl_SetStateProperty_def client_answer_def Let_def dest: daemon_service_keeps_names
      split: prod.splits sum.splits)

lemma find_service_map_of:
  assumes "manager_inv wifi m" and "find_service this m = Some (client, sv)"
  shows "map_of (mg_services m) client = Some sv \<and> bws_this sv = this \<and> bws_client sv = client"
proof -
  have "(client, sv) \<in> set (mg_services m)" "bws_this sv = this"
    using assms(2) unfolding find_service_def find_Some_iff by (metis nth_mem snd_conv)+
  moreover have "smap_wf (mg_services m)" "services_ok (mg_next_address m) (map_of (mg_services m))"
    using assms(1) by (simp_all add: manager_inv_def)
  ultimately show ?thesis using smap_wf_map_of [of "mg_services m"] by (auto simp: services_ok_def)
qed

text \<open>Every step of the system is a few moves.\<close>

definition daemon_ok :: "('dev, 'v, 'd) world \<Rightarrow> ('dev, 'w) weave_system \<Rightarrow> bool" where
  "daemon_ok w S \<longleftrightarrow> (\<forall>m. ws_manager S = Some m \<longrightarrow> manager_inv (w_wifi w) m)"

lemma process_step_moves:
  assumes "own_event w S e"
  shows "(move w)\<^sup>*\<^sup>* S (process_step w pid e S)"
proof (cases "pid \<in> set (ws_dead S)")
  case False
  show ?thesis
  proof (cases "client_step (w_codec w) (w_dict_Set w) (ws_client S pid) e")
    case (Inl f)
    then show ?thesis
      using False move.killed [of w S pid] by (simp add: process_step_def process_ran_def r_into_rtranclp)
  next
    case (Inr p)
    then show ?thesis
      using False move.ran [OF False assms] by (simp add: process_step_def r_into_rtranclp)
  qed
qed (simp add: process_step_def)

lemma daemon_step_moves:
  assumes "daemon_ok w S" and "\<And>client. \<not> connects client e" and "gone_by e \<subseteq> dead_clients w S"
    and "\<And>l. e \<noteq> MeRegisterListener l" and "unregistered_by e \<subseteq> dead_listeners w S"
  shows "(move w)\<^sup>*\<^sup>* S (daemon_step w e S)"
proof (cases "ws_manager S")
  case (Some m)
  show ?thesis
  proof (cases "manager_step (w_wifi w) (w_api w) (w_codec w) m e")
    case (Inl f)
    then show ?thesis
      using Some move.died [of w S] by (simp add: daemon_step_def daemon_ran_def r_into_rtranclp)
  next
    case (Inr m')
    have inv: "manager_inv (w_wifi w) m" using assms(1) Some by (simp add: daemon_ok_def)
    obtain es where es: "hands_out (gone_by e) m es m'" using manager_step_hands_out [OF Inr] by blast
    obtain es' where es': "tells (unregistered_by e) m es' m'" using manager_step_tells [OF Inr assms(4)] by blast
    have "es' = es" using hands_outD(1) [OF es] tells_effects [OF es'] by simp
    then show ?thesis
      using Some Inr es es' move.daemon [OF Some, of "gone_by e" es m' w "unregistered_by e"]
        manager_step_keeps [OF inv Inr] assms(2,3,5)
      by (simp add: daemon_step_def r_into_rtranclp)
  qed
qed (simp add: daemon_step_def)

lemma receive_moves:
  assumes "ws_manager S = Some m" and "ws_to_manager S = c # cs"
  shows "(move w)\<^sup>*\<^sup>* S
    (daemon_step w (handle_call c :: ('dev, 'pt, 'role) manager_event) (S\<lparr>ws_to_manager := cs\<rparr>))"
proof -
  have same: "manager_step (w_wifi w) (w_api w) (w_codec w) m (handle_call c :: ('dev, 'pt, 'role) manager_event) =
      manager_step (w_wifi w) (w_api w) (w_codec w) m (handle_call c :: ('dev, unit, unit) manager_event)"
    by (cases c) simp_all
  show ?thesis
  proof (cases "manager_step (w_wifi w) (w_api w) (w_codec w) m (handle_call c :: ('dev, unit, unit) manager_event)")
    case (Inl f)
    then have "daemon_step w (handle_call c :: ('dev, 'pt, 'role) manager_event) (S\<lparr>ws_to_manager := cs\<rparr>) =
        daemon_died S"
      using assms same by (simp add: daemon_step_def daemon_ran_def daemon_died_def)
    then show ?thesis using move.died [of w S] by (simp add: r_into_rtranclp)
  next
    case (Inr m')
    then show ?thesis
      using assms same move.called [OF assms Inr] by (simp add: daemon_step_def r_into_rtranclp)
  qed
qed

lemma deliver_moves: "(move w)\<^sup>*\<^sup>* S (deliver_message w n pid wid S)"
proof (cases "n < length (ws_to_clients S) \<and> object_of w pid wid (ws_to_clients S ! n) \<and>
    target (ws_to_clients S ! n) \<notin> target ` set (take n (ws_to_clients S))")
  case True
  let ?e = "message_event w (manager_of w S pid wid) wid (ws_to_clients S ! n)"
  have step: "deliver_message w n pid wid S = process_step w pid ?e (take_message n S)"
    using True by (simp add: deliver_message_def take_message_def)
  have lost: "move w S (take_message n S\<lparr>ws_dead := dead\<rparr>)"
    if "pid \<in> set dead" "set (ws_dead S) \<subseteq> set dead" for dead
    using move.lost [of n S w pid wid dead] True that by blast
  have fields: "ws_dead (take_message n S) = ws_dead S" "ws_client (take_message n S) = ws_client S"
    by (simp_all add: take_message_def)
  consider "pid \<in> set (ws_dead S)"
    | f where "pid \<notin> set (ws_dead S)" "client_step (w_codec w) (w_dict_Set w) (ws_client S pid) ?e = Inl f"
    | p where "pid \<notin> set (ws_dead S)" "client_step (w_codec w) (w_dict_Set w) (ws_client S pid) ?e = Inr p"
    by (cases "client_step (w_codec w) (w_dict_Set w) (ws_client S pid) ?e") auto
  then have "move w S (process_step w pid ?e (take_message n S))"
  proof cases
    case 1
    have same: "take_message n S\<lparr>ws_dead := ws_dead S\<rparr> = take_message n S" by (simp add: take_message_def)
    show ?thesis using 1 lost [of "ws_dead S", unfolded same] by (simp add: process_step_def fields)
  next
    case 2
    then show ?thesis using lost [of "pid # ws_dead S"] by (auto simp: process_step_def fields process_ran_def)
  next
    case 3
    then show ?thesis using True move.delivered [of n S w pid wid p] by (simp add: process_step_def fields)
  qed
  then show ?thesis by (simp add: step r_into_rtranclp)
qed (auto simp: deliver_message_def)

lemma app_step_moves:
  fixes S :: "('dev, 'w) weave_system"
  assumes "daemon_ok w S" and "pid \<notin> set (ws_dead S)" and "cp_live (ws_client S pid) = Some (wid, si)"
    and "RunConnectionCallback wid \<in> set (cp_effects (ws_client S pid))"
  shows "(move w)\<^sup>*\<^sup>* S (app_step w pid wid req si S)"
proof -
  let ?local = "\<lambda>(si, es). cp_emit es (ws_client S pid\<lparr>cp_live := Some (wid, si)\<rparr>)"
  have step: "move w S1 (process_ran w pid (Inr (?local (si', es))) S1)"
    if "app_call w remote req si s = Inr (si', es, s')" "ws_client S1 = ws_client S" "ws_dead S1 = ws_dead S"
    for remote :: "'s IWeaveService" and s s' si' es and S1 :: "('dev, 'w) weave_system"
  proof -
    from app_call_is_api [OF assms(3) that(1)] obtain call where
      "api_step (w_codec w) (w_dict_Set w) wid si call (ws_client S pid) = Inr (?local (si', es))" by auto
    then have "client_step (w_codec w) (w_dict_Set w) (ws_client S1 pid) (EvApi wid call) = Inr (?local (si', es))"
      using assms(3,4) that by (simp add: lock_def)
    then show ?thesis using move.ran [of pid S1 w "EvApi wid call"] assms(2) that by simp
  qed
  have killed: "(move w)\<^sup>*\<^sup>* S (process_ran w pid (Inl f) S)" for f
    using move.killed [of w S pid] by (simp add: process_ran_def r_into_rtranclp)
  let ?un = "process_ran w pid (bind_result (app_call w (gone_service (w_dead_object w)) req si ())
      (\<lambda>(si, es, _). Inr (?local (si, es)))) S"
  have unanswered: "(move w)\<^sup>*\<^sup>* S ?un"
    using step [of "gone_service (w_dead_object w)" "()" _ _ "()" S] killed
    by (cases "app_call w (gone_service (w_dead_object w)) req si () ::
        (ServiceImpl \<times> 'w client_effect list \<times> unit) result") (auto intro: r_into_rtranclp)
  show ?thesis
  proof (cases "\<exists>m service client sv device. ws_manager S = Some m \<and> si_weave_service si = Some service \<and>
      find_service service m = Some (client, sv) \<and> mg_device m = Some device")
    case True
    then obtain m service client sv device where daemon: "ws_manager S = Some m"
      and service: "si_weave_service si = Some service" "find_service service m = Some (client, sv)"
      and device: "mg_device m = Some device" by blast
    let ?remote = "daemon_service (w_codes w) (weave_device_api.truncate (w_api w)) (w_codec w) (w_dead_object w)"
    have sv: "map_of (mg_services m) client = Some sv"
      using find_service_map_of [of "w_wifi w" m service client sv] assms(1) daemon service
      by (simp add: daemon_ok_def)
    show ?thesis
    proof (cases "app_call w ?remote req si (device, sv) ::
        (ServiceImpl \<times> 'w client_effect list \<times> 'dev service_state) result")
      case (Inl f)
      then have "app_step w pid wid req si S = process_ran w pid (Inl f) S"
        using daemon service device by (simp add: app_step_def Let_def)
      then show ?thesis using killed by simp
    next
      case (Inr r)
      obtain si' es device' sv' where "r = (si', es, (device', sv'))" by (metis prod.collapse)
      with Inr have call: "app_call w ?remote req si (device, sv) = Inr (si', es, (device', sv'))" by simp
      let ?S = "S\<lparr>ws_manager := Some (m\<lparr>mg_device := Some device', mg_services := smap_put client sv' (mg_services m)\<rparr>)\<rparr>"
      have "move w S ?S"
        using move.answered_call [OF daemon sv, of _ w] app_call_keeps_names [OF call] device by simp
      moreover have "move w ?S (process_ran w pid (Inr (?local (si', es))) ?S)"
        by (rule step [OF call]) simp_all
      moreover have "app_step w pid wid req si S = process_ran w pid (Inr (?local (si', es))) ?S"
        using daemon service device call by (simp add: app_step_def Let_def)
      ultimately show ?thesis by (metis rtranclp.rtrancl_into_rtrancl r_into_rtranclp)
    qed
  next
    case False
    then have "app_step w pid wid req si S = ?un"
      by (auto simp: app_step_def Let_def split: option.split)
    then show ?thesis using unanswered by simp
  qed
qed

lemma dispatch_moves:
  assumes "daemon_ok w S"
  shows "(move w)\<^sup>*\<^sup>* S (dispatch_command w this component command cmd S)"
proof (cases "\<exists>m client sv. ws_manager S = Some m \<and> find_service this m = Some (client, sv)")
  case True
  then obtain m client sv where m: "ws_manager S = Some m" and found: "find_service this m = Some (client, sv)"
    by blast
  have sv: "map_of (mg_services m) client = Some sv" "bws_this sv = this" "bws_client sv = client"
    using find_service_map_of [OF _ found, of "w_wifi w"] assms m by (simp_all add: daemon_ok_def)
  show ?thesis
    using move.dispatched [OF m sv(1), of w] sv(2,3) m found
    by (auto simp: dispatch_command_def BinderWeaveService_OnCommand_def intro: r_into_rtranclp)
qed (auto simp: dispatch_command_def split: option.split)

lemma sys_step_moves:
  fixes e :: "('dev, 'pt, 'role, 'w, 'v, 'd) system_event"
  assumes "daemon_ok w S"
  shows "(move w)\<^sup>*\<^sup>* S (sys_step w e S)"
proof (cases e)
  case (SysApp pid wid req)
  then show ?thesis using app_step_moves [OF assms] by (auto split: option.split)
next
  case SysReceive
  then show ?thesis using receive_moves by (auto split: option.split list.split)
next
  case (SysManager me)
  have "\<not> from_binder me \<Longrightarrow> \<not> connects client me \<and> gone_by me = {} \<and> me \<noteq> MeRegisterListener l \<and>
      unregistered_by me = {}" for client l
    by (cases me) (simp_all add: connects_def gone_by_def unregistered_by_def)
  then show ?thesis using SysManager daemon_step_moves [OF assms, of me] by auto
next
  case (SysClientDied pid wid)
  let ?e = "MeClientDied (w_client w pid wid) :: ('dev, 'pt, 'role) manager_event"
  have "gone_by ?e \<subseteq> dead_clients w S" if "pid \<in> set (ws_dead S)"
    using that by (auto simp: gone_by_def dead_clients_def)
  then show ?thesis
    using SysClientDied daemon_step_moves [OF assms, of ?e] by (simp add: connects_def unregistered_by_def)
next
  case (SysListenerDied pid wid)
  let ?e = "MeListenerDied (w_listener w pid wid) :: ('dev, 'pt, 'role) manager_event"
  have "unregistered_by ?e \<subseteq> dead_listeners w S" if "pid \<in> set (ws_dead S)"
    using that by (auto simp: unregistered_by_def dead_listeners_def)
  then show ?thesis
    using SysListenerDied daemon_step_moves [OF assms, of ?e] by (simp add: connects_def gone_by_def)
next
  case (SysDaemonStart env options first)
  show ?thesis
  proof (cases "ws_manager S = None \<and> ws_addresses S \<le> first")
    case True
    show ?thesis
    proof (cases "Manager_Start (w_wifi w) (w_api w) env (new_Manager options first)")
      case (Inl f)
      then show ?thesis
        using True SysDaemonStart move.not_started [of S w]
        by (simp add: daemon_ran_def daemon_died_def r_into_rtranclp)
    next
      case (Inr m)
      then show ?thesis using True SysDaemonStart move.started [of S first w env options m] by (simp add: r_into_rtranclp)
    qed
  qed (use SysDaemonStart in auto)
qed (auto simp: process_step_moves deliver_moves dispatch_moves [OF assms] intro: r_into_rtranclp move.killed move.died)

end
