(* ===== verification/System_Conservation.thy ===== *)
theory System_Conservation
  imports System_Moves
begin

text \<open>
  What every move of the system conserves: services are handed out under fresh addresses, commands
  stay with the client they were dispatched to, and a connection request is neither duplicated on
  its way through the driver and the daemon nor forgotten.
\<close>

section \<open>Fields after a handler\<close>

lemma process_ran_fields [simp]:
  "ws_manager (process_ran w pid r S) = ws_manager S"
  "ws_generation (process_ran w pid r S) = ws_generation S"
  "ws_addresses (process_ran w pid r S) = ws_addresses S"
  "ws_to_clients (process_ran w pid r S) = ws_to_clients S"
  "ws_issued (process_ran w pid r S) = ws_issued S"
  "ws_dispatched (process_ran w pid r S) = ws_dispatched S"
  "ws_client (process_ran w pid (Inr p) S) = (ws_client S)(pid := p)"
  "ws_dead (process_ran w pid (Inr p) S) = ws_dead S"
  by (simp_all add: process_ran_def Let_def split: sum.split)

lemma take_message_fields [simp]:
  "ws_manager (take_message n S) = ws_manager S" "ws_generation (take_message n S) = ws_generation S"
  "ws_addresses (take_message n S) = ws_addresses S" "ws_client (take_message n S) = ws_client S"
  "ws_dead (take_message n S) = ws_dead S" "ws_to_manager (take_message n S) = ws_to_manager S"
  "ws_issued (take_message n S) = ws_issued S" "ws_dispatched (take_message n S) = ws_dispatched S"
  by (simp_all add: take_message_def)

lemma in_take_message: "msg \<in> set (ws_to_clients (take_message n S)) \<Longrightarrow> msg \<in> set (ws_to_clients S)"
  by (auto simp: take_message_def dest: in_set_takeD in_set_dropD)

lemma daemon_ran_fields [simp]:
  "ws_generation (daemon_ran before (Inr m) S) = ws_generation S"
  "ws_client (daemon_ran before (Inr m) S) = ws_client S"
  "ws_dead (daemon_ran before (Inr m) S) = ws_dead S"
  "ws_to_manager (daemon_ran before (Inr m) S) = ws_to_manager S"
  "ws_manager (daemon_ran before (Inr m) S) = Some m"
  "ws_dispatched (daemon_ran before (Inr m) S) = ws_dispatched S"
  by (simp_all add: daemon_ran_def Let_def)

definition sent :: "manager_effect list \<Rightarrow> 'w client_message list" where
  "sent es = concat (map messages_of es)"

lemma daemon_ran_hands_out:
  assumes "mg_effects m' = before @ es"
  shows "ws_to_clients (daemon_ran before (Inr m') S) = ws_to_clients S @ sent es"
    and "ws_issued (daemon_ran before (Inr m') S) = ws_issued S @ handed es"
  using assms by (simp_all add: daemon_ran_def handed_def sent_def)

lemma daemon_died_fields [simp]:
  "ws_client (daemon_died S) = ws_client S" "ws_dead (daemon_died S) = ws_dead S"
  "ws_to_clients (daemon_died S) = ws_to_clients S" "ws_issued (daemon_died S) = ws_issued S"
  "ws_dispatched (daemon_died S) = ws_dispatched S" "ws_generation (daemon_died S) = ws_generation S"
  "ws_manager (daemon_died S) = None"
  by (simp_all add: daemon_died_def split: option.split)

lemma sent_simps [simp]: "sent [] = []" "sent (e # es) = messages_of e @ sent es"
  by (simp_all add: sent_def)

lemma connected_message [simp]:
  "MsgServiceConnected client service \<in> set (sent es) \<longleftrightarrow> (client, service) \<in> set (handed es)"
proof (induction es)
  case (Cons e es)
  then show ?case by (cases e) auto
qed simp

lemma no_command_message [simp]: "MsgCommand client c n cmd \<notin> set (sent es)"
proof (induction es)
  case (Cons e es)
  then show ?case by (cases e) auto
qed simp

lemma message_event_connected:
  "message_event w mo wid msg = EvServiceConnected i service \<longleftrightarrow>
     i = wid \<and> (\<exists>client. msg = MsgServiceConnected client service)"
  "message_event w mo wid msg = EvClientCommand i c n cmd \<longleftrightarrow>
     i = wid \<and> (\<exists>client. msg = MsgCommand client c n cmd)"
  by (auto simp: message_event_def split: client_message.split)

section \<open>Each process keeps its invariants\<close>

definition processes_ok :: "('dev, 'w) weave_system \<Rightarrow> bool" where
  "processes_ok S \<longleftrightarrow>
     (\<forall>pid. client_inv (ws_client S pid) \<and> retry_inv (ws_client S pid) \<and> link_inv (ws_client S pid))"

lemma processes_ok_ran:
  assumes "processes_ok S" and "client_step cd dict_Set (ws_client S pid) e = Inr p"
    and "ws_client S' = (ws_client S)(pid := p)"
  shows "processes_ok S'"
proof -
  have "client_inv p \<and> retry_inv p \<and> link_inv p"
    using assms client_step_inv client_step_retry link_inv_grown client_step_grown
    by (meson processes_ok_def)
  then show ?thesis using assms by (simp add: processes_ok_def)
qed

lemma processes_ok_cong: "processes_ok S \<Longrightarrow> ws_client S' = ws_client S \<Longrightarrow> processes_ok S'"
  by (simp add: processes_ok_def)

lemma move_processes: "move w S S' \<Longrightarrow> processes_ok S \<Longrightarrow> processes_ok S'"
  by (induction rule: move.induct)
    (auto elim: processes_ok_cong intro: processes_ok_ran processes_ok_cong)

lemma answered_call_inv:
  assumes "manager_inv wifi m" and "map_of (mg_services m) client = Some sv"
    and "bws_this sv' = bws_this sv" "bws_client sv' = bws_client sv" and "mg_device m \<noteq> None"
  shows "manager_inv wifi (m\<lparr>mg_device := Some device, mg_services := smap_put client sv' (mg_services m)\<rparr>)"
proof -
  have "services_ok (mg_next_address m) ((map_of (mg_services m))(client \<mapsto> sv'))"
    unfolding services_ok_def
  proof (intro conjI allI impI)
    have ok: "services_ok (mg_next_address m) (map_of (mg_services m))"
      using assms(1) by (simp add: manager_inv_def)
    fix c c' v v'
    assume c: "((map_of (mg_services m))(client \<mapsto> sv')) c = Some v"
    then obtain u where u: "map_of (mg_services m) c = Some u" "bws_this v = bws_this u" "bws_client v = bws_client u"
      using assms(2-4) by (auto split: if_splits)
    show "bws_client v = c" "addr (bws_this v) < mg_next_address m"
      using ok u by (simp_all add: services_ok_def)
    assume "((map_of (mg_services m))(client \<mapsto> sv')) c' = Some v'" and eq: "bws_this v = bws_this v'"
    then obtain u' where "map_of (mg_services m) c' = Some u'" "bws_this v' = bws_this u'"
      using assms(2-4) by (auto split: if_splits)
    then show "c = c'" using ok u eq by (auto simp: services_ok_def)
  qed
  then show ?thesis using assms(1,5) by (simp add: manager_inv_def)
qed

lemma move_daemon:
  assumes "move w S S'" and "daemon_ok w S"
  shows "daemon_ok w S'"
  using assms
proof (induction rule: move.induct)
  case (called m c cs m')
  then have "manager_inv (w_wifi w) m" by (simp add: daemon_ok_def)
  from manager_step_keeps [OF this called(3)] show ?case by (simp add: daemon_ok_def)
next
  case (answered_call m client sv sv' device)
  then show ?case by (simp add: daemon_ok_def answered_call_inv)
next
  case (started first env options m)
  then show ?case using Manager_Start_keeps [OF started(3)] by (simp add: daemon_ok_def)
qed (auto simp: daemon_ok_def)

section \<open>Services are handed out once\<close>

definition next_free :: "('dev, 'w) weave_system \<Rightarrow> nat" where
  "next_free S = (case ws_manager S of None \<Rightarrow> ws_addresses S | Some m \<Rightarrow> mg_next_address m)"

definition issue_inv :: "('dev, 'v, 'd) world \<Rightarrow> ('dev, 'w) weave_system \<Rightarrow> bool" where
  "issue_inv w S \<longleftrightarrow>
     (\<forall>cs \<in> set (ws_issued S). addr (snd cs) < next_free S) \<and>
     distinct (map snd (ws_issued S)) \<and>
     (\<forall>client service. MsgServiceConnected client service \<in> set (ws_to_clients S) \<longrightarrow>
        (client, service) \<in> set (ws_issued S)) \<and>
     (\<forall>m client sv. ws_manager S = Some m \<longrightarrow> map_of (mg_services m) client = Some sv \<longrightarrow>
        (client, bws_this sv) \<in> set (ws_issued S)) \<and>
     (\<forall>pid wid si service. cp_live (ws_client S pid) = Some (wid, si) \<longrightarrow>
        si_weave_service si = Some service \<longrightarrow> (w_client w pid wid, service) \<in> set (ws_issued S))"

lemma next_free_simps [simp]:
  "next_free (process_ran w pid r S) = next_free S"
  "next_free (take_message n S) = next_free S"
  "next_free (S\<lparr>ws_dead := dead\<rparr>) = next_free S"
  "next_free (S\<lparr>ws_generation := g\<rparr>) = next_free S"
  by (simp_all add: next_free_def split: option.split)

text \<open>A process may only use a service pointer that was handed to it.\<close>

lemma issue_inv_ran:
  assumes "issue_inv w S" and "client_step cd dict_Set (ws_client S pid) e = Inr p"
    and "\<And>wid service. e = EvServiceConnected wid service \<Longrightarrow>
      (w_client w pid wid, service) \<in> set (ws_issued S)"
  shows "issue_inv w (process_ran w pid (Inr p) S)"
proof -
  have "(w_client w pid wid, service) \<in> set (ws_issued S)"
    if "cp_live p = Some (wid, si)" "si_weave_service si = Some service" for wid si service
  proof -
    have "(\<exists>si0. cp_live (ws_client S pid) = Some (wid, si0) \<and> si_weave_service si0 = Some service) \<or>
        e = EvServiceConnected wid service"
      using client_step_grown [OF assms(2)] that by (simp add: grown_def)
    then show ?thesis using assms(1,3) by (auto simp: issue_inv_def)
  qed
  then show ?thesis using assms(1) by (simp add: issue_inv_def)
qed

lemma issue_inv_take: "issue_inv w S \<Longrightarrow> issue_inv w (take_message n S)"
  by (auto simp: issue_inv_def dest: in_take_message)

text \<open>The daemon hands out services under fresh addresses.\<close>

lemma issue_inv_hands_out:
  assumes "issue_inv w S" and "hands_out gone m es m'" and "mg_next_address m = next_free S"
    and "\<And>client sv. map_of (mg_services m) client = Some sv \<Longrightarrow> (client, bws_this sv) \<in> set (ws_issued S)"
    and "ws_manager S' = Some m'" and "ws_issued S' = ws_issued S @ handed es"
    and "ws_to_clients S' = ws_to_clients S @ sent es" and "ws_client S' = ws_client S"
  shows "issue_inv w S'"
proof -
  have fresh: "next_free S \<le> addr service" "addr service < mg_next_address m'"
    if "(client, service) \<in> set (handed es)" for client service
    using assms(2,3) that by (auto simp: hands_out_def)
  have old: "addr (snd cs) < next_free S" if "cs \<in> set (ws_issued S)" for cs
    using assms(1) that by (simp add: issue_inv_def)
  have grows: "next_free S \<le> mg_next_address m'" using assms(2,3) by (simp add: hands_out_def)
  have next': "next_free S' = mg_next_address m'" by (simp add: next_free_def assms(5))
  have "snd cs \<noteq> snd cs'" if "cs \<in> set (ws_issued S)" "cs' \<in> set (handed es)" for cs cs'
    using old [OF that(1)] fresh(1) [of "fst cs'" "snd cs'"] that(2) by auto
  then have "distinct (map snd (ws_issued S'))"
    using assms(1,2) unfolding assms(6) by (auto simp: issue_inv_def hands_out_def)
  moreover have "addr (snd cs) < next_free S'" if "cs \<in> set (ws_issued S')" for cs
    using that old [of cs] fresh(2) [of "fst cs" "snd cs"] grows unfolding assms(6) next' by auto
  moreover have "(client, bws_this sv) \<in> set (ws_issued S')"
    if "map_of (mg_services m') client = Some sv" for client sv
  proof -
    have "map_of (mg_services m) client = Some sv \<or> (client, bws_this sv) \<in> set (handed es)"
      using assms(2) that by (simp add: hands_out_def)
    then show ?thesis using assms(4) [of client sv] unfolding assms(6) by auto
  qed
  ultimately show ?thesis
    using assms(1) unfolding issue_inv_def assms(5,7,8) by (simp add: assms(6))
qed

lemma move_issue:
  fixes S :: "('dev, 'w) weave_system"
  assumes "move w S S'" and "issue_inv w S"
  shows "issue_inv w S'"
  using assms
proof (induction rule: move.induct)
  case (ran pid e p)
  then show ?case by (intro issue_inv_ran [OF ran(4) ran(3)]) auto
next
  case (delivered n pid wid p)
  have "MsgServiceConnected client service \<in> set (ws_to_clients S)"
    if "ws_to_clients S ! n = MsgServiceConnected client service" for client service
    using delivered(1) that nth_mem by metis
  then show ?case
    using delivered by (intro issue_inv_ran [of w "take_message n S", OF issue_inv_take [OF delivered(5)]])
      (auto simp: message_event_connected object_of_def issue_inv_def)
next
  case (lost n pid wid dead)
  from issue_inv_take [OF lost(5), of n] show ?case by (simp add: issue_inv_def)
next
  case (called m c cs m')
  obtain es where out: "hands_out (gone_by (handle_call c :: ('dev, unit, unit) manager_event)) m es m'" using manager_step_hands_out [OF called(3)] by blast
  then have eff: "mg_effects m' = mg_effects m @ es" by (simp add: hands_out_def)
  show ?case
    using called
    by (intro issue_inv_hands_out [OF called(4) out])
      (auto simp: next_free_def issue_inv_def daemon_ran_hands_out [OF eff])
next
  case (daemon m gone es m')
  then have eff: "mg_effects m' = mg_effects m @ es" by (simp add: hands_out_def)
  show ?case
    using daemon
    by (intro issue_inv_hands_out [OF daemon(8) daemon(2)])
      (auto simp: next_free_def issue_inv_def daemon_ran_hands_out [OF eff])
next
  case died
  then show ?case by (auto simp: issue_inv_def next_free_def daemon_died_def split: option.splits)
next
  case (answered_call m client sv sv' device)
  then show ?case by (auto simp: issue_inv_def next_free_def split: if_splits)
next
  case (dispatched m client sv c n cmd component command)
  then show ?case by (auto simp: issue_inv_def next_free_def)
next
  case (started first env options m)
  let ?m = "new_Manager options first :: 'dev Manager"
  obtain es where out: "hands_out {} ?m es m" using Manager_Start_hands_out [OF started(3)] by blast
  have fields: "mg_effects ?m = []" "mg_next_address ?m = first" "mg_services ?m = []"
    by (simp_all add: new_Manager_def)
  then have eff: "mg_effects m = [] @ es" using out by (simp add: hands_out_def)
  have inv: "issue_inv w (S\<lparr>ws_addresses := first\<rparr>)"
    using started(1,2,4) by (auto simp: issue_inv_def next_free_def)
  show ?case
  proof (rule issue_inv_hands_out [OF inv out])
    show "mg_next_address ?m = next_free (S\<lparr>ws_addresses := first\<rparr>)"
      using started(1) fields(2) by (simp add: next_free_def)
    show "(client, bws_this sv) \<in> set (ws_issued (S\<lparr>ws_addresses := first\<rparr>))"
      if "map_of (mg_services ?m) client = Some sv" for client sv
      using that by (simp add: fields(3))
  qed (simp_all add: daemon_ran_hands_out [OF eff])
qed (auto simp: issue_inv_def)

section \<open>Commands in flight\<close>

text \<open>A command was dispatched to a service that was handed to the client.\<close>

definition sent_to :: "sp \<Rightarrow> 'w \<Rightarrow> ('dev, 'w) weave_system \<Rightarrow> bool" where
  "sent_to client cmd S \<longleftrightarrow> (\<exists>this component command.
     (this, component, command, cmd) \<in> set (ws_dispatched S) \<and> (client, this) \<in> set (ws_issued S))"

lemma sent_to_mono:
  "sent_to client cmd S \<Longrightarrow> set (ws_dispatched S) \<subseteq> set (ws_dispatched S') \<Longrightarrow>
   set (ws_issued S) \<subseteq> set (ws_issued S') \<Longrightarrow> sent_to client cmd S'"
  unfolding sent_to_def by blast

definition command_inv :: "('dev, 'v, 'd) world \<Rightarrow> ('dev, 'w) weave_system \<Rightarrow> bool" where
  "command_inv w S \<longleftrightarrow>
     (\<forall>client c n cmd. MsgCommand client c n cmd \<in> set (ws_to_clients S) \<longrightarrow> sent_to client cmd S) \<and>
     (\<forall>pid cb cmd. RunCommandHandler cb cmd \<in> set (cp_effects (ws_client S pid)) \<longrightarrow>
        (\<exists>wid. sent_to (w_client w pid wid) cmd S))"

lemma command_invD:
  "command_inv w S \<Longrightarrow> MsgCommand client c n cmd \<in> set (ws_to_clients S) \<Longrightarrow> sent_to client cmd S"
  "command_inv w S \<Longrightarrow> RunCommandHandler cb cmd \<in> set (cp_effects (ws_client S pid)) \<Longrightarrow>
     \<exists>wid. sent_to (w_client w pid wid) cmd S"
  unfolding command_inv_def by blast+

lemma command_inv_mono:
  assumes "command_inv w S" and "set (ws_dispatched S) \<subseteq> set (ws_dispatched S')"
    and "set (ws_issued S) \<subseteq> set (ws_issued S')" and "ws_client S' = ws_client S"
    and "\<And>client c n cmd. MsgCommand client c n cmd \<in> set (ws_to_clients S') \<Longrightarrow>
      MsgCommand client c n cmd \<in> set (ws_to_clients S) \<or> sent_to client cmd S'"
  shows "command_inv w S'"
  unfolding command_inv_def
proof (intro conjI allI impI)
  fix client c n cmd assume "MsgCommand client c n cmd \<in> set (ws_to_clients S')"
  then have "sent_to client cmd S \<or> sent_to client cmd S'"
    using assms(5) command_invD(1) [OF assms(1)] by blast
  then show "sent_to client cmd S'" using sent_to_mono [OF _ assms(2,3)] by blast
next
  fix pid cb cmd assume "RunCommandHandler cb cmd \<in> set (cp_effects (ws_client S' pid))"
  then have "RunCommandHandler cb cmd \<in> set (cp_effects (ws_client S pid))" by (simp add: assms(4))
  then obtain wid where "sent_to (w_client w pid wid) cmd S"
    using command_invD(2) [OF assms(1)] by blast
  then show "\<exists>wid. sent_to (w_client w pid wid) cmd S'" using sent_to_mono [OF _ assms(2,3)] by blast
qed

lemma command_inv_ran:
  assumes "command_inv w S" and "client_step cd dict_Set (ws_client S pid) e = Inr p"
    and "\<And>wid c n cmd. e = EvClientCommand wid c n cmd \<Longrightarrow> sent_to (w_client w pid wid) cmd S"
  shows "command_inv w (process_ran w pid (Inr p) S)"
proof -
  obtain es where es: "cp_effects p = cp_effects (ws_client S pid) @ es" "adds_effects e es"
    using client_step_effects [OF assms(2)] by blast
  have "\<exists>wid. sent_to (w_client w pid wid) cmd S" if "RunCommandHandler cb cmd \<in> set es" for cb cmd
  proof -
    from es(2) that obtain wid c n where "e = EvClientCommand wid c n cmd"
      unfolding adds_effects_def by blast
    from assms(3) [OF this] show ?thesis by blast
  qed
  then have "\<exists>wid. sent_to (w_client w pid wid) cmd S" if "RunCommandHandler cb cmd \<in> set (cp_effects p)" for cb cmd
    using that command_invD(2) [OF assms(1), of cb cmd pid] unfolding es(1) by auto
  then show ?thesis
    using command_invD [OF assms(1)] by (simp add: command_inv_def sent_to_def)
qed

lemma command_inv_take: "command_inv w S \<Longrightarrow> command_inv w (take_message n S)"
  by (auto intro: command_inv_mono dest: in_take_message)

lemma move_command:
  fixes S :: "('dev, 'w) weave_system"
  assumes "move w S S'" and "issue_inv w S" and "command_inv w S"
  shows "command_inv w S'"
  using assms
proof (induction rule: move.induct)
  case (ran pid e p)
  then show ?case by (intro command_inv_ran [OF ran(5) ran(3)]) auto
next
  case (delivered n pid wid p)
  have "sent_to client cmd S" if "ws_to_clients S ! n = MsgCommand client c k cmd" for client c k cmd
    using command_invD(1) [OF delivered(6)] nth_mem [OF delivered(1)] that by simp
  then show ?case
    using delivered by (intro command_inv_ran [of w "take_message n S", OF command_inv_take [OF delivered(6)]])
      (auto simp: message_event_connected object_of_def sent_to_def)
next
  case (lost n pid wid dead)
  show ?case by (rule command_inv_mono [OF lost(6)]) (auto dest: in_take_message)
next
  case (called m c cs m')
  obtain es where "hands_out (gone_by (handle_call c :: ('dev, unit, unit) manager_event)) m es m'" using manager_step_hands_out [OF called(3)] by blast
  then have eff: "mg_effects m' = mg_effects m @ es" by (simp add: hands_out_def)
  show ?case by (rule command_inv_mono [OF called(5)]) (auto simp: daemon_ran_hands_out [OF eff])
next
  case (daemon m gone es m')
  then have eff: "mg_effects m' = mg_effects m @ es" by (simp add: hands_out_def)
  show ?case by (rule command_inv_mono [OF daemon(9)]) (auto simp: daemon_ran_hands_out [OF eff])
next
  case (dispatched m client sv c n cmd component command)
  then have "(client, bws_this sv) \<in> set (ws_issued S)" by (simp add: issue_inv_def)
  then show ?case by (intro command_inv_mono [OF dispatched(4)]) (auto simp: sent_to_def)
next
  case (started first env options m)
  obtain es where "hands_out {} (new_Manager options first) es m" using Manager_Start_hands_out [OF started(3)] by blast
  then have eff: "mg_effects m = [] @ es" by (simp add: hands_out_def new_Manager_def)
  show ?case by (rule command_inv_mono [OF started(5)]) (auto simp: daemon_ran_hands_out [OF eff])
qed (auto elim: command_inv_mono)

section \<open>Connection requests are conserved\<close>

definition is_call :: "sp \<Rightarrow> manager_call \<Rightarrow> bool" where
  "is_call client c \<longleftrightarrow> c = CallConnect client"

definition is_answer :: "sp \<Rightarrow> 'w client_message \<Rightarrow> bool" where
  "is_answer client msg = (case msg of MsgServiceConnected c _ \<Rightarrow> c = client | _ \<Rightarrow> False)"

definition is_callback :: "nat \<Rightarrow> 'w client_effect \<Rightarrow> bool" where
  "is_callback wid e = (case e of RunConnectionCallback i \<Rightarrow> i = wid | _ \<Rightarrow> False)"

definition callbacks_run :: "'w client_process \<Rightarrow> nat \<Rightarrow> nat" where
  "callbacks_run p wid = length (filter (is_callback wid) (cp_effects p))"

text \<open>Where the request of an instance can be: on its way, waiting, answered, or done.\<close>

definition waiting_in :: "sp \<Rightarrow> 'dev Manager option \<Rightarrow> nat" where
  "waiting_in client mo = (case mo of None \<Rightarrow> 0 | Some m \<Rightarrow> waiting client m)"

definition requests :: "('dev, 'v, 'd) world \<Rightarrow> ('dev, 'w) weave_system \<Rightarrow> nat \<Rightarrow> nat \<Rightarrow> nat" where
  "requests w S pid wid =
     length (filter (is_call (w_client w pid wid)) (ws_to_manager S)) +
     waiting_in (w_client w pid wid) (ws_manager S) +
     length (filter (is_answer (w_client w pid wid)) (ws_to_clients S)) +
     callbacks_run (ws_client S pid) wid"

definition request_inv :: "('dev, 'v, 'd) world \<Rightarrow> ('dev, 'w) weave_system \<Rightarrow> bool" where
  "request_inv w S \<longleftrightarrow> (\<forall>pid wid. requests w S pid wid \<le> connects_made (ws_client S pid) wid)"

lemma waiting_in_simps [simp]: "waiting_in c None = 0" "waiting_in c (Some m) = waiting c m"
  by (simp_all add: waiting_in_def)

lemma calls_counted:
  assumes "names_ok w"
  shows "length (filter (is_call (w_client w pid' wid)) (concat (map (calls_of w pid) es))) =
    (if pid' = pid then length (filter (is_connect wid) es) else 0)"
proof (induction es)
  case (Cons e es)
  have "length (filter (is_call (w_client w pid' wid)) (calls_of w pid e)) =
      (if pid' = pid \<and> is_connect wid e then 1 else 0)"
    using assms by (cases e) (auto simp: is_call_def is_connect_def names_ok_def)
  then show ?case using Cons by simp
qed simp

definition answers :: "sp \<Rightarrow> manager_effect list \<Rightarrow> nat" where
  "answers client es = length (filter (\<lambda>cs. fst cs = client) (handed es))"

lemma answers_sent: "length (filter (is_answer client) (sent es)) = answers client es"
proof (induction es)
  case (Cons e es)
  then show ?case by (cases e) (auto simp: is_answer_def answers_def)
qed (simp add: answers_def)

lemma answered_adds:
  assumes "mg_effects m' = mg_effects m @ es"
  shows "answered client m' = answered client m + answers client es"
proof -
  have "length (filter (\<lambda>e. case e of ClientOnServiceConnected x _ \<Rightarrow> x = client | _ \<Rightarrow> False) es) = answers client es"
  proof (induction es)
    case (Cons e es)
    then show ?case by (cases e) (auto simp: answers_def)
  qed (simp add: answers_def)
  then show ?thesis using assms by (simp add: answered_def)
qed

lemma callbacks_added:
  assumes "adds_effects e es"
  shows "length (filter (is_callback wid) es) \<le> (if \<exists>service. e = EvServiceConnected wid service then 1 else 0)"
proof (cases "RunConnectionCallback wid \<in> set es")
  case True
  then have "es = [RunConnectionCallback wid]" "\<exists>service. e = EvServiceConnected wid service"
    using assms by (auto simp: adds_effects_def)
  then show ?thesis by simp
next
  case False
  then have "filter (is_callback wid) es = []"
    by (auto simp: filter_empty_conv is_callback_def split: client_effect.split)
  then show ?thesis by simp
qed

text \<open>A handler of a process moves its requests on, or drops them.\<close>

lemma requests_ran:
  assumes "names_ok w" and "client_step cd dict_Set (ws_client S pid) e = Inr p"
  shows "requests w (process_ran w pid (Inr p) S) pid' wid + connects_made (ws_client S pid') wid \<le>
    requests w S pid' wid + connects_made (ws_client (process_ran w pid (Inr p) S) pid') wid +
    (if pid' = pid \<and> (\<exists>service. e = EvServiceConnected wid service) then 1 else 0)"
proof -
  obtain es where es: "cp_effects p = cp_effects (ws_client S pid) @ es" "adds_effects e es"
    using client_step_effects [OF assms(2)] by blast
  have queue: "ws_to_manager (process_ran w pid (Inr p) S) = ws_to_manager S @
      (if ws_manager S = None then [] else concat (map (calls_of w pid) es))"
    using es(1) by (simp add: process_ran_def)
  show ?thesis
  proof (cases "pid' = pid")
    case True
    have "connects_made p wid = connects_made (ws_client S pid) wid + length (filter (is_connect wid) es)"
      "callbacks_run p wid = callbacks_run (ws_client S pid) wid + length (filter (is_callback wid) es)"
      using es(1) by (simp_all add: connects_made_def callbacks_run_def)
    then show ?thesis
      using True callbacks_added [OF es(2), of wid] calls_counted [OF assms(1), of pid wid pid es]
      by (simp add: requests_def queue split: if_splits)
  next
    case False
    then show ?thesis
      using calls_counted [OF assms(1), of pid' wid pid es] by (simp add: requests_def queue)
  qed
qed

lemma requests_take:
  assumes "n < length (ws_to_clients S)"
  shows "requests w S pid wid = requests w (take_message n S) pid wid +
    (if is_answer (w_client w pid wid) (ws_to_clients S ! n) then 1 else 0)"
proof -
  have "filter P (ws_to_clients S) = filter P (take n (ws_to_clients S)) @
      (if P (ws_to_clients S ! n) then [ws_to_clients S ! n] else []) @ filter P (drop (Suc n) (ws_to_clients S))" for P
    by (subst id_take_nth_drop [OF assms]) simp
  then show ?thesis by (simp add: requests_def take_message_def)
qed

text \<open>So does a handler of the daemon, which keeps the ledger of the calls it received.\<close>

lemma requests_daemon:
  assumes "mg_effects m' = mg_effects m @ es" and "ws_manager S = Some m"
    and "ledger (w_client w pid wid) m' = ledger (w_client w pid wid) m + k"
  shows "requests w (daemon_ran (mg_effects m) (Inr m') S) pid wid = requests w S pid wid + k"
  using assms(2,3) answered_adds [OF assms(1), of "w_client w pid wid"]
  by (simp add: requests_def daemon_ran_hands_out [OF assms(1)] ledger_def answers_sent)

lemma ledger_called:
  assumes "daemon_ok w S" and "ws_manager S = Some m"
    and "manager_step (w_wifi w) (w_api w) (w_codec w) m
      (handle_call c :: ('dev, unit, unit) manager_event) = Inr m'"
  shows "ledger client m' = ledger client m + (if is_call client c then 1 else 0)"
proof -
  have "manager_inv (w_wifi w) m" using assms(1,2) by (simp add: daemon_ok_def)
  moreover have "connects client (handle_call c :: ('dev, unit, unit) manager_event) = is_call client c"
    by (cases c) (auto simp: connects_def is_call_def)
  ultimately show ?thesis using manager_step_keeps [OF _ assms(3), of client] by simp
qed

lemma requests_called:
  assumes "daemon_ok w S" and "ws_manager S = Some m" and "ws_to_manager S = c # cs"
    and "manager_step (w_wifi w) (w_api w) (w_codec w) m
      (handle_call c :: ('dev, unit, unit) manager_event) = Inr m'"
  shows "requests w (daemon_ran (mg_effects m) (Inr m') (S\<lparr>ws_to_manager := cs\<rparr>)) pid wid = requests w S pid wid"
proof -
  obtain es where "hands_out (gone_by (handle_call c :: ('dev, unit, unit) manager_event)) m es m'"
    using manager_step_hands_out [OF assms(4)] by blast
  then have eff: "mg_effects m' = mg_effects m @ es" by (rule hands_outD)
  have "requests w (daemon_ran (mg_effects m) (Inr m') (S\<lparr>ws_to_manager := cs\<rparr>)) pid wid =
      requests w (S\<lparr>ws_to_manager := cs\<rparr>) pid wid + (if is_call (w_client w pid wid) c then 1 else 0)"
    by (intro requests_daemon [OF eff]) (simp_all add: assms(2) ledger_called [OF assms(1,2,4)])
  also have "\<dots> = requests w S pid wid" by (simp add: requests_def assms(3))
  finally show ?thesis .
qed

lemma move_request:
  fixes S :: "('dev, 'w) weave_system"
  assumes "move w S S'" and "names_ok w" and "daemon_ok w S" and "request_inv w S"
  shows "request_inv w S'"
  using assms
proof (induction rule: move.induct)
  case (ran pid e p)
  show ?case
    unfolding request_inv_def
  proof (intro allI)
    fix pid' i
    have "requests w S pid' i \<le> connects_made (ws_client S pid') i" using ran(6) by (simp add: request_inv_def)
    moreover have "\<nexists>service. e = EvServiceConnected i service" using ran(2) by auto
    ultimately show "requests w (process_ran w pid (Inr p) S) pid' i \<le>
        connects_made (ws_client (process_ran w pid (Inr p) S) pid') i"
      using requests_ran [OF ran(4) ran(3), of pid' i] by simp
  qed
next
  case (delivered n pid wid p)
  let ?e = "message_event w (manager_of w S pid wid) wid (ws_to_clients S ! n)"
  have step: "client_step (w_codec w) (w_dict_Set w) (ws_client (take_message n S) pid) ?e = Inr p"
    using delivered(4) by simp
  show ?case
    unfolding request_inv_def
  proof (intro allI)
    fix pid' i
    have "is_answer (w_client w pid' i) (ws_to_clients S ! n)"
      if "pid' = pid" "\<exists>service. ?e = EvServiceConnected i service"
      using that delivered(2) by (auto simp: message_event_connected is_answer_def object_of_def)
    moreover have "requests w S pid' i \<le> connects_made (ws_client S pid') i"
      using delivered(7) by (simp add: request_inv_def)
    ultimately show "requests w (process_ran w pid (Inr p) (take_message n S)) pid' i \<le>
        connects_made (ws_client (process_ran w pid (Inr p) (take_message n S)) pid') i"
      using requests_ran [OF delivered(5) step, of pid' i] requests_take [OF delivered(1), of w pid' i]
      by (auto split: if_splits)
  qed
next
  case (lost n pid wid dead)
  have "requests w (take_message n S\<lparr>ws_dead := dead\<rparr>) pid i = requests w (take_message n S) pid i" for pid i
    by (simp add: requests_def)
  then show ?case
    using lost(7) requests_take [OF lost(1), of w] unfolding request_inv_def by (simp, metis le_add1 le_trans)
next
  case (called m c cs m')
  then show ?case using requests_called [OF called(5,1-3)] by (simp add: request_inv_def)
next
  case (daemon m gone es m')
  then have eff: "mg_effects m' = mg_effects m @ es" by (simp add: hands_out_def)
  have "requests w (daemon_ran (mg_effects m) (Inr m') S) pid wid = requests w S pid wid" for pid wid
    using requests_daemon [OF eff daemon(1), of w pid wid 0] daemon(5) by simp
  then show ?case using daemon(10) by (simp add: request_inv_def)
next
  case died
  have "requests w (daemon_died S) pid wid \<le> requests w S pid wid" for pid wid
    by (auto simp: requests_def daemon_died_def split: option.split)
  then show ?case using died(3) unfolding request_inv_def by (simp, meson le_trans)
next
  case (answered_call m client sv sv' device)
  then show ?case by (simp add: request_inv_def requests_def waiting_def)
next
  case (dispatched m client sv c n cmd component command)
  then show ?case by (simp add: request_inv_def requests_def is_answer_def)
next
  case (started first env options m)
  obtain es where "hands_out {} (new_Manager options first) es m" using Manager_Start_hands_out [OF started(3)] by blast
  then have eff: "mg_effects m = [] @ es" by (simp add: hands_out_def new_Manager_def)
  have "ledger c m = 0" for c using Manager_Start_keeps [OF started(3)] by blast
  then have "waiting c m = 0" "answers c es = 0" for c
    using answered_adds [of m "m\<lparr>mg_effects := []\<rparr>" es c] eff by (simp_all add: ledger_def)
  then show ?case
    using started(1,6) by (simp add: request_inv_def requests_def daemon_ran_hands_out [OF eff] answers_sent)
qed (simp_all add: request_inv_def requests_def)

section \<open>No request is forgotten\<close>

definition generation_inv :: "('dev, 'v, 'd) world \<Rightarrow> ('dev, 'w) weave_system \<Rightarrow> bool" where
  "generation_inv w S \<longleftrightarrow> (\<forall>pid wid si b. cp_live (ws_client S pid) = Some (wid, si) \<longrightarrow>
     si_manager si = Some b \<longrightarrow> (\<exists>g \<le> ws_generation S. b = w_manager w g))"

text \<open>
  An instance of a living process that talks to the daemon that is up has a request somewhere.
\<close>

definition talks :: "('dev, 'v, 'd) world \<Rightarrow> ('dev, 'w) weave_system \<Rightarrow> nat \<Rightarrow> nat \<Rightarrow> bool" where
  "talks w S pid wid \<longleftrightarrow> pid \<notin> set (ws_dead S) \<and> ws_manager S \<noteq> None \<and>
     (\<exists>si. cp_live (ws_client S pid) = Some (wid, si) \<and>
        si_manager si = Some (w_manager w (ws_generation S)))"

text \<open>Nobody talks to a daemon that has just been started.\<close>

lemma no_talks:
  assumes "generation_inv w S" and "inj (w_manager w)" and "ws_generation S' = Suc (ws_generation S)"
    and "ws_client S' = ws_client S"
  shows "\<not> talks w S' pid wid"
proof
  assume "talks w S' pid wid"
  then obtain si where "cp_live (ws_client S pid) = Some (wid, si)"
    and "si_manager si = Some (w_manager w (Suc (ws_generation S)))"
    by (auto simp: talks_def assms(3,4))
  then obtain g where "g \<le> ws_generation S" "w_manager w (Suc (ws_generation S)) = w_manager w g"
    using assms(1) unfolding generation_inv_def by blast
  then show False using assms(2) by (auto dest: injD)
qed

definition path_inv :: "('dev, 'v, 'd) world \<Rightarrow> ('dev, 'w) weave_system \<Rightarrow> bool" where
  "path_inv w S \<longleftrightarrow> (\<forall>pid wid. talks w S pid wid \<longrightarrow> 0 < requests w S pid wid)"

lemma generation_inv_ran:
  assumes "generation_inv w S" and "client_step cd dict_Set (ws_client S pid) e = Inr p"
    and "\<And>n b ok. e = EvTask n (Some b) ok \<Longrightarrow> b = w_manager w (ws_generation S)"
  shows "generation_inv w (process_ran w pid (Inr p) S)"
proof -
  have "\<exists>g \<le> ws_generation S. b = w_manager w g"
    if "cp_live p = Some (wid, si)" "si_manager si = Some b" for wid si b
  proof -
    have "(\<exists>si0. cp_live (ws_client S pid) = Some (wid, si0) \<and> si_manager si0 = Some b) \<or>
        (\<exists>n ok. e = EvTask n (Some b) ok)"
      using client_step_grown [OF assms(2)] that unfolding grown_def by blast
    then show ?thesis using assms(1,3) unfolding generation_inv_def by blast
  qed
  then show ?thesis using assms(1) by (simp add: generation_inv_def)
qed

lemma generation_inv_cong:
  "generation_inv w S \<Longrightarrow> ws_client S' = ws_client S \<Longrightarrow> ws_generation S \<le> ws_generation S' \<Longrightarrow> generation_inv w S'"
  unfolding generation_inv_def by (metis le_trans)

lemma GetService_Some: "GetService w S = Some b \<longleftrightarrow> ws_manager S \<noteq> None \<and> b = w_manager w (ws_generation S)"
  by (auto simp: GetService_def)

lemma move_generation:
  assumes "move w S S'" and "generation_inv w S"
  shows "generation_inv w S'"
  using assms
proof (induction rule: move.induct)
  case (ran pid e p)
  have "b = w_manager w (ws_generation S)" if "e = EvTask n (Some b) ok" for n b ok
    using ran(2) that GetService_Some [of w S b] by simp
  then show ?case using generation_inv_ran [OF ran(4) ran(3)] by blast
next
  case (delivered n pid wid p)
  have "generation_inv w (take_message n S)" by (rule generation_inv_cong [OF delivered(5)]) simp_all
  then show ?case
  proof (rule generation_inv_ran)
    show "client_step (w_codec w) (w_dict_Set w) (ws_client (take_message n S) pid)
        (message_event w (manager_of w S pid wid) wid (ws_to_clients S ! n)) = Inr p"
      using delivered(4) by simp
  qed (simp add: message_event_def split: client_message.splits)
qed (auto elim: generation_inv_cong)

lemma requests_ran_mono:
  assumes "client_step cd dict_Set (ws_client S pid) e = Inr p"
  shows "requests w S pid' wid \<le> requests w (process_ran w pid (Inr p) S) pid' wid"
proof -
  obtain es where es: "cp_effects p = cp_effects (ws_client S pid) @ es"
    using client_step_effects [OF assms] by blast
  have "callbacks_run (ws_client S pid) wid \<le> callbacks_run p wid"
    using es by (simp add: callbacks_run_def)
  then show ?thesis by (simp add: requests_def process_ran_def Let_def)
qed

lemma path_inv_cong:
  assumes "path_inv w S" and "\<And>pid wid. talks w S' pid wid \<Longrightarrow>
    talks w S pid wid \<and> requests w S pid wid \<le> requests w S' pid wid"
  shows "path_inv w S'"
  using assms unfolding path_inv_def by (metis order_less_le_trans)

text \<open>The request an instance has just made is in the queue.\<close>

lemma requests_ran_connected:
  assumes "ws_manager S \<noteq> None" and "cp_effects p = cp_effects (ws_client S pid) @ es"
    and "ManagerConnect b wid \<in> set es"
  shows "0 < requests w (process_ran w pid (Inr p) S) pid wid"
proof -
  have "CallConnect (w_client w pid wid) \<in> set (concat (map (calls_of w pid) es))"
    using assms(3) by (auto intro!: bexI [of _ "ManagerConnect b wid"])
  then have "filter (is_call (w_client w pid wid)) (concat (map (calls_of w pid) es)) \<noteq> []"
    by (auto simp: filter_empty_conv is_call_def simp del: set_concat)
  then show ?thesis using assms(1,2) by (auto simp: requests_def process_ran_def)
qed

lemma talks_ran:
  assumes "client_step cd dict_Set (ws_client S pid) e = Inr p"
    and "talks w (process_ran w pid (Inr p) S) pid' wid"
  shows "talks w S pid' wid \<or>
    pid' = pid \<and> (\<exists>n b ok es. e = EvTask n (Some b) ok \<and> cp_effects p = cp_effects (ws_client S pid) @ es \<and>
      ManagerConnect b wid \<in> set es)"
proof (cases "pid' = pid")
  case True
  then obtain si where live: "cp_live p = Some (wid, si)"
    and b: "si_manager si = Some (w_manager w (ws_generation S))"
    using assms(2) by (auto simp: talks_def)
  consider si0 where "cp_live (ws_client S pid) = Some (wid, si0)"
      "si_manager si0 = Some (w_manager w (ws_generation S))"
    | n ok where "e = EvTask n (Some (w_manager w (ws_generation S))) ok"
      "cp_effects p = cp_effects (ws_client S pid) @
        [ManagerConnect (w_manager w (ws_generation S)) wid, ManagerRegisterListener (w_manager w (ws_generation S)) wid]"
    using client_step_grown [OF assms(1)] live b unfolding grown_def by blast
  then show ?thesis
  proof cases
    case 1
    then have "talks w S pid' wid" using True assms(2) by (simp add: talks_def)
    then show ?thesis ..
  next
    case 2
    then show ?thesis using True by simp
  qed
next
  case False
  then show ?thesis using assms(2) by (simp add: talks_def)
qed

lemma move_path:
  fixes S :: "('dev, 'w) weave_system"
  assumes "move w S S'" and "names_ok w" and "daemon_ok w S" and "processes_ok S"
    and "generation_inv w S" and "path_inv w S"
  shows "path_inv w S'"
  using assms
proof (induction rule: move.induct)
  case (killed pid)
  show ?case by (rule path_inv_cong [OF killed(5)]) (simp add: talks_def requests_def)
next
  case (ran pid e p)
  show ?case
    unfolding path_inv_def
  proof (intro allI impI)
    fix pid' wid assume talks: "talks w (process_ran w pid (Inr p) S) pid' wid"
    from talks_ran [OF ran(3) talks] show "0 < requests w (process_ran w pid (Inr p) S) pid' wid"
    proof (elim disjE conjE exE)
      assume "talks w S pid' wid"
      then have "0 < requests w S pid' wid" using ran(8) by (simp add: path_inv_def)
      then show ?thesis using requests_ran_mono [OF ran(3), of w pid' wid] by simp
    next
      fix n b ok es
      assume new: "pid' = pid" "cp_effects p = cp_effects (ws_client S pid) @ es" "ManagerConnect b wid \<in> set es"
      have "ws_manager S \<noteq> None" using talks by (simp add: talks_def)
      then show ?thesis using requests_ran_connected new by blast
    qed
  qed
next
  case (delivered n pid wid p)
  let ?e = "message_event w (manager_of w S pid wid) wid (ws_to_clients S ! n)" and ?T = "take_message n S"
  have step: "client_step (w_codec w) (w_dict_Set w) (ws_client ?T pid) ?e = Inr p" using delivered(4) by simp
  have no_task: "?e \<noteq> EvTask k b ok" for k b ok by (simp add: message_event_def split: client_message.split)
  show ?case
    unfolding path_inv_def
  proof (intro allI impI)
    fix pid' i assume "talks w (process_ran w pid (Inr p) ?T) pid' i"
    then have "talks w ?T pid' i" using talks_ran [OF step] no_task by blast
    then have talks: "talks w S pid' i" by (simp add: talks_def)
    then have pos: "0 < requests w S pid' i" using delivered(9) by (simp add: path_inv_def)
    show "0 < requests w (process_ran w pid (Inr p) ?T) pid' i"
    proof (cases "is_answer (w_client w pid' i) (ws_to_clients S ! n)")
      case True
      then obtain service where msg: "ws_to_clients S ! n = MsgServiceConnected (w_client w pid' i) service"
        by (auto simp: is_answer_def split: client_message.splits)
      then have "w_client w pid' i = w_client w pid wid" using delivered(2) by (simp add: object_of_def)
      then have same: "pid' = pid" "i = wid" using delivered(5) by (simp_all add: names_ok_def)
      obtain si where si: "cp_live (ws_client S pid) = Some (wid, si)" "si_manager si \<noteq> None"
        using talks same by (auto simp: talks_def)
      have "link_inv (ws_client S pid)" using delivered(7) by (simp add: processes_ok_def)
      then have "wid \<in> set (cp_weave_clients (ws_client S pid))" using si by (auto simp: link_inv_def)
      then have "RunConnectionCallback wid \<in> set (cp_effects p)"
        using step msg si(1)
        by (auto simp: message_event_def WeaveClient_onServiceConnected_def ServiceImpl_OnServiceConnected_def lock_def)
      then have "filter (is_callback wid) (cp_effects p) \<noteq> []"
        by (auto simp: filter_empty_conv is_callback_def intro!: bexI [of _ "RunConnectionCallback wid"])
      then show ?thesis using same by (simp add: requests_def callbacks_run_def)
    next
      case False
      then show ?thesis
        using pos requests_take [OF delivered(1), of w pid' i] requests_ran_mono [OF step, of w pid' i] by simp
    qed
  qed
next
  case (lost n pid wid dead)
  show ?case
  proof (rule path_inv_cong [OF lost(9)])
    fix pid' i assume talks: "talks w (take_message n S\<lparr>ws_dead := dead\<rparr>) pid' i"
    then have "pid' \<noteq> pid" "talks w S pid' i" using lost(3,4) by (auto simp: talks_def)
    moreover have "\<not> is_answer (w_client w pid' i) (ws_to_clients S ! n)" if "pid' \<noteq> pid"
      using lost(2,5) that by (auto simp: is_answer_def object_of_def names_ok_def split: client_message.splits)
    moreover have "requests w (take_message n S\<lparr>ws_dead := dead\<rparr>) pid' i = requests w (take_message n S) pid' i"
      by (simp add: requests_def)
    ultimately show "talks w S pid' i \<and>
        requests w S pid' i \<le> requests w (take_message n S\<lparr>ws_dead := dead\<rparr>) pid' i"
      using requests_take [OF lost(1), of w pid' i] by simp
  qed
next
  case (called m c cs m')
  show ?case
    by (rule path_inv_cong [OF called(8)])
      (use called(1) requests_called [OF called(5,1-3)] in \<open>simp add: talks_def\<close>)
next
  case (daemon m gone es m')
  then have eff: "mg_effects m' = mg_effects m @ es" by (simp add: hands_out_def)
  have "requests w (daemon_ran (mg_effects m) (Inr m') S) pid wid = requests w S pid wid" for pid wid
    using requests_daemon [OF eff daemon(1), of w pid wid 0] daemon(5) by simp
  then show ?case using daemon(1) by (intro path_inv_cong [OF daemon(12)]) (simp add: talks_def)
next
  case died
  show ?case by (simp add: path_inv_def talks_def)
next
  case (answered_call m client sv sv' device)
  show ?case
    by (rule path_inv_cong [OF answered_call(10)]) (simp add: talks_def requests_def waiting_def answered_call(1))
next
  case (dispatched m client sv c n cmd component command)
  show ?case
    by (rule path_inv_cong [OF dispatched(7)]) (simp add: talks_def requests_def)
next
  case (started first env options m)
  let ?S = "daemon_ran [] (Inr m) (S\<lparr>ws_generation := Suc (ws_generation S)\<rparr>)"
  have "\<not> talks w ?S pid wid" for pid wid
    using started(4) by (intro no_talks [OF started(7)]) (simp_all add: names_ok_def)
  then show ?case by (simp add: path_inv_def)
next
  case not_started
  then show ?case by (simp add: path_inv_def talks_def)
qed

end
