(* ===== verification/System_Services.thy ===== *)
theory System_Services
  imports System_Conservation
begin

text \<open>
  The services of the whole system: an instance is handed at most one, and a living instance's
  service is in the table of the daemon it talks to.
\<close>

section \<open>At most one service per instance\<close>

definition handouts :: "('dev, 'v, 'd) world \<Rightarrow> ('dev, 'w) weave_system \<Rightarrow> nat \<Rightarrow> nat \<Rightarrow> nat" where
  "handouts w S pid wid =
     length (filter (is_call (w_client w pid wid)) (ws_to_manager S)) +
     waiting_in (w_client w pid wid) (ws_manager S) +
     length (filter (\<lambda>cs. fst cs = w_client w pid wid) (ws_issued S))"

definition handout_inv :: "('dev, 'v, 'd) world \<Rightarrow> ('dev, 'w) weave_system \<Rightarrow> bool" where
  "handout_inv w S \<longleftrightarrow> (\<forall>pid wid. handouts w S pid wid \<le> connects_made (ws_client S pid) wid)"

lemma handouts_ran:
  assumes "names_ok w" and "client_step cd dict_Set (ws_client S pid) e = Inr p"
  shows "handouts w (process_ran w pid (Inr p) S) pid' wid + connects_made (ws_client S pid') wid \<le>
    handouts w S pid' wid + connects_made (ws_client (process_ran w pid (Inr p) S) pid') wid"
proof -
  obtain es where es: "cp_effects p = cp_effects (ws_client S pid) @ es"
    using client_step_effects [OF assms(2)] by blast
  have queue: "ws_to_manager (process_ran w pid (Inr p) S) = ws_to_manager S @
      (if ws_manager S = None then [] else concat (map (calls_of w pid) es))"
    using es by (simp add: process_ran_def)
  show ?thesis
    using calls_counted [OF assms(1), of pid' wid pid es] es
    by (cases "pid' = pid") (simp_all add: handouts_def queue connects_made_def)
qed

lemma handouts_daemon:
  assumes "mg_effects m' = mg_effects m @ es" and "ws_manager S = Some m"
    and "ledger (w_client w pid wid) m' = ledger (w_client w pid wid) m + k"
  shows "handouts w (daemon_ran (mg_effects m) (Inr m') S) pid wid = handouts w S pid wid + k"
  using assms(2,3) answered_adds [OF assms(1), of "w_client w pid wid"]
  by (simp add: handouts_def daemon_ran_hands_out [OF assms(1)] ledger_def answers_def)

lemma handouts_called:
  assumes "daemon_ok w S" and "ws_manager S = Some m" and "ws_to_manager S = c # cs"
    and "manager_step (w_wifi w) (w_api w) (w_codec w) m
      (handle_call c :: ('dev, unit, unit) manager_event) = Inr m'"
  shows "handouts w (daemon_ran (mg_effects m) (Inr m') (S\<lparr>ws_to_manager := cs\<rparr>)) pid wid = handouts w S pid wid"
proof -
  obtain es where "hands_out (gone_by (handle_call c :: ('dev, unit, unit) manager_event)) m es m'"
    using manager_step_hands_out [OF assms(4)] by blast
  then have es: "mg_effects m' = mg_effects m @ es" by (rule hands_outD)
  have "handouts w (daemon_ran (mg_effects m) (Inr m') (S\<lparr>ws_to_manager := cs\<rparr>)) pid wid =
      handouts w (S\<lparr>ws_to_manager := cs\<rparr>) pid wid + (if is_call (w_client w pid wid) c then 1 else 0)"
    by (intro handouts_daemon [OF es]) (simp_all add: assms(2) ledger_called [OF assms(1,2,4)])
  also have "\<dots> = handouts w S pid wid" by (simp add: handouts_def assms(3))
  finally show ?thesis .
qed

lemma move_handout:
  fixes S :: "('dev, 'w) weave_system"
  assumes "move w S S'" and "names_ok w" and "daemon_ok w S" and "handout_inv w S"
  shows "handout_inv w S'"
  using assms
proof (induction rule: move.induct)
  case (ran pid e p)
  show ?case
    unfolding handout_inv_def
  proof (intro allI)
    fix pid' i
    show "handouts w (process_ran w pid (Inr p) S) pid' i \<le>
        connects_made (ws_client (process_ran w pid (Inr p) S) pid') i"
      using handouts_ran [OF ran(4) ran(3), of pid' i] ran(6) unfolding handout_inv_def
      by (metis add_le_cancel_right add_le_mono le_trans order_refl add.commute)
  qed
next
  case (delivered n pid wid p)
  have step: "client_step (w_codec w) (w_dict_Set w) (ws_client (take_message n S) pid)
      (message_event w (manager_of w S pid wid) wid (ws_to_clients S ! n)) = Inr p"
    using delivered(4) by simp
  show ?case
    unfolding handout_inv_def
  proof (intro allI)
    fix pid' i
    have "handouts w (take_message n S) pid' i = handouts w S pid' i" by (simp add: handouts_def)
    moreover have "handouts w S pid' i \<le> connects_made (ws_client S pid') i"
      using delivered(7) by (simp add: handout_inv_def)
    ultimately show "handouts w (process_ran w pid (Inr p) (take_message n S)) pid' i \<le>
        connects_made (ws_client (process_ran w pid (Inr p) (take_message n S)) pid') i"
      using handouts_ran [OF delivered(5) step, of pid' i] by simp
  qed
next
  case (called m c cs m')
  then show ?case using handouts_called [OF called(5,1-3)] by (simp add: handout_inv_def)
next
  case (daemon m gone es m')
  have "handouts w (daemon_ran (mg_effects m) (Inr m') S) pid wid = handouts w S pid wid" for pid wid
    using handouts_daemon [OF hands_outD(1) [OF daemon(2)] daemon(1), of w pid wid 0] daemon(5) by simp
  then show ?case using daemon(10) by (simp add: handout_inv_def)
next
  case died
  have "handouts w (daemon_died S) pid wid \<le> handouts w S pid wid" for pid wid
    by (auto simp: handouts_def daemon_died_def split: option.split)
  then show ?case using died(3) unfolding handout_inv_def by (simp, meson le_trans)
next
  case (answered_call m client sv sv' device)
  then show ?case by (simp add: handout_inv_def handouts_def waiting_def)
next
  case (started first env options m)
  obtain es where "hands_out {} (new_Manager options first) es m" using Manager_Start_hands_out [OF started(3)] by blast
  then have eff: "mg_effects m = [] @ es" by (simp add: hands_out_def new_Manager_def)
  have "ledger c m = 0" for c using Manager_Start_keeps [OF started(3)] by blast
  then have "waiting c m = 0" "answers c es = 0" for c
    using answered_adds [of m "m\<lparr>mg_effects := []\<rparr>" es c] eff by (simp_all add: ledger_def)
  then show ?case
    using started(1,6) by (simp add: handout_inv_def handouts_def daemon_ran_hands_out [OF eff] answers_def)
qed (simp_all add: handout_inv_def handouts_def)

lemma connects_once:
  assumes "processes_ok S"
  shows "connects_made (ws_client S pid) wid \<le> 1"
proof -
  let ?p = "ws_client S pid"
  have "retries ?p wid + connects_made ?p wid \<le> (if wid < cp_made ?p then 1 else 0)"
    using assms by (simp add: processes_ok_def retry_inv_def)
  then show ?thesis by (simp split: if_splits)
qed

lemma issued_once:
  assumes "handout_inv w S" and "processes_ok S"
  shows "length (filter (\<lambda>cs. fst cs = w_client w pid wid) (ws_issued S)) \<le> 1"
proof -
  have "handouts w S pid wid \<le> 1"
    using assms(1) connects_once [OF assms(2), of pid wid] unfolding handout_inv_def by (meson le_trans)
  then show ?thesis by (simp add: handouts_def)
qed

section \<open>The daemon has the services of the living\<close>

text \<open>
  A service that was handed to an instance of a living process by the daemon that is up is in the
  daemon's table; an instance that talks to this daemon has no service of an earlier one.
\<close>

definition served :: "('dev, 'v, 'd) world \<Rightarrow> ('dev, 'w) weave_system \<Rightarrow> nat \<Rightarrow> nat \<Rightarrow> sp \<Rightarrow> bool" where
  "served w S pid wid service \<longleftrightarrow> (\<exists>m sv. ws_manager S = Some m \<and>
     map_of (mg_services m) (w_client w pid wid) = Some sv \<and> bws_this sv = service)"

definition served_inv :: "('dev, 'v, 'd) world \<Rightarrow> ('dev, 'w) weave_system \<Rightarrow> bool" where
  "served_inv w S \<longleftrightarrow> ws_addresses S \<le> next_free S \<and>
     (\<forall>pid wid service. (w_client w pid wid, service) \<in> set (ws_issued S) \<longrightarrow>
        (talks w S pid wid \<longrightarrow> ws_addresses S \<le> addr service) \<and>
        (ws_manager S \<noteq> None \<longrightarrow> pid \<notin> set (ws_dead S) \<longrightarrow> ws_addresses S \<le> addr service \<longrightarrow>
           served w S pid wid service))"

lemma served_invD:
  assumes "served_inv w S" and "(w_client w pid wid, service) \<in> set (ws_issued S)"
  shows "talks w S pid wid \<Longrightarrow> ws_addresses S \<le> addr service"
    and "ws_manager S \<noteq> None \<Longrightarrow> pid \<notin> set (ws_dead S) \<Longrightarrow> ws_addresses S \<le> addr service \<Longrightarrow>
      served w S pid wid service"
  using assms unfolding served_inv_def by blast+

lemma served_inv_cong:
  assumes "served_inv w S" and "ws_addresses S' = ws_addresses S" and "next_free S' = next_free S"
    and "ws_issued S' = ws_issued S" and "ws_manager S' = ws_manager S"
    and "set (ws_dead S) \<subseteq> set (ws_dead S')"
    and "\<And>pid wid service. talks w S' pid wid \<Longrightarrow> (w_client w pid wid, service) \<in> set (ws_issued S) \<Longrightarrow>
      talks w S pid wid"
  shows "served_inv w S'"
  using assms(1,7) assms(6) unfolding served_inv_def assms(2-5) served_def by blast

text \<open>The entry a hand-out makes is the one of the service handed out.\<close>

lemma hands_out_serves:
  assumes "hands_out gone m es m'" and "client \<notin> gone"
    and "(client, service) \<in> set (issued @ handed es)"
    and "length (filter (\<lambda>cs. fst cs = client) (issued @ handed es)) \<le> 1"
    and "(client, service) \<in> set issued \<Longrightarrow>
      \<exists>sv. map_of (mg_services m) client = Some sv \<and> bws_this sv = service"
    and "\<And>sv. map_of (mg_services m) client = Some sv \<Longrightarrow> (client, bws_this sv) \<in> set issued"
  shows "\<exists>sv. map_of (mg_services m') client = Some sv \<and> bws_this sv = service"
proof (cases "(client, service) \<in> set issued")
  case True
  then show ?thesis using assms(5) hands_outD(6) [OF assms(1,2)] by blast
next
  case False
  then have new: "(client, service) \<in> set (filter (\<lambda>cs. fst cs = client) (handed es))" using assms(3) by auto
  then obtain k where k: "length (filter (\<lambda>cs. fst cs = client) (handed es)) = Suc k"
    by (metis length_pos_if_in_set gr0_implies_Suc)
  then have "length (filter (\<lambda>cs. fst cs = client) issued) = 0" "k = 0" using assms(4) by auto
  then have none: "filter (\<lambda>cs. fst cs = client) issued = []"
    and one: "length (filter (\<lambda>cs. fst cs = client) (handed es)) = 1"
    using k by simp_all
  have "filter (\<lambda>cs. fst cs = client) (handed es) = [(client, service)]"
    using one new by (auto simp: length_Suc_conv simp del: set_filter)
  moreover have "map_of (mg_services m) client = None"
  proof (rule ccontr)
    assume "map_of (mg_services m) client \<noteq> None"
    then obtain sv where "map_of (mg_services m) client = Some sv" by blast
    from assms(6) [OF this] none show False by (auto simp: filter_empty_conv)
  qed
  ultimately show ?thesis using hands_outD(7) [OF assms(1,2)] by blast
qed

text \<open>An instance that has just connected was never handed a service.\<close>

lemma connecting_unserved:
  assumes "processes_ok (process_ran w pid (Inr p) S)" and "handout_inv w S"
    and "cp_effects p = cp_effects (ws_client S pid) @ es" and "ManagerConnect b wid \<in> set es"
  shows "(w_client w pid wid, service) \<notin> set (ws_issued S)"
proof -
  have "ManagerConnect b wid \<in> set (filter (is_connect wid) es)"
    using assms(4) by (simp add: is_connect_def)
  then have "0 < length (filter (is_connect wid) es)" by (rule length_pos_if_in_set)
  moreover have "connects_made p wid = connects_made (ws_client S pid) wid + length (filter (is_connect wid) es)"
    by (simp add: connects_made_def assms(3))
  moreover have "connects_made p wid \<le> 1" using connects_once [OF assms(1), of pid wid] by simp
  moreover have "handouts w S pid wid \<le> connects_made (ws_client S pid) wid"
    using assms(2) by (simp add: handout_inv_def)
  ultimately have "handouts w S pid wid = 0" by linarith
  then have "filter (\<lambda>cs. fst cs = w_client w pid wid) (ws_issued S) = []" by (simp add: handouts_def)
  then show ?thesis by (auto simp: filter_empty_conv)
qed

text \<open>A handler of the daemon, or its start, keeps the table right.\<close>

lemma served_inv_hands_out:
  assumes "names_ok w" and "hands_out gone m es m'" and "gone \<subseteq> dead_clients w S'"
    and "processes_ok S'" and "handout_inv w S'"
    and "ws_manager S' = Some m'" and "ws_issued S' = issued @ handed es"
    and "ws_addresses S' \<le> mg_next_address m"
    and "\<And>pid wid service. (w_client w pid wid, service) \<in> set issued \<Longrightarrow> talks w S' pid wid \<Longrightarrow>
      ws_addresses S' \<le> addr service"
    and "\<And>pid wid service. (w_client w pid wid, service) \<in> set issued \<Longrightarrow> pid \<notin> set (ws_dead S') \<Longrightarrow>
      ws_addresses S' \<le> addr service \<Longrightarrow>
      \<exists>sv. map_of (mg_services m) (w_client w pid wid) = Some sv \<and> bws_this sv = service"
    and "\<And>client sv. map_of (mg_services m) client = Some sv \<Longrightarrow> (client, bws_this sv) \<in> set issued"
  shows "served_inv w S'"
  unfolding served_inv_def
proof (intro conjI allI impI)
  show "ws_addresses S' \<le> next_free S'"
    using assms(8) hands_outD(2) [OF assms(2)] by (simp add: next_free_def assms(6))
next
  fix pid wid service
  assume "(w_client w pid wid, service) \<in> set (ws_issued S')" and "talks w S' pid wid"
  then show "ws_addresses S' \<le> addr service"
    using assms(8,9) hands_outD(4) [OF assms(2), of "w_client w pid wid" service] unfolding assms(7)
    by (auto intro: le_trans)
next
  fix pid wid service
  assume issued: "(w_client w pid wid, service) \<in> set (ws_issued S')" and alive: "pid \<notin> set (ws_dead S')"
    and new: "ws_addresses S' \<le> addr service"
  have "w_client w pid wid \<notin> gone"
  proof
    assume "w_client w pid wid \<in> gone"
    then obtain pid' wid' where "pid' \<in> set (ws_dead S')" "w_client w pid wid = w_client w pid' wid'"
      using assms(3) by (auto simp: dead_clients_def)
    then show False using assms(1) alive by (auto simp: names_ok_def)
  qed
  moreover have "length (filter (\<lambda>cs. fst cs = w_client w pid wid) (issued @ handed es)) \<le> 1"
    using issued_once [OF assms(5,4), of pid wid] by (simp only: assms(7))
  ultimately have "\<exists>sv. map_of (mg_services m') (w_client w pid wid) = Some sv \<and> bws_this sv = service"
    using issued [unfolded assms(7)] assms(10) [OF _ alive new] assms(11)
    by (intro hands_out_serves [OF assms(2)]) blast+
  then show "served w S' pid wid service" by (simp add: served_def assms(6))
qed

lemma move_served:
  fixes S :: "('dev, 'w) weave_system"
  assumes "move w S S'" and "names_ok w" and "issue_inv w S" and "generation_inv w S"
    and "handout_inv w S" and "processes_ok S'" and "handout_inv w S'" and "served_inv w S"
  shows "served_inv w S'"
  using assms
proof (induction rule: move.induct)
  case (killed pid)
  show ?case by (rule served_inv_cong [OF killed(7)]) (auto simp: talks_def)
next
  case (ran pid e p)
  show ?case
  proof (rule served_inv_cong [OF ran(10)])
    fix pid' wid service
    assume talks: "talks w (process_ran w pid (Inr p) S) pid' wid"
      and issued: "(w_client w pid' wid, service) \<in> set (ws_issued S)"
    from talks_ran [OF ran(3) talks] show "talks w S pid' wid"
      using connecting_unserved [OF ran(8,7)] issued by blast
  qed simp_all
next
  case (delivered n pid wid p)
  have no_task: "message_event w (manager_of w S pid wid) wid (ws_to_clients S ! n) \<noteq> EvTask k b ok" for k b ok
    by (simp add: message_event_def split: client_message.split)
  have step: "client_step (w_codec w) (w_dict_Set w) (ws_client (take_message n S) pid)
      (message_event w (manager_of w S pid wid) wid (ws_to_clients S ! n)) = Inr p"
    using delivered(4) by simp
  show ?case
  proof (rule served_inv_cong [OF delivered(11)])
    fix pid' i
    assume "talks w (process_ran w pid (Inr p) (take_message n S)) pid' i"
    then have "talks w (take_message n S) pid' i" using talks_ran [OF step] no_task by blast
    then show "talks w S pid' i" by (simp add: talks_def)
  qed simp_all
next
  case (lost n pid wid dead)
  show ?case by (rule served_inv_cong [OF lost(11)]) (use lost(4) in \<open>auto simp: talks_def\<close>)
next
  case (called m c cs m')
  let ?S = "daemon_ran (mg_effects m) (Inr m') (S\<lparr>ws_to_manager := cs\<rparr>)"
  have none: "gone_by (handle_call c :: ('dev, unit, unit) manager_event) = {}"
    by (cases c) (simp_all add: gone_by_def)
  obtain es where out: "hands_out {} m es m'" using manager_step_hands_out [OF called(3)] none by auto
  have S': "ws_issued ?S = ws_issued S @ handed es"
    by (simp add: daemon_ran_hands_out(2) [OF hands_outD(1) [OF out]])
  have addresses: "ws_addresses ?S = ws_addresses S" by (simp add: daemon_ran_def Let_def)
  have talks: "talks w ?S pid wid \<Longrightarrow> talks w S pid wid" for pid wid
    using called(1) by (simp add: talks_def)
  show ?case
  proof (rule served_inv_hands_out [OF called(4) out _ called(8,9) _ S'], unfold addresses)
    show "ws_addresses S \<le> mg_next_address m"
      using called(1,10) by (simp add: served_inv_def next_free_def)
    fix pid wid service assume issued: "(w_client w pid wid, service) \<in> set (ws_issued S)"
    show "ws_addresses S \<le> addr service" if "talks w ?S pid wid"
      using served_invD(1) [OF called(10) issued talks [OF that]] .
    show "\<exists>sv. map_of (mg_services m) (w_client w pid wid) = Some sv \<and> bws_this sv = service"
      if "pid \<notin> set (ws_dead ?S)" "ws_addresses S \<le> addr service"
      using served_invD(2) [OF called(10) issued] that called(1) by (simp add: served_def)
  next
    fix client sv assume "map_of (mg_services m) client = Some sv"
    then show "(client, bws_this sv) \<in> set (ws_issued S)" using called(1,5) by (simp add: issue_inv_def)
  qed simp_all
next
  case (daemon m gone es m')
  let ?S = "daemon_ran (mg_effects m) (Inr m') S"
  have S': "ws_issued ?S = ws_issued S @ handed es"
    by (simp add: daemon_ran_hands_out(2) [OF hands_outD(1) [OF daemon(2)]])
  have addresses: "ws_addresses ?S = ws_addresses S" by (simp add: daemon_ran_def Let_def)
  have talks: "talks w ?S pid wid \<Longrightarrow> talks w S pid wid" for pid wid
    using daemon(1) by (simp add: talks_def)
  show ?case
  proof (rule served_inv_hands_out [OF daemon(8,2) _ daemon(12,13) _ S'], unfold addresses)
    show "gone \<subseteq> dead_clients w ?S" using daemon(3) by (simp add: dead_clients_def)
    show "ws_addresses S \<le> mg_next_address m"
      using daemon(1,14) by (simp add: served_inv_def next_free_def)
    fix pid wid service assume issued: "(w_client w pid wid, service) \<in> set (ws_issued S)"
    show "ws_addresses S \<le> addr service" if "talks w ?S pid wid"
      using served_invD(1) [OF daemon(14) issued talks [OF that]] .
    show "\<exists>sv. map_of (mg_services m) (w_client w pid wid) = Some sv \<and> bws_this sv = service"
      if "pid \<notin> set (ws_dead ?S)" "ws_addresses S \<le> addr service"
      using served_invD(2) [OF daemon(14) issued] that daemon(1) by (simp add: served_def)
  next
    fix client sv assume "map_of (mg_services m) client = Some sv"
    then show "(client, bws_this sv) \<in> set (ws_issued S)" using daemon(1,9) by (simp add: issue_inv_def)
  qed simp_all
next
  case died
  then show ?case by (simp add: served_inv_def talks_def next_free_def)
next
  case (answered_call m client sv sv' device)
  let ?S = "S\<lparr>ws_manager := Some (m\<lparr>mg_device := Some device, mg_services := smap_put client sv' (mg_services m)\<rparr>)\<rparr>"
  have "served w ?S pid wid service" if "served w S pid wid service" for pid wid service
    using that answered_call(1-3) by (auto simp: served_def)
  moreover have "talks w ?S pid wid \<Longrightarrow> talks w S pid wid" for pid wid
    using answered_call(1) by (simp add: talks_def)
  moreover have "next_free ?S = next_free S" using answered_call(1) by (simp add: next_free_def)
  ultimately show ?case using answered_call(1,12) by (simp add: served_inv_def)
next
  case (dispatched m client sv c n cmd component command)
  show ?case by (rule served_inv_cong [OF dispatched(9)]) (auto simp: talks_def next_free_def split: option.split)
next
  case (started first env options m)
  let ?T = "S\<lparr>ws_generation := Suc (ws_generation S)\<rparr>" and ?m = "new_Manager options first :: 'dev Manager"
  let ?S = "daemon_ran [] (Inr m) ?T"
  obtain es where out: "hands_out {} ?m es m" using Manager_Start_hands_out [OF started(3)] by blast
  have eff: "mg_effects m = [] @ es" using hands_outD(1) [OF out] by (simp add: new_Manager_def)
  have S': "ws_issued ?S = ws_issued S @ handed es" by (simp add: daemon_ran_hands_out(2) [OF eff])
  have addresses: "ws_addresses ?S = ws_addresses S" by (simp add: daemon_ran_def Let_def)
  have old: "addr service < ws_addresses S" if "(client, service) \<in> set (ws_issued S)" for client service
    using started(1,5) that by (auto simp: issue_inv_def next_free_def)
  show ?case
  proof (rule served_inv_hands_out [OF started(4) out _ started(8,9) _ S'], unfold addresses)
    show "ws_addresses S \<le> mg_next_address ?m" using started(2) by (simp add: new_Manager_def)
    fix pid wid service assume "(w_client w pid wid, service) \<in> set (ws_issued S)"
    from old [OF this]
    show "\<exists>sv. map_of (mg_services ?m) (w_client w pid wid) = Some sv \<and> bws_this sv = service"
      if "ws_addresses S \<le> addr service" using that by simp
    assume "talks w ?S pid wid"
    then show "ws_addresses S \<le> addr service"
      using no_talks [OF started(6), of ?S pid wid] started(4) by (simp add: names_ok_def)
  next
    fix client sv assume "map_of (mg_services ?m) client = Some sv"
    then show "(client, bws_this sv) \<in> set (ws_issued S)" by (simp add: new_Manager_def)
  qed simp_all
next
  case not_started
  then show ?case by (simp add: served_inv_def talks_def next_free_def)
qed

end
