(* ===== verification/System_Properties.thy ===== *)
theory System_Properties
  imports System_Services "HOL-Library.Countable"
begin

text \<open>
  The properties of the whole system, over any interleaving of its processes, daemon restarts and
  killed applications: no two instances share a service, connection callbacks run at most once per
  instance, a quiet system is a connected one, commands stay with the application they were
  dispatched to, and an application dies only where it adds a handler without a daemon.
\<close>

section \<open>The invariant of the system\<close>

definition sys_inv :: "('dev, 'v, 'd) world \<Rightarrow> ('dev, 'w) weave_system \<Rightarrow> bool" where
  "sys_inv w S \<longleftrightarrow> processes_ok S \<and> daemon_ok w S \<and> issue_inv w S \<and> command_inv w S \<and>
     request_inv w S \<and> generation_inv w S \<and> path_inv w S \<and> handout_inv w S \<and> served_inv w S"

lemma sys_invD:
  assumes "sys_inv w S"
  shows "processes_ok S" "daemon_ok w S" "issue_inv w S" "command_inv w S" "request_inv w S"
    "generation_inv w S" "path_inv w S" "handout_inv w S" "served_inv w S"
  using assms unfolding sys_inv_def by blast+

lemma sys_inv_move:
  assumes "names_ok w" and "sys_inv w S" and "move w S S'"
  shows "sys_inv w S'"
proof -
  note inv = sys_invD [OF assms(2)]
  have "processes_ok S'" using move_processes [OF assms(3) inv(1)] .
  moreover have "handout_inv w S'" using move_handout [OF assms(3,1) inv(2,8)] .
  ultimately show ?thesis
    unfolding sys_inv_def
    using move_daemon [OF assms(3) inv(2)] move_issue [OF assms(3) inv(3)]
      move_command [OF assms(3) inv(3,4)] move_request [OF assms(3,1) inv(2,5)]
      move_generation [OF assms(3) inv(6)] move_path [OF assms(3,1) inv(2,1,6,7)]
      move_served [OF assms(3,1) inv(3,6,8) _ _ inv(9)]
    by blast
qed

lemma sys_inv_moves:
  assumes "(move w)\<^sup>*\<^sup>* S S'" and "names_ok w" and "sys_inv w S"
  shows "sys_inv w S'"
  using assms(1) by (induction rule: rtranclp_induct) (auto intro: assms(3) sys_inv_move [OF assms(2)])

lemma fresh_process: "cp_effects Service_Connect = []" "cp_live Service_Connect = Some (0, new_ServiceImpl)"
  by (simp_all add: Service_Connect_def start_instance_def BeginConnect_def Let_def)

lemma sys_inv_start: "sys_inv w new_system"
proof -
  have "processes_ok new_system"
    using Service_Connect_inv retry_inv_start link_inv_start by (auto simp: processes_ok_def new_system_def)
  moreover have "daemon_ok w new_system" by (simp add: daemon_ok_def new_system_def)
  moreover have "issue_inv w new_system" by (simp add: issue_inv_def new_system_def fresh_process)
  moreover have "command_inv w new_system" by (simp add: command_inv_def new_system_def fresh_process)
  moreover have "request_inv w new_system"
    by (simp add: request_inv_def requests_def callbacks_run_def new_system_def fresh_process)
  moreover have "generation_inv w new_system" by (simp add: generation_inv_def new_system_def fresh_process)
  moreover have "path_inv w new_system" by (simp add: path_inv_def talks_def new_system_def)
  moreover have "handout_inv w new_system" by (simp add: handout_inv_def handouts_def new_system_def)
  moreover have "served_inv w new_system" by (simp add: served_inv_def next_free_def new_system_def)
  ultimately show ?thesis unfolding sys_inv_def by blast
qed

text \<open>The system as a component whose steps never fail: faults end processes, not the system.\<close>

interpretation whole: safe_component
    "\<lambda>S. S = new_system" "\<lambda>S e. Inr (sys_step w e S)" "\<lambda>S. names_ok w \<longrightarrow> sys_inv w S"
  for w :: "('dev, 'v, 'd) world"
  by unfold_locales (auto simp: sys_inv_start intro: sys_inv_moves [OF sys_step_moves] dest: sys_invD)

lemma sys_run_is_run: "run (\<lambda>S e. Inr (sys_step w e S)) S es = Inr (sys_run w es S)"
  by (induction es arbitrary: S) (simp_all add: sys_run_def)

lemma sys_run_inv: "names_ok w \<Longrightarrow> sys_inv w (sys_run w es new_system)"
  using whole.inv_run [OF refl sys_run_is_run] by blast

section \<open>A sample system\<close>

definition sample_world :: "(string, string, string) world" where
  "sample_world = \<lparr>w_codec = sample_codec, w_dict_Set = (\<lambda>_ v _. v), w_codes = sample_codes,
     w_api = sample_manager_api, w_dead_object = dead_daemon, w_wifi = True, w_manager = Sp,
     w_client = (\<lambda>pid wid. Sp (prod_encode (pid, wid))),
     w_listener = (\<lambda>pid wid. Sp (prod_encode (pid, wid)))\<rparr>"

lemma sample_names: "names_ok sample_world"
  by (auto simp: names_ok_def sample_world_def inj_def)

type_synonym sample_event = "(string, unit, unit, nat, string, string) system_event"

text \<open>Two applications connect to a daemon that gets its device in between.\<close>

definition two_apps :: "sample_event list" where
  "two_apps = [SysDaemonStart sample_env sample_manager_options 100, SysTask 0 0 True, SysTask 1 0 True,
     SysReceive, SysReceive, SysManager (MeWebServerReady sample_env), SysReceive, SysReceive,
     SysDeliver 1 1 0, SysDeliver 0 0 0]"

abbreviation "sample_run es \<equiv> sys_run sample_world es (new_system :: (string, nat) weave_system)"

lemma two_apps_end:
  "let S = sample_run two_apps; m = the (ws_manager S) in
     map_option mg_device (ws_manager S) = Some (Some ''{}{}base.reboot'') \<and>
     ws_to_manager S = [] \<and> ws_to_clients S = [] \<and> ws_dead S = []"
  by (unfold Let_def two_apps_def) code_simp

lemma two_apps_connect:
  "map_option (\<lambda>(wid, si). (wid, si_manager si, si_weave_service si)) (cp_live (ws_client (sample_run two_apps) 0)) =
     Some (0, Some (Sp 1), Some (Sp 100)) \<and>
   map_option (\<lambda>(wid, si). (wid, si_manager si, si_weave_service si)) (cp_live (ws_client (sample_run two_apps) 1)) =
     Some (0, Some (Sp 1), Some (Sp 101))"
  by (unfold two_apps_def) code_simp

section \<open>Services\<close>

lemma issued_to_one:
  assumes "issue_inv w S" and "(client, service) \<in> set (ws_issued S)" and "(client', service) \<in> set (ws_issued S)"
  shows "client = client'"
proof -
  have "distinct (map snd (ws_issued S))" using assms(1) by (simp add: issue_inv_def)
  then have "inj_on snd (set (ws_issued S))" by (simp add: distinct_map)
  from inj_onD [OF this _ assms(2,3)] show ?thesis by simp
qed

text \<open>
  Property C4.  No service is ever shared: whatever the processes do, however often the daemon and
  the applications die, two live instances never hold the same service, and the daemon's entry
  behind an instance's service is bound to that instance's client.
\<close>

theorem services_are_never_shared:
  fixes es :: "('dev, 'pt, 'role, 'w, 'v, 'd) system_event list"
  assumes "names_ok w" and "S = sys_run w es new_system"
    and "lock (ws_client S pid) wid = Some si" and "si_weave_service si = Some service"
  shows "(\<forall>pid' wid' si'. lock (ws_client S pid') wid' = Some si' \<longrightarrow> si_weave_service si' = Some service \<longrightarrow>
      pid' = pid \<and> wid' = wid) \<and>
    (\<forall>m client sv. ws_manager S = Some m \<longrightarrow> find_service service m = Some (client, sv) \<longrightarrow>
      client = w_client w pid wid \<and> bws_client sv = client)"
proof -
  have inv: "sys_inv w S" using sys_run_inv [OF assms(1)] by (simp add: assms(2))
  note issue = sys_invD(3) [OF inv]
  have issued: "(w_client w pid wid, service) \<in> set (ws_issued S)"
    if "lock (ws_client S pid) wid = Some si" "si_weave_service si = Some service" for pid wid si
    using issue that by (auto simp: issue_inv_def)
  have "pid' = pid \<and> wid' = wid"
    if "lock (ws_client S pid') wid' = Some si'" "si_weave_service si' = Some service" for pid' wid' si'
  proof -
    have "w_client w pid' wid' = w_client w pid wid"
      using issued_to_one [OF issue issued issued] assms(3,4) that by blast
    then show ?thesis using assms(1) by (simp add: names_ok_def)
  qed
  moreover have "client = w_client w pid wid \<and> bws_client sv = client"
    if m: "ws_manager S = Some m" and found: "find_service service m = Some (client, sv)" for m client sv
  proof -
    have "manager_inv (w_wifi w) m" using sys_invD(2) [OF inv] m by (simp add: daemon_ok_def)
    from find_service_map_of [OF this found]
    have sv: "map_of (mg_services m) client = Some sv" "bws_this sv = service" "bws_client sv = client" by simp_all
    then have "(client, service) \<in> set (ws_issued S)" using issue m by (auto simp: issue_inv_def)
    then show ?thesis using issued_to_one [OF issue _ issued] assms(3,4) sv(3) by blast
  qed
  ultimately show ?thesis by blast
qed

theorem services_are_never_shared_witness:
  "\<exists>si. lock (ws_client (sample_run two_apps) 0) 0 = Some si \<and> si_weave_service si \<noteq> Some (Sp 101)"
proof -
  obtain si where "lock (ws_client (sample_run two_apps) 1) 0 = Some si" "si_weave_service si = Some (Sp 101)"
    using two_apps_connect by auto
  note unshared = services_are_never_shared [OF sample_names refl this]
  obtain si' where si': "lock (ws_client (sample_run two_apps) 0) 0 = Some si'" using two_apps_connect by auto
  have "si_weave_service si' \<noteq> Some (Sp 101)"
  proof
    assume "si_weave_service si' = Some (Sp 101)"
    with unshared si' have "(0 :: nat) = 1" by blast
    then show False by simp
  qed
  with si' show ?thesis by blast
qed

text \<open>
  Property C6.  An instance is connected at most once: over any run the daemon hands it at most one
  service and its connection callback runs at most once, through daemon restarts and with every
  request that is still on its way counted.
\<close>

theorem instances_are_connected_once:
  fixes es :: "('dev, 'pt, 'role, 'w, 'v, 'd) system_event list"
  assumes "names_ok w" and "S = sys_run w es new_system"
  shows "callbacks_run (ws_client S pid) wid \<le> requests w S pid wid \<and> requests w S pid wid \<le> 1 \<and>
    length (filter (\<lambda>cs. fst cs = w_client w pid wid) (ws_issued S)) \<le> 1"
proof (intro conjI)
  have inv: "sys_inv w S" using sys_run_inv [OF assms(1)] by (simp add: assms(2))
  show "callbacks_run (ws_client S pid) wid \<le> requests w S pid wid" by (simp add: requests_def)
  have "requests w S pid wid \<le> connects_made (ws_client S pid) wid"
    using sys_invD(5) [OF inv] by (simp add: request_inv_def)
  then show "requests w S pid wid \<le> 1"
    using connects_once [OF sys_invD(1) [OF inv], of pid wid] by linarith
  show "length (filter (\<lambda>cs. fst cs = w_client w pid wid) (ws_issued S)) \<le> 1"
    using issued_once [OF sys_invD(8) [OF inv] sys_invD(1) [OF inv], of pid wid] .
qed

theorem instances_are_connected_once_witness:
  "callbacks_run (ws_client (sample_run two_apps) 0) 0 = 1 \<and> requests sample_world (sample_run two_apps) 0 0 \<le> 1"
proof -
  have "callbacks_run (ws_client (sample_run two_apps) 0) 0 = 1" by (unfold two_apps_def) code_simp
  then show ?thesis using instances_are_connected_once [OF sample_names refl, of two_apps] by blast
qed

lemma callback_ran: "callbacks_run p wid = 1 \<Longrightarrow> RunConnectionCallback wid \<in> set (cp_effects p)"
proof -
  assume "callbacks_run p wid = 1"
  then obtain e where "e \<in> set (cp_effects p)" "is_callback wid e"
    unfolding callbacks_run_def by (metis One_nat_def length_0_conv list.set_intros(1) filter_empty_conv zero_neq_one)
  then show ?thesis by (auto simp: is_callback_def split: client_effect.splits)
qed

text \<open>The service of an instance that was called back and talks to the daemon.\<close>

lemma connected_service:
  assumes "names_ok w" and "sys_inv w S" and "talks w S pid wid" and "ws_manager S = Some m"
    and "lock (ws_client S pid) wid = Some si" and "RunConnectionCallback wid \<in> set (cp_effects (ws_client S pid))"
  obtains sv where "si_weave_service si = Some (bws_this sv)"
    and "find_service (bws_this sv) m = Some (w_client w pid wid, sv)"
    and "map_of (mg_services m) (w_client w pid wid) = Some sv"
    and "bws_client sv = w_client w pid wid"
proof -
  note inv = sys_invD [OF assms(2)]
  have live: "cp_live (ws_client S pid) = Some (wid, si)" using assms(5) by simp
  have manager: "manager_inv (w_wifi w) m" using inv(2) assms(4) by (simp add: daemon_ok_def)
  have "client_inv (ws_client S pid)" using inv(1) by (simp add: processes_ok_def)
  then obtain service where service: "si_weave_service si = Some service"
    using assms(6) live by (auto simp: client_inv_def instance_ok_def)
  then have issued: "(w_client w pid wid, service) \<in> set (ws_issued S)"
    using inv(3) live by (simp add: issue_inv_def)
  have "pid \<notin> set (ws_dead S)" using assms(3) by (simp add: talks_def)
  then have "served w S pid wid service"
    using served_invD(2) [OF inv(9) issued] served_invD(1) [OF inv(9) issued assms(3)] assms(4) by simp
  then obtain sv where sv: "map_of (mg_services m) (w_client w pid wid) = Some sv" "bws_this sv = service"
    using assms(4) by (auto simp: served_def)
  then have "(w_client w pid wid, sv) \<in> set (mg_services m)" by (simp add: map_of_SomeD)
  then have "find_service service m \<noteq> None" using sv(2) by (auto simp: find_service_def find_None_iff)
  then obtain client sv' where found: "find_service service m = Some (client, sv')" by auto
  from find_service_map_of [OF manager found]
  have sv': "map_of (mg_services m) client = Some sv'" "bws_this sv' = service" "bws_client sv' = client" by simp_all
  then have "(client, service) \<in> set (ws_issued S)" using inv(3) assms(4) by (auto simp: issue_inv_def)
  then have "client = w_client w pid wid" using issued_to_one [OF inv(3) _ issued] by blast
  then show thesis using that [of sv'] sv' sv(1) found service by simp
qed

text \<open>
  Property C3.  A quiet system is a connected one: when the daemon is up with its device and
  nothing is in flight, a living application whose message loop is idle and that has no death notice
  to come has the current manager, was called back exactly once, and its service is the one the
  daemon keeps for it.
\<close>

theorem quiet_system_is_connected:
  fixes es :: "('dev, 'pt, 'role, 'w, 'v, 'd) system_event list"
  assumes "names_ok w" and "S = sys_run w es new_system"
    and "ws_manager S = Some m" and "mg_device m \<noteq> None"
    and "ws_to_manager S = []" and "ws_to_clients S = []"
    and "pid \<notin> set (ws_dead S)" and "cp_tasks (ws_client S pid) = []"
    and "lock (ws_client S pid) wid = Some si" and "\<not> death_due w S pid wid"
  shows "si_manager si = Some (w_manager w (ws_generation S)) \<and> callbacks_run (ws_client S pid) wid = 1 \<and>
    (\<exists>sv. map_of (mg_services m) (w_client w pid wid) = Some sv \<and> si_weave_service si = Some (bws_this sv))"
proof -
  have inv: "sys_inv w S" using sys_run_inv [OF assms(1)] by (simp add: assms(2))
  let ?p = "ws_client S pid"
  have live: "cp_live ?p = Some (wid, si)" using assms(9) by simp
  have process: "client_inv ?p" "link_inv ?p" using sys_invD(1) [OF inv] by (simp_all add: processes_ok_def)
  then have ok: "instance_ok ?p wid si" using live by (simp add: client_inv_def)
  then obtain b where b: "si_manager si = Some b" using assms(8) by (auto simp: instance_ok_def will_connect_def)
  then have "(b, wid) \<in> set (cp_deaths ?p)" using process(2) live by (simp add: link_inv_def)
  then have current: "b = w_manager w (ws_generation S)" using assms(10) by (auto simp: death_due_def)
  have talks: "talks w S pid wid" using assms(3,7) live b current by (simp add: talks_def)
  have "0 < requests w S pid wid" using sys_invD(7) [OF inv] talks by (simp add: path_inv_def)
  moreover have "requests w S pid wid \<le> 1"
    using sys_invD(5) [OF inv] connects_once [OF sys_invD(1) [OF inv], of pid wid]
    unfolding request_inv_def by (meson le_trans)
  moreover have "mg_pending_clients m = []"
    using sys_invD(2) [OF inv] assms(3,4) by (simp add: daemon_ok_def manager_inv_def)
  ultimately have once: "callbacks_run ?p wid = 1"
    using assms(3,5,6) by (simp add: requests_def waiting_def)
  then have "RunConnectionCallback wid \<in> set (cp_effects ?p)" by (rule callback_ran)
  from connected_service [OF assms(1) inv talks assms(3,9) this] obtain sv where
    "map_of (mg_services m) (w_client w pid wid) = Some sv" "si_weave_service si = Some (bws_this sv)" .
  then show ?thesis using b current once by blast
qed

theorem quiet_system_is_connected_witness:
  "\<exists>m sv. ws_manager (sample_run two_apps) = Some m \<and> map_of (mg_services m) (Sp (prod_encode (1, 0))) = Some sv \<and>
     bws_this sv = Sp 101"
proof -
  let ?S = "sample_run two_apps"
  obtain m where m: "ws_manager ?S = Some m" "mg_device m \<noteq> None"
    and quiet: "ws_to_manager ?S = []" "ws_to_clients ?S = []" "1 \<notin> set (ws_dead ?S)"
    using two_apps_end by (auto simp: Let_def)
  have idle: "cp_tasks (ws_client ?S 1) = []" "cp_deaths (ws_client ?S 1) = [(Sp 1, 0)]" "ws_generation ?S = 1"
    by (unfold two_apps_def, code_simp+)
  then have alive: "\<not> death_due sample_world ?S 1 0" using m by (simp add: death_due_def sample_world_def)
  obtain si where si: "lock (ws_client ?S 1) 0 = Some si" "si_weave_service si = Some (Sp 101)"
    using two_apps_connect by auto
  from quiet_system_is_connected [OF sample_names refl m quiet idle(1) si(1) alive] m si(2)
  show ?thesis by (auto simp: sample_world_def)
qed

section \<open>Commands\<close>

text \<open>
  Property C8.  Commands stay with the application they are for: every run of a command handler in
  a process is of a command that libweave had dispatched to a service handed to an instance of that
  process, and to no other.
\<close>

theorem commands_stay_with_their_application:
  fixes es :: "('dev, 'pt, 'role, 'w, 'v, 'd) system_event list"
  assumes "names_ok w" and "S = sys_run w es new_system"
    and "RunCommandHandler callback cmd \<in> set (cp_effects (ws_client S pid))"
  shows "\<exists>wid service component command.
    (service, component, command, cmd) \<in> set (ws_dispatched S) \<and>
    (w_client w pid wid, service) \<in> set (ws_issued S) \<and>
    (\<forall>pid' wid'. (w_client w pid' wid', service) \<in> set (ws_issued S) \<longrightarrow> pid' = pid \<and> wid' = wid)"
proof -
  have inv: "sys_inv w S" using sys_run_inv [OF assms(1)] by (simp add: assms(2))
  from command_invD(2) [OF sys_invD(4) [OF inv] assms(3)] obtain wid service component command where
    sent: "(service, component, command, cmd) \<in> set (ws_dispatched S)"
    and issued: "(w_client w pid wid, service) \<in> set (ws_issued S)"
    unfolding sent_to_def by blast
  have "pid' = pid \<and> wid' = wid" if "(w_client w pid' wid', service) \<in> set (ws_issued S)" for pid' wid'
    using issued_to_one [OF sys_invD(3) [OF inv] that issued] assms(1) by (simp add: names_ok_def)
  with sent issued show ?thesis by blast
qed

text \<open>The second application adds a handler and gets a command.\<close>

definition command_run :: "sample_event list" where
  "command_run = two_apps @ [SysApp 1 0 (AppAddCommandHandler ''lamp'' ''onOff'' ''setConfig'' 7),
     SysDispatch (Sp 101) ''lamp'' ''onOff.setConfig'' 4, SysDeliver 0 1 0]"

theorem commands_stay_with_their_application_witness:
  "\<exists>wid service component command.
     (service, component, command, 4) \<in> set (ws_dispatched (sample_run command_run)) \<and>
     (Sp (prod_encode (1, wid)), service) \<in> set (ws_issued (sample_run command_run))"
proof -
  have "RunCommandHandler 7 4 \<in> set (cp_effects (ws_client (sample_run command_run) 1))"
    by (unfold command_run_def two_apps_def) code_simp
  from commands_stay_with_their_application [OF sample_names refl this] show ?thesis
    by (auto simp: sample_world_def)
qed

section \<open>What kills an application\<close>

text \<open>Calls whose names the library accepts, and calls the daemon can answer.\<close>

fun named :: "('v, 'd) app_request \<Rightarrow> bool" where
  "named (AppAddCommandHandler component trait_name command_name callback) =
     (component \<noteq> '''' \<and> command_name \<noteq> '''')"
| "named (AppSetStateProperties component dict) = (component \<noteq> '''')"
| "named (AppSetStateProperty component trait_name name v) = (component \<noteq> '''')"
| "named _ = True"

definition answered_by :: "('dev, 'w) weave_system \<Rightarrow> ServiceImpl \<Rightarrow> bool" where
  "answered_by S si \<longleftrightarrow> (\<exists>m service. ws_manager S = Some m \<and> si_weave_service si = Some service \<and>
     find_service service m \<noteq> None \<and> mg_device m \<noteq> None)"

lemma process_step_dead:
  assumes "processes_ok S" and "polite e"
  shows "ws_dead (process_step w pid e S) = ws_dead S"
proof -
  have "client_inv (ws_client S pid)" using assms(1) by (simp add: processes_ok_def)
  from client_step_returns [OF this assms(2), of "w_codec w" "w_dict_Set w"] show ?thesis
    by (auto simp: process_step_def)
qed

lemma daemon_step_dead [simp]: "ws_dead (daemon_step w e S) = ws_dead S"
  by (auto simp: daemon_step_def daemon_ran_def Let_def split: option.split sum.split)

lemma deliver_message_dead:
  assumes "processes_ok S"
  shows "ws_dead (deliver_message w n pid wid S) = ws_dead S"
proof -
  let ?T = "S\<lparr>ws_to_clients := take n (ws_to_clients S) @ drop (Suc n) (ws_to_clients S)\<rparr>"
  have "processes_ok ?T" using assms by (simp add: processes_ok_def)
  moreover have "polite (message_event w mo wid msg)" for mo msg
    by (simp add: message_event_def split: client_message.split)
  ultimately have "ws_dead (process_step w pid (message_event w mo wid msg) ?T) = ws_dead ?T" for mo msg
    by (intro process_step_dead)
  then show ?thesis by (simp add: deliver_message_def)
qed

lemma dispatch_command_dead [simp]: "ws_dead (dispatch_command w this c n cmd S) = ws_dead S"
  by (auto simp: dispatch_command_def BinderWeaveService_OnCommand_def split: option.split)

text \<open>A well-named call through a connected instance fails only if a handler is added and refused.\<close>

lemma app_call_returns:
  assumes "si_weave_service si \<noteq> None" and "named req"
  shows "(\<exists>r. app_call w remote req si s = Inr r) \<longleftrightarrow>
    (\<forall>c t n cb. req = AppAddCommandHandler c t n cb \<longrightarrow>
       isOk (snd (registerCommandHandler remote (ToString16 (w_codec w) c)
         (ToString16 (w_codec w) (full_name t n)) s)))"
  using assms
  by (cases req)
    (auto simp: ServiceImpl_AddComponent_def ServiceImpl_AddCommandHandler_def ServiceImpl_SetStateProperties_def
      ServiceImpl_SetStateProperty_def Let_def check_def split: prod.splits)

lemma registration_answers [simp]:
  "\<not> isOk (snd (registerCommandHandler (gone_service tf) a b s))"
  "isOk (snd (registerCommandHandler (daemon_service bc api cd tf) a b st))"
  by (simp_all add: gone_service_def daemon_service_def BinderWeaveService_registerCommandHandler_def
      Let_def split: prod.split)

lemma app_step_dead:
  fixes S :: "('dev, 'w) weave_system"
  assumes "si_weave_service si \<noteq> None" and "named req" and "pid \<notin> set (ws_dead S)"
  shows "pid \<in> set (ws_dead (app_step w pid wid req si S)) \<longleftrightarrow>
    (\<exists>c t n cb. req = AppAddCommandHandler c t n cb) \<and> \<not> answered_by S si"
proof -
  let ?dead = "\<exists>c t n cb. req = AppAddCommandHandler c t n cb"
  let ?call = "app_call w (gone_service (w_dead_object w)) req si () ::
      (ServiceImpl \<times> 'w client_effect list \<times> unit) result"
  have unanswered: "(\<exists>f. ?call = Inl f) \<longleftrightarrow> ?dead"
  proof -
    have "(\<exists>r. ?call = Inr r) \<longleftrightarrow> \<not> ?dead"
      unfolding app_call_returns [OF assms(1,2)] by auto
    then show ?thesis by (cases ?call) auto
  qed
  show ?thesis
  proof (cases "answered_by S si")
    case True
    then obtain m service client sv device where daemon: "ws_manager S = Some m" "si_weave_service si = Some service"
      "find_service service m = Some (client, sv)" "mg_device m = Some device"
      by (auto simp: answered_by_def)
    have "\<exists>r :: ServiceImpl \<times> 'w client_effect list \<times> 'dev service_state.
        app_call w (daemon_service (w_codes w) (weave_device_api.truncate (w_api w)) (w_codec w)
          (w_dead_object w)) req si (device, sv) = Inr r"
      unfolding app_call_returns [OF assms(1,2)] by simp
    then obtain r :: "ServiceImpl \<times> 'w client_effect list \<times> 'dev service_state" where
      "app_call w (daemon_service (w_codes w) (weave_device_api.truncate (w_api w)) (w_codec w)
          (w_dead_object w)) req si (device, sv) = Inr r" by blast
    then show ?thesis using daemon assms(3) True by (cases r) (auto simp: app_step_def Let_def)
  next
    case False
    then have "app_step w pid wid req si S = process_ran w pid (bind_result ?call
        (\<lambda>(si, es, _). Inr (cp_emit es (ws_client S pid\<lparr>cp_live := Some (wid, si)\<rparr>)))) S"
      by (auto simp: app_step_def answered_by_def Let_def split: option.split)
    then show ?thesis
      using unanswered False assms(3) by (cases ?call) (auto simp: process_ran_def)
  qed
qed

lemma app_step_other: "pid' \<noteq> pid \<Longrightarrow> pid' \<in> set (ws_dead (app_step w pid wid req si S)) \<longleftrightarrow> pid' \<in> set (ws_dead S)"
  by (auto simp: app_step_def process_ran_def Let_def split: option.split sum.split prod.split)

lemma sys_step_app:
  "lock (ws_client S pid) wid = Some si \<Longrightarrow> pid \<notin> set (ws_dead S) \<Longrightarrow>
   RunConnectionCallback wid \<in> set (cp_effects (ws_client S pid)) \<Longrightarrow>
   sys_step w (SysApp pid wid req) S = app_step w pid wid req si S"
  by (simp add: lock_def)

text \<open>
  Property C7.  A well-behaved application (no empty names) is killed by nothing the others do: a
  step ends its process, other than killing it outright, only if the application adds a command
  handler through a connected instance while the daemon cannot answer, and then always; while the
  instance talks to a daemon that has its device the daemon can.
\<close>

theorem application_dies_only_adding_a_handler:
  fixes es :: "('dev, 'pt, 'role, 'w, 'v, 'd) system_event list"
    and e :: "('dev, 'pt, 'role, 'w, 'v, 'd) system_event"
  assumes "names_ok w" and "S = sys_run w es new_system" and "pid \<notin> set (ws_dead S)"
    and "e \<noteq> SysKill pid" and "\<And>wid req. e = SysApp pid wid req \<Longrightarrow> named req"
  shows "(pid \<in> set (ws_dead (sys_step w e S)) \<longleftrightarrow>
      (\<exists>wid si c t n cb. e = SysApp pid wid (AppAddCommandHandler c t n cb) \<and>
         lock (ws_client S pid) wid = Some si \<and>
         RunConnectionCallback wid \<in> set (cp_effects (ws_client S pid)) \<and> \<not> answered_by S si)) \<and>
    (\<forall>wid si m. talks w S pid wid \<longrightarrow> lock (ws_client S pid) wid = Some si \<longrightarrow>
      RunConnectionCallback wid \<in> set (cp_effects (ws_client S pid)) \<longrightarrow>
      ws_manager S = Some m \<longrightarrow> mg_device m \<noteq> None \<longrightarrow> answered_by S si)"
proof -
  have inv: "sys_inv w S" using sys_run_inv [OF assms(1)] by (simp add: assms(2))
  note processes = sys_invD(1) [OF inv]
  have "pid \<in> set (ws_dead (sys_step w e S)) \<longleftrightarrow>
    (\<exists>wid si c t n cb. e = SysApp pid wid (AppAddCommandHandler c t n cb) \<and>
       lock (ws_client S pid) wid = Some si \<and>
       RunConnectionCallback wid \<in> set (cp_effects (ws_client S pid)) \<and> \<not> answered_by S si)"
  proof (cases e)
    case (SysApp pid' wid req)
    show ?thesis
    proof (cases "pid' = pid \<and> (\<exists>si. lock (ws_client S pid) wid = Some si) \<and>
        RunConnectionCallback wid \<in> set (cp_effects (ws_client S pid))")
      case True
      then obtain si where si: "lock (ws_client S pid) wid = Some si" by blast
      have "client_inv (ws_client S pid)" using processes by (simp add: processes_ok_def)
      then have "si_weave_service si \<noteq> None"
        using True si by (auto simp: client_inv_def instance_ok_def)
      moreover have "named req" using assms(5) SysApp True by simp
      ultimately have "pid \<in> set (ws_dead (app_step w pid wid req si S)) \<longleftrightarrow>
          (\<exists>c t n cb. req = AppAddCommandHandler c t n cb) \<and> \<not> answered_by S si"
        using app_step_dead assms(3) by blast
      moreover have "sys_step w e S = app_step w pid wid req si S"
        unfolding SysApp using sys_step_app [OF si assms(3)] True by blast
      ultimately show ?thesis using True si SysApp by auto
    next
      case False
      have "pid \<notin> set (ws_dead (sys_step w e S))"
      proof (cases "pid' = pid")
        case True
        then have "sys_step w e S = S" using False SysApp by (auto simp: lock_def split: option.split)
        then show ?thesis using assms(3) by simp
      next
        case False
        then show ?thesis
          using SysApp assms(3) app_step_other [of pid pid' w wid req _ S] by (auto split: option.split)
      qed
      then show ?thesis using False SysApp by auto
    qed
  next
    case (SysDaemonStart env options first)
    then show ?thesis
      using assms(3) by (auto simp: daemon_ran_def Let_def split: sum.split)
  qed (use assms(3,4) in \<open>auto simp: process_step_dead [OF processes] deliver_message_dead [OF processes]
      split: option.split list.split\<close>)
  moreover have "answered_by S si"
    if talks: "talks w S pid wid" and si: "lock (ws_client S pid) wid = Some si"
      and called: "RunConnectionCallback wid \<in> set (cp_effects (ws_client S pid))"
      and m: "ws_manager S = Some m" and device: "mg_device m \<noteq> None" for wid si m
  proof -
    from connected_service [OF assms(1) inv talks m si called] obtain sv where
      "si_weave_service si = Some (bws_this sv)" "find_service (bws_this sv) m = Some (w_client w pid wid, sv)" .
    then show ?thesis using m device by (simp add: answered_by_def)
  qed
  ultimately show ?thesis by blast
qed

text \<open>The daemon dies; before its death notice arrives the first application adds a handler.\<close>

definition orphaned_run :: "sample_event list" where
  "orphaned_run = two_apps @ [SysDaemonDied]"

theorem application_dies_only_adding_a_handler_witness:
  "0 \<in> set (ws_dead (sys_step sample_world
       (SysApp 0 0 (AppAddCommandHandler ''lamp'' ''onOff'' ''setConfig'' 7) :: sample_event)
       (sample_run orphaned_run))) \<and>
   0 \<notin> set (ws_dead (sys_step sample_world
       (SysApp 0 0 (AppSetStateProperties ''lamp'' ''on'') :: sample_event) (sample_run orphaned_run)))"
proof -
  let ?S = "sample_run orphaned_run"
  let ?add = "SysApp 0 0 (AppAddCommandHandler ''lamp'' ''onOff'' ''setConfig'' 7) :: sample_event"
  let ?update = "SysApp 0 0 (AppSetStateProperties ''lamp'' ''on'') :: sample_event"
  have S: "0 \<notin> set (ws_dead ?S)" "ws_manager ?S = None"
    "RunConnectionCallback 0 \<in> set (cp_effects (ws_client ?S 0))" "cp_live (ws_client ?S 0) \<noteq> None"
    "map_option fst (cp_live (ws_client ?S 0)) = Some 0"
    by (unfold orphaned_run_def two_apps_def, code_simp+)
  then obtain si where si: "lock (ws_client ?S 0) 0 = Some si" by auto
  have gone: "\<not> answered_by ?S si" using S(2) by (simp add: answered_by_def)
  have "0 \<in> set (ws_dead (sys_step sample_world ?add ?S))"
    using application_dies_only_adding_a_handler [OF sample_names refl S(1), of ?add] S(3) si gone by auto
  moreover have "0 \<notin> set (ws_dead (sys_step sample_world ?update ?S))"
    using application_dies_only_adding_a_handler [OF sample_names refl S(1), of ?update] by auto
  ultimately show ?thesis by blast
qed

section \<open>From the application to the device and back\<close>

text \<open>A dispatch through a connected service, and the delivery of its message.\<close>

lemma dispatch_arrives:
  assumes "ws_manager S = Some m" and "find_service service m = Some (client, sv)"
    and "bws_client sv = w_client w pid wid" and "ws_to_clients S = []"
    and "pid \<notin> set (ws_dead S)" and "lock (ws_client S pid) wid = Some si"
    and "wid \<in> set (cp_weave_clients (ws_client S pid))"
    and "text_ok (w_codec w) component" and "text_ok (w_codec w) command"
  shows "cp_effects (ws_client (sys_run w
      [SysDispatch service component command cmd, SysDeliver 0 pid wid] S) pid) =
    cp_effects (ws_client S pid) @ ServiceImpl_OnCommand component command cmd si"
proof -
  let ?T = "dispatch_command w service component command cmd S"
  have sent: "?T = S\<lparr>ws_to_clients := [MsgCommand (w_client w pid wid) (ToString16 (w_codec w) component)
        (ToString16 (w_codec w) command) cmd],
      ws_dispatched := ws_dispatched S @ [(service, component, command, cmd)]\<rparr>"
    using assms(1-4) by (simp add: dispatch_command_def BinderWeaveService_OnCommand_def)
  show ?thesis
    using assms(5-7)
    by (simp add: sys_run_def sent deliver_message_def object_of_def message_event_def process_step_def
        process_ran_def WeaveClient_onCommand_def lock_def ToString_ToString16 [OF assms(8)]
        ToString_ToString16 [OF assms(9)])
qed

lemma find_service_put:
  assumes "manager_inv wifi m" and "find_service service m = Some (client, sv)"
  shows "find_service service (m\<lparr>mg_device := d, mg_services := smap_put client sv (mg_services m)\<rparr>) = Some (client, sv)"
proof -
  have "map_of (mg_services m) client = Some sv" "smap_wf (mg_services m)"
    using find_service_map_of [OF assms] assms(1) by (simp_all add: manager_inv_def)
  then have "smap_put client sv (mg_services m) = mg_services m" by (rule smap_put_same)
  then show ?thesis using assms(2) by (simp add: find_service_def)
qed

text \<open>
  Property C5.  A command handler works end to end: a connected application that adds a handler
  for a command it has none for survives, libweave's device gets exactly the handler of this
  application's service for the full command name, and a command the device runs it with ends in
  exactly the application's callback, with this command.
\<close>

theorem handlers_work_end_to_end:
  fixes es :: "('dev, 'pt, 'role, 'w, 'v, 'd) system_event list"
  assumes "names_ok w" and "S = sys_run w es new_system" and "talks w S pid wid"
    and "lock (ws_client S pid) wid = Some si"
    and "RunConnectionCallback wid \<in> set (cp_effects (ws_client S pid))"
    and "ws_manager S = Some m" and "mg_device m = Some device" and "ws_to_clients S = []"
    and "component \<noteq> ''''" and "command_name \<noteq> ''''" and "command = full_name trait_name command_name"
    and "text_ok (w_codec w) component" and "text_ok (w_codec w) command"
    and "\<forall>entry \<in> set (si_command_handlers si). \<not> (che_component entry = component \<and> che_command_name entry = command)"
    and "S1 = sys_step w (SysApp pid wid (AppAddCommandHandler component trait_name command_name callback) ::
      ('dev, 'pt, 'role, 'w, 'v, 'd) system_event) S"
  shows "\<exists>service m1. si_weave_service si = Some service \<and> ws_manager S1 = Some m1 \<and>
    pid \<notin> set (ws_dead S1) \<and>
    mg_device m1 = Some (dev_AddCommandHandler (w_api w) component command
      (ServiceOnCommand service component command) device) \<and>
    (\<forall>cmd. cp_effects (ws_client (sys_run w ([SysDispatch service component command cmd, SysDeliver 0 pid wid] ::
        ('dev, 'pt, 'role, 'w, 'v, 'd) system_event list) S1) pid) =
      cp_effects (ws_client S1 pid) @ [RunCommandHandler callback cmd])"
proof -
  have inv: "sys_inv w S" using sys_run_inv [OF assms(1)] by (simp add: assms(2))
  let ?cd = "w_codec w" and ?p = "ws_client S pid"
  from connected_service [OF assms(1) inv assms(3,6,4,5)] obtain sv where
    service: "si_weave_service si = Some (bws_this sv)"
    and found: "find_service (bws_this sv) m = Some (w_client w pid wid, sv)"
    and client: "bws_client sv = w_client w pid wid" .
  have alive: "pid \<notin> set (ws_dead S)" using assms(3) by (simp add: talks_def)
  let ?si = "si\<lparr>si_command_handlers := si_command_handlers si @
      [\<lparr>che_component = component, che_command_name = command, che_callback = callback\<rparr>]\<rparr>"
  let ?device = "dev_AddCommandHandler (w_api w) component command (ServiceOnCommand (bws_this sv) component command) device"
  let ?m = "m\<lparr>mg_device := Some ?device, mg_services := smap_put (w_client w pid wid) sv (mg_services m)\<rparr>"
  have "app_call w (daemon_service (w_codes w) (weave_device_api.truncate (w_api w)) ?cd (w_dead_object w))
      (AppAddCommandHandler component trait_name command_name callback) si (device, sv) =
    Inr (?si, [] :: 'w client_effect list, (?device, sv))"
    using service assms(9-13) by (simp add: AddCommandHandler_daemon weave_device_api.truncate_def)
  then have "S1 = process_ran w pid (Inr (?p\<lparr>cp_live := Some (wid, ?si)\<rparr>)) (S\<lparr>ws_manager := Some ?m\<rparr>)"
    unfolding assms(15) sys_step_app [OF assms(4) alive assms(5)]
    using assms(6,7) service found by (simp add: app_step_def cp_emit_def Let_def)
  then have S1: "ws_manager S1 = Some ?m" "ws_client S1 pid = ?p\<lparr>cp_live := Some (wid, ?si)\<rparr>"
    "ws_dead S1 = ws_dead S" "ws_to_clients S1 = []"
    using assms(8) by simp_all
  have "manager_inv (w_wifi w) m" using sys_invD(2) [OF inv] assms(6) by (simp add: daemon_ok_def)
  from find_service_put [OF this found] have found1: "find_service (bws_this sv) ?m = Some (w_client w pid wid, sv)" .
  have "link_inv ?p" using sys_invD(1) [OF inv] by (simp add: processes_ok_def)
  then have "wid \<in> set (cp_weave_clients (ws_client S1 pid))"
    using assms(3) by (auto simp: talks_def link_inv_def S1(2))
  then have "cp_effects (ws_client (sys_run w ([SysDispatch (bws_this sv) component command cmd, SysDeliver 0 pid wid] ::
        ('dev, 'pt, 'role, 'w, 'v, 'd) system_event list) S1) pid) =
      cp_effects (ws_client S1 pid) @ ServiceImpl_OnCommand component command cmd ?si" for cmd
    using alive assms(12,13)
    by (intro dispatch_arrives [OF S1(1) found1 client S1(4)]) (simp_all add: S1 lock_def)
  moreover have "find (\<lambda>entry. che_component entry = component \<and> che_command_name entry = command)
      (si_command_handlers si) = None"
    using assms(14) by (auto simp: find_None_iff)
  then have "ServiceImpl_OnCommand component command cmd ?si = [RunCommandHandler callback cmd]" for cmd :: 'w
    by (simp add: ServiceImpl_OnCommand_def find_append)
  ultimately show ?thesis using S1(1,3) service alive by auto
qed

theorem handlers_work_end_to_end_witness:
  "\<exists>p :: nat client_process. cp_effects (ws_client (sample_run command_run) 1) = cp_effects p @ [RunCommandHandler 7 4]"
proof -
  let ?S = "sample_run two_apps"
  let ?add = "SysApp 1 0 (AppAddCommandHandler ''lamp'' ''onOff'' ''setConfig'' 7) :: sample_event"
  let ?serve = "[SysDispatch (Sp 101) ''lamp'' ''onOff.setConfig'' 4, SysDeliver 0 1 0] :: sample_event list"
  obtain si where si: "lock (ws_client ?S 1) 0 = Some si" "si_manager si = Some (Sp 1)" "si_weave_service si = Some (Sp 101)"
    using two_apps_connect by auto
  obtain m where m: "ws_manager ?S = Some m" "mg_device m = Some ''{}{}base.reboot''"
    and quiet: "ws_to_clients ?S = []" "1 \<notin> set (ws_dead ?S)"
    using two_apps_end by (auto simp: Let_def)
  have "map_option (si_command_handlers \<circ> snd) (cp_live (ws_client ?S 1)) = Some []" "ws_generation ?S = 1"
    and called: "RunConnectionCallback 0 \<in> set (cp_effects (ws_client ?S 1))"
    by (unfold two_apps_def, code_simp+)
  then have "si_command_handlers si = []" and talks: "talks sample_world ?S 1 0"
    using si m quiet by (auto simp: talks_def sample_world_def)
  then have fresh: "\<forall>entry \<in> set (si_command_handlers si).
      \<not> (che_component entry = ''lamp'' \<and> che_command_name entry = ''onOff.setConfig'')" by simp
  have full: "''onOff.setConfig'' = full_name ''onOff'' ''setConfig''" by (simp add: full_name_def c_str_def)
  have names: "text_ok (w_codec sample_world) ''lamp''" "text_ok (w_codec sample_world) ''onOff.setConfig''"
    by (simp_all add: sample_world_def sample_text_ok)
  define S1 where "S1 = sys_step sample_world ?add ?S"
  from handlers_work_end_to_end [OF sample_names refl talks si(1) called m quiet(1) _ _ full names fresh S1_def]
  have "cp_effects (ws_client (sys_run sample_world ?serve S1) 1) = cp_effects (ws_client S1 1) @ [RunCommandHandler 7 4]"
    using si(3) by auto
  moreover have "sample_run command_run = sys_run sample_world ?serve S1"
    by (simp add: command_run_def sys_run_def S1_def del: sys_step.simps)
  ultimately show ?thesis by (intro exI [of _ "ws_client S1 1"]) simp
qed

end
