(* ===== verification/System_Progress.thy ===== *)
theory System_Progress
  imports System_Properties
begin

text \<open>
  Progress of the whole system: from every reachable state a living application can be connected,
  by nothing but the tasks of its own message loop, its death notices, and deliveries of the driver.
\<close>

section \<open>Background steps\<close>

fun background :: "nat \<Rightarrow> ('dev, unit, unit, 'w, 'v, 'd) system_event \<Rightarrow> bool" where
  "background pid (SysTask pid' n ok) = (pid' = pid \<and> ok)"
| "background pid (SysBinderDied pid' wid) = (pid' = pid)"
| "background pid (SysDeliver n pid' wid) = (pid' = pid)"
| "background pid SysReceive = True"
| "background pid _ = False"

inductive goes_on :: "('dev, 'v, 'd) world \<Rightarrow> nat \<Rightarrow> ('dev, 'w) weave_system \<Rightarrow> ('dev, 'w) weave_system \<Rightarrow> bool"
  for w :: "('dev, 'v, 'd) world" and pid :: nat where
  stop: "goes_on w pid S S"
| step: "background pid e \<Longrightarrow> goes_on w pid (sys_step w e S) S' \<Longrightarrow> goes_on w pid S S'"

lemma goes_on_trans: "goes_on w pid S S1 \<Longrightarrow> goes_on w pid S1 S2 \<Longrightarrow> goes_on w pid S S2"
  by (induction rule: goes_on.induct) (auto intro: goes_on.intros)

lemma goes_on_events:
  fixes S :: "('dev, 'w) weave_system" and w :: "('dev, 'v, 'd) world"
  assumes "goes_on w pid S S'"
  shows "\<exists>es :: ('dev, unit, unit, 'w, 'v, 'd) system_event list.
    list_all (background pid) es \<and> S' = sys_run w es S"
  using assms
proof (induction rule: goes_on.induct)
  case (stop S)
  have "list_all (background pid) ([] :: ('dev, unit, unit, 'w, 'v, 'd) system_event list) \<and> S = sys_run w [] S"
    by (simp add: sys_run_def)
  then show ?case by blast
next
  case (step e S S')
  then obtain es :: "('dev, unit, unit, 'w, 'v, 'd) system_event list" where
    "list_all (background pid) es" "S' = sys_run w es (sys_step w e S)" by blast
  with step(1) have "list_all (background pid) (e # es) \<and> S' = sys_run w (e # es) S"
    by (simp add: sys_run_def)
  then show ?case by blast
qed

lemma goes_on_inv: "goes_on w pid S S' \<Longrightarrow> names_ok w \<Longrightarrow> sys_inv w S \<Longrightarrow> sys_inv w S'"
  by (induction rule: goes_on.induct) (auto intro: sys_inv_moves [OF sys_step_moves] dest: sys_invD)

text \<open>A process handles an event of its own.\<close>

lemma task_step:
  fixes S :: "('dev, 'w) weave_system" and w :: "('dev, 'v, 'd) world"
  assumes "pid \<notin> set (ws_dead S)"
    and "client_step (w_codec w) (w_dict_Set w) (ws_client S pid) (EvTask n (GetService w S) True) = Inr p"
  shows "goes_on w pid S (process_ran w pid (Inr p) S)"
proof -
  have "sys_step w (SysTask pid n True :: ('dev, unit, unit, 'w, 'v, 'd) system_event) S =
      process_ran w pid (Inr p) S"
    using assms by (simp add: process_step_def)
  then show ?thesis using goes_on.step [of pid "SysTask pid n True" w S] by (auto intro: goes_on.stop)
qed

section \<open>Finding the manager\<close>

text \<open>What the stages keep: the daemon that is up, and the process alive.\<close>

definition ready :: "('dev, 'v, 'd) world \<Rightarrow> nat \<Rightarrow> ('dev, 'w) weave_system \<Rightarrow> bool" where
  "ready w pid S \<longleftrightarrow> sys_inv w S \<and> pid \<notin> set (ws_dead S) \<and>
     (\<exists>m. ws_manager S = Some m \<and> mg_device m \<noteq> None)"

lemma ready_ran:
  assumes "names_ok w" and "ready w pid S" and "goes_on w pid S (process_ran w pid (Inr p) S)"
  shows "ready w pid (process_ran w pid (Inr p) S)"
  using assms goes_on_inv by (auto simp: ready_def)

lemma GetService_ready: "ready w pid S \<Longrightarrow> GetService w S = Some (w_manager w (ws_generation S))"
  by (auto simp: ready_def GetService_def)

lemma try_task_talks:
  assumes "names_ok w" and "ready w pid S" and "cp_live (ws_client S pid) = Some (wid, si)"
    and "n < length (cp_tasks (ws_client S pid))" and "cp_tasks (ws_client S pid) ! n = TaskTryConnecting wid"
  shows "\<exists>S'. goes_on w pid S S' \<and> ready w pid S' \<and> (\<exists>wid. talks w S' pid wid)"
proof -
  from try_connects [OF assms(3-5), of "w_codec w" "w_dict_Set w" "w_manager w (ws_generation S)"] obtain p where
    step: "client_step (w_codec w) (w_dict_Set w) (ws_client S pid)
      (EvTask n (Some (w_manager w (ws_generation S))) True) = Inr p"
    and live: "cp_live p = Some (wid, si\<lparr>si_manager := Some (w_manager w (ws_generation S))\<rparr>)" by blast
  have alive: "pid \<notin> set (ws_dead S)" "ws_manager S \<noteq> None" using assms(2) by (auto simp: ready_def)
  have on: "goes_on w pid S (process_ran w pid (Inr p) S)"
    using step by (intro task_step [OF alive(1)]) (simp add: GetService_ready [OF assms(2)])
  moreover have "talks w (process_ran w pid (Inr p) S) pid wid" using live alive by (simp add: talks_def)
  ultimately show ?thesis using ready_ran [OF assms(1,2)] by blast
qed

lemma reconnect_task_talks:
  assumes "names_ok w" and "ready w pid S" and "cp_live (ws_client S pid) = Some (wid, si)"
    and "n < length (cp_tasks (ws_client S pid))" and "cp_tasks (ws_client S pid) ! n = TaskReconnect wid"
  shows "\<exists>S'. goes_on w pid S S' \<and> ready w pid S' \<and> (\<exists>wid. talks w S' pid wid)"
proof -
  from reconnect_starts [OF assms(3-5), of "w_codec w" "w_dict_Set w" "GetService w S" True] obtain p ts where
    step: "client_step (w_codec w) (w_dict_Set w) (ws_client S pid) (EvTask n (GetService w S) True) = Inr p"
    and live: "cp_live p = Some (cp_made (ws_client S pid), new_ServiceImpl)"
    and tasks: "cp_tasks p = ts @ [TaskTryConnecting (cp_made (ws_client S pid))]" by blast
  let ?S = "process_ran w pid (Inr p) S"
  have on: "goes_on w pid S ?S" using assms(2) step by (intro task_step) (auto simp: ready_def)
  have "\<exists>S'. goes_on w pid ?S S' \<and> ready w pid S' \<and> (\<exists>wid. talks w S' pid wid)"
    using live tasks
    by (intro try_task_talks [OF assms(1) ready_ran [OF assms(1,2) on], where n = "length ts"]) auto
  then show ?thesis using goes_on_trans [OF on] by blast
qed

lemma finds_manager:
  fixes S :: "('dev, 'w) weave_system" and w :: "('dev, 'v, 'd) world"
  assumes "names_ok w" and "ready w pid S" and "cp_live (ws_client S pid) = Some (wid, si)"
  shows "\<exists>S'. goes_on w pid S S' \<and> ready w pid S' \<and> (\<exists>wid. talks w S' pid wid)"
proof -
  have inv: "sys_inv w S" and alive: "pid \<notin> set (ws_dead S)" and up: "ws_manager S \<noteq> None"
    using assms(2) by (auto simp: ready_def)
  have process: "client_inv (ws_client S pid)" "link_inv (ws_client S pid)"
    using sys_invD(1) [OF inv] by (simp_all add: processes_ok_def)
  consider (searching) "si_manager si = None"
    | (current) "si_manager si = Some (w_manager w (ws_generation S))"
    | (old) b where "si_manager si = Some b" "b \<noteq> w_manager w (ws_generation S)"
    by (cases "si_manager si") auto
  then show ?thesis
  proof cases
    case searching
    then have "will_connect (ws_client S pid) wid"
      using process(1) assms(3) by (auto simp: client_inv_def instance_ok_def)
    then show ?thesis
      using try_task_talks [OF assms] reconnect_task_talks [OF assms]
      by (auto simp: will_connect_def in_set_conv_nth)
  next
    case current
    then have "talks w S pid wid" using alive up assms(3) by (simp add: talks_def)
    then show ?thesis using assms(2) goes_on.stop by blast
  next
    case old
    let ?p = "OnWeaveServiceDisconnected wid (ws_client S pid)"
    let ?S = "process_ran w pid (Inr ?p) S"
    have death: "(b, wid) \<in> set (cp_deaths (ws_client S pid))"
      using process(2) assms(3) old(1) by (simp add: link_inv_def)
    then have "death_due w S pid wid" using old(2) by (auto simp: death_due_def)
    moreover have "wid \<in> snd ` set (cp_deaths (ws_client S pid))" using death by force
    ultimately have "sys_step w (SysBinderDied pid wid :: ('dev, unit, unit, 'w, 'v, 'd) system_event) S = ?S"
      using assms(3) alive by (simp add: process_step_def lock_def)
    then have on: "goes_on w pid S ?S"
      using goes_on.step [of pid "SysBinderDied pid wid" w S] by (auto intro: goes_on.stop)
    have "\<exists>S'. goes_on w pid ?S S' \<and> ready w pid S' \<and> (\<exists>wid. talks w S' pid wid)"
      using assms(3)
      by (intro reconnect_task_talks [OF assms(1) ready_ran [OF assms(1,2) on],
            where n = "length (cp_tasks (ws_client S pid))"])
        (auto simp: OnWeaveServiceDisconnected_def)
    then show ?thesis using goes_on_trans [OF on] by blast
  qed
qed

section \<open>Through the daemon\<close>

text \<open>With its device the daemon answers every call of a client.\<close>

lemma connect_with_device:
  "mg_device m \<noteq> None \<Longrightarrow> \<exists>m'. Manager_connect client m = Inr m' \<and> mg_device m' \<noteq> None"
proof -
  assume device: "mg_device m \<noteq> None"
  have "mg_device (fold create_service clients m) = mg_device m" for clients and m :: "'a Manager"
    by (induction clients arbitrary: m) (simp_all add: create_service_def mg_emit_def Let_def)
  then show ?thesis using device by (simp add: Manager_connect_def CreateServicesForClients_def)
qed

lemma call_with_device:
  assumes "mg_device m \<noteq> None"
  shows "\<exists>m'. manager_step wifi api cd m (handle_call c :: ('dev, unit, unit) manager_event) = Inr m' \<and>
    mg_device m' \<noteq> None"
proof (cases c)
  case (CallConnect client)
  then show ?thesis using connect_with_device [OF assms] by simp
next
  case (CallRegisterListener listener)
  then show ?thesis using assms by (simp add: registerNotificationListener_def mg_emit_def)
qed

lemma calls_received:
  fixes S :: "('dev, 'w) weave_system" and w :: "('dev, 'v, 'd) world"
  assumes "names_ok w" and "ready w pid S" and "talks w S pid wid"
  shows "\<exists>S'. goes_on w pid S S' \<and> ready w pid S' \<and> talks w S' pid wid \<and> ws_to_manager S' = []"
  using assms(2,3)
proof (induction "ws_to_manager S" arbitrary: S)
  case Nil
  then show ?case by (intro exI [of _ S]) (simp add: goes_on.stop)
next
  case (Cons c cs)
  obtain m where m: "ws_manager S = Some m" "mg_device m \<noteq> None" using Cons.prems(1) by (auto simp: ready_def)
  from call_with_device [OF m(2), of "w_wifi w" "w_api w" "w_codec w" c] obtain m' where
    step: "manager_step (w_wifi w) (w_api w) (w_codec w) m (handle_call c :: ('dev, unit, unit) manager_event) = Inr m'"
    and device: "mg_device m' \<noteq> None" by blast
  let ?S = "daemon_ran (mg_effects m) (Inr m') (S\<lparr>ws_to_manager := cs\<rparr>)"
  have "sys_step w (SysReceive :: ('dev, unit, unit, 'w, 'v, 'd) system_event) S = ?S"
    using m(1) step Cons.hyps(2) [symmetric] by (simp add: daemon_step_def)
  then have on: "goes_on w pid S ?S" using goes_on.step [of pid SysReceive w S] by (auto intro: goes_on.stop)
  have "ready w pid ?S"
    using goes_on_inv [OF on assms(1)] Cons.prems(1) device by (simp add: ready_def)
  moreover have "talks w ?S pid wid" using Cons.prems(2) by (simp add: talks_def)
  moreover have "cs = ws_to_manager ?S" by simp
  ultimately obtain S' where "goes_on w pid ?S S'" "ready w pid S'" "talks w S' pid wid" "ws_to_manager S' = []"
    using Cons.hyps(1) by blast
  then show ?case using goes_on_trans [OF on] by blast
qed

section \<open>Through the driver\<close>

text \<open>The messages for one client object; a delivery to it changes neither its manager nor the daemon's queue.\<close>

definition mail :: "sp \<Rightarrow> ('dev, 'w) weave_system \<Rightarrow> nat" where
  "mail client S = length (filter (\<lambda>msg. target msg = Inl client) (ws_to_clients S))"

lemma client_message_handled:
  assumes "target msg = Inl client" and "cp_live (ws_client S pid) = Some (wid, si)" and "ws_to_manager S = []"
  shows "\<exists>p si'. client_step cd dict_Set (ws_client S pid) (message_event w mo wid msg) = Inr p \<and>
    cp_live p = Some (wid, si') \<and> si_manager si' = si_manager si \<and>
    ws_to_manager (process_ran w pid (Inr p) S) = []"
proof (cases msg)
  case (MsgServiceConnected c service)
  then show ?thesis
    using assms by (auto simp: message_event_def WeaveClient_onServiceConnected_def
        ServiceImpl_OnServiceConnected_def lock_def cp_emit_def process_ran_def)
next
  case (MsgCommand c component command cmd)
  have "concat (map (calls_of w pid) (ServiceImpl_OnCommand a b cmd si)) = []" for a b
    by (auto simp: ServiceImpl_OnCommand_def split: option.split)
  then show ?thesis
    using MsgCommand assms by (auto simp: message_event_def WeaveClient_onCommand_def lock_def cp_emit_def
        process_ran_def Let_def)
qed (use assms(1) in simp)

lemma mail_delivered:
  fixes S :: "('dev, 'w) weave_system" and w :: "('dev, 'v, 'd) world"
  assumes "names_ok w" and "ready w pid S" and "talks w S pid wid" and "ws_to_manager S = []"
  shows "\<exists>S'. goes_on w pid S S' \<and> ready w pid S' \<and> talks w S' pid wid \<and> ws_to_manager S' = [] \<and>
    mail (w_client w pid wid) S' = 0"
  using assms(2-4)
proof (induction "mail (w_client w pid wid) S" arbitrary: S)
  case 0
  then show ?case by (intro exI [of _ S]) (simp add: goes_on.stop)
next
  case (Suc k)
  let ?mine = "\<lambda>msg. target msg = Inl (w_client w pid wid)"
  have "\<exists>msg \<in> set (ws_to_clients S). ?mine msg"
  proof (rule ccontr)
    assume "\<not> ?thesis"
    then have "filter ?mine (ws_to_clients S) = []" by (simp add: filter_empty_conv)
    then show False using Suc.hyps(2) by (simp add: mail_def)
  qed
  from split_list_first_prop [OF this] obtain before msg after where
    queue: "ws_to_clients S = before @ msg # after" and mine: "?mine msg"
    and first: "\<forall>msg \<in> set before. \<not> ?mine msg" by blast
  let ?n = "length before"
  let ?T = "S\<lparr>ws_to_clients := before @ after\<rparr>"
  obtain si where live: "cp_live (ws_client S pid) = Some (wid, si)"
    and current: "si_manager si = Some (w_manager w (ws_generation S))" and alive: "pid \<notin> set (ws_dead S)"
    and up: "ws_manager S \<noteq> None"
    using Suc.prems(2) by (auto simp: talks_def)
  obtain p si' where step: "client_step (w_codec w) (w_dict_Set w) (ws_client ?T pid)
      (message_event w (manager_of w S pid wid) wid msg) = Inr p"
    and p: "cp_live p = Some (wid, si')" "si_manager si' = si_manager si"
    and idle: "ws_to_manager (process_ran w pid (Inr p) ?T) = []"
    using client_message_handled [OF mine, of ?T pid wid si "w_codec w" "w_dict_Set w" w "manager_of w S pid wid"]
      live Suc.prems(3) by auto
  let ?S = "process_ran w pid (Inr p) ?T"
  have "sys_step w (SysDeliver ?n pid wid :: ('dev, unit, unit, 'w, 'v, 'd) system_event) S = ?S"
    using mine first step alive by (auto simp: deliver_message_def object_of_def queue process_step_def)
  then have on: "goes_on w pid S ?S" using goes_on.step [of pid "SysDeliver ?n pid wid" w S] by (auto intro: goes_on.stop)
  have "ready w pid ?S" using goes_on_inv [OF on assms(1)] Suc.prems(1) by (simp add: ready_def)
  moreover have "talks w ?S pid wid" using p current alive up by (simp add: talks_def)
  moreover have "k = mail (w_client w pid wid) ?S" using Suc.hyps(2) mine by (simp add: mail_def queue)
  ultimately obtain S' where "goes_on w pid ?S S'" "ready w pid S'" "talks w S' pid wid" "ws_to_manager S' = []"
    "mail (w_client w pid wid) S' = 0"
    using Suc.hyps(1) idle by blast
  then show ?case using goes_on_trans [OF on] by blast
qed

section \<open>Property\<close>

text \<open>With no call and no message left, the request of an instance that talks to the daemon is done.\<close>

lemma answered_when_idle:
  assumes "ready w pid S" and "talks w S pid wid" and "ws_to_manager S = []" and "mail (w_client w pid wid) S = 0"
  shows "callbacks_run (ws_client S pid) wid = 1"
proof -
  have inv: "sys_inv w S" using assms(1) by (simp add: ready_def)
  obtain m where m: "ws_manager S = Some m" "mg_device m \<noteq> None" using assms(1) by (auto simp: ready_def)
  have "0 < requests w S pid wid" using sys_invD(7) [OF inv] assms(2) by (simp add: path_inv_def)
  moreover have "requests w S pid wid \<le> 1"
    using sys_invD(5) [OF inv] connects_once [OF sys_invD(1) [OF inv], of pid wid]
    unfolding request_inv_def by (meson le_trans)
  moreover have "mg_pending_clients m = []"
    using sys_invD(2) [OF inv] m by (simp add: daemon_ok_def manager_inv_def)
  moreover have "filter (is_answer (w_client w pid wid)) (ws_to_clients S) = []"
    using assms(4) by (auto simp: mail_def filter_empty_conv is_answer_def split: client_message.splits)
  ultimately show ?thesis using assms(3) m by (simp add: requests_def waiting_def)
qed

text \<open>
  Property C1.  The system never gets stuck: from every reachable state in which the daemon is up
  with its device, whatever happened before, any living application that still wants its
  subscription gets connected by some sequence of tasks of its own message loop, its death notices,
  and deliveries of the driver; it then has the current manager, its callback ran exactly once, and
  its service is the one the daemon keeps for it.
\<close>

theorem applications_can_always_connect:
  fixes es :: "('dev, 'pt, 'role, 'w, 'v, 'd) system_event list"
  assumes "names_ok w" and "S = sys_run w es new_system"
    and "ws_manager S = Some m" and "mg_device m \<noteq> None"
    and "pid \<notin> set (ws_dead S)" and "cp_live (ws_client S pid) \<noteq> None"
  shows "\<exists>(es' :: ('dev, unit, unit, 'w, 'v, 'd) system_event list) S' wid si m' sv.
    list_all (background pid) es' \<and> S' = sys_run w es' S \<and>
    lock (ws_client S' pid) wid = Some si \<and> si_manager si = Some (w_manager w (ws_generation S')) \<and>
    callbacks_run (ws_client S' pid) wid = 1 \<and>
    ws_manager S' = Some m' \<and> map_of (mg_services m') (w_client w pid wid) = Some sv \<and>
    si_weave_service si = Some (bws_this sv)"
proof -
  have "sys_inv w S" using sys_run_inv [OF assms(1)] by (simp add: assms(2))
  then have ready: "ready w pid S" using assms(3-5) by (simp add: ready_def)
  obtain wid0 si0 where "cp_live (ws_client S pid) = Some (wid0, si0)" using assms(6) by auto
  from finds_manager [OF assms(1) ready this] obtain S1 wid where
    S1: "goes_on w pid S S1" "ready w pid S1" "talks w S1 pid wid" by blast
  from calls_received [OF assms(1) S1(2,3)] obtain S2 where
    S2: "goes_on w pid S1 S2" "ready w pid S2" "talks w S2 pid wid" "ws_to_manager S2 = []" by blast
  from mail_delivered [OF assms(1) S2(2-4)] obtain S' where
    S': "goes_on w pid S2 S'" "ready w pid S'" "talks w S' pid wid" "ws_to_manager S' = []"
      "mail (w_client w pid wid) S' = 0" by blast
  note once = answered_when_idle [OF S'(2-5)]
  obtain si where si: "lock (ws_client S' pid) wid = Some si" "si_manager si = Some (w_manager w (ws_generation S'))"
    using S'(3) by (auto simp: talks_def)
  obtain m' where m': "ws_manager S' = Some m'" and inv: "sys_inv w S'" using S'(2) by (auto simp: ready_def)
  from connected_service [OF assms(1) inv S'(3) m' si(1) callback_ran [OF once]] obtain sv where
    sv: "map_of (mg_services m') (w_client w pid wid) = Some sv" "si_weave_service si = Some (bws_this sv)" .
  have "goes_on w pid S S'" using S1(1) S2(1) S'(1) goes_on_trans by blast
  from goes_on_events [OF this] obtain es' :: "('dev, unit, unit, 'w, 'v, 'd) system_event list" where
    "list_all (background pid) es' \<and> S' = sys_run w es' S" by blast
  with si once m' sv show ?thesis by blast
qed

text \<open>The daemon has died and been started again; the first application was cut off in the middle.\<close>

definition restarted_run :: "sample_event list" where
  "restarted_run = [SysDaemonStart sample_env sample_manager_options 100, SysTask 0 0 True, SysReceive,
     SysDaemonDied, SysDaemonStart sample_env sample_manager_options 200, SysManager (MeWebServerReady sample_env)]"

theorem applications_can_always_connect_witness:
  "\<exists>(es' :: sample_event list) si. list_all (background 0) es' \<and>
     (\<exists>wid. lock (ws_client (sys_run sample_world es' (sample_run restarted_run)) 0) wid = Some si) \<and>
     si_manager si = Some (Sp (ws_generation (sys_run sample_world es' (sample_run restarted_run))))"
proof -
  let ?S = "sample_run restarted_run"
  have "map_option mg_device (ws_manager ?S) = Some (Some ''{}{}base.reboot'')" "0 \<notin> set (ws_dead ?S)"
    "cp_live (ws_client ?S 0) \<noteq> None"
    by (unfold restarted_run_def, code_simp+)
  then obtain m where "ws_manager ?S = Some m" "mg_device m \<noteq> None" "0 \<notin> set (ws_dead ?S)"
    "cp_live (ws_client ?S 0) \<noteq> None" by auto
  from applications_can_always_connect [OF sample_names refl this] show ?thesis
    by (auto simp: sample_world_def)
qed

end
