(* ===== verification/System_Pairing.thy ===== *)
theory System_Pairing
  imports System_Properties
begin

text \<open>
  The pairing session across the processes: the daemon's notifications are one-way messages that
  stay in flight while more callbacks of libweave, deaths and restarts happen; the client reads the
  manager's values when it handles one.
\<close>

section \<open>The copy in a process\<close>

definition registers :: "('w, 'v, 'd) client_event \<Rightarrow> 'w client_process \<Rightarrow> 'w client_effect list \<Rightarrow>
    'w client_process \<Rightarrow> bool" where
  "registers e p es p' \<longleftrightarrow>
     (\<exists>n b ok wid si. e = EvTask n (Some b) ok \<and> es = [ManagerConnect b wid, ManagerRegisterListener b wid] \<and>
        cp_live p = Some (wid, si) \<and> cp_live p' = Some (wid, si\<lparr>si_manager := Some b\<rparr>) \<and>
        cp_listeners p' = cp_listeners p @ [wid])"

text \<open>
  A step of a process registers the listener of its instance, or makes a new instance, or keeps the
  copy of the one it has, unless that reads the values of a notification.
\<close>

definition keeps_copy :: "('v, 'd) codec \<Rightarrow> ('w, 'v, 'd) client_event \<Rightarrow> 'w client_process \<Rightarrow> 'w client_process \<Rightarrow> bool" where
  "keeps_copy cd e p p' \<longleftrightarrow> cp_listeners p' = cp_listeners p \<and>
     (\<forall>wid si'. cp_live p' = Some (wid, si') \<longrightarrow>
        wid = cp_made p \<and> si' = new_ServiceImpl \<or>
        (\<exists>si. cp_live p = Some (wid, si) \<and> si_manager si' = si_manager si \<and>
          (if \<exists>ids. e = EvClientNotify wid ids \<and> wid \<in> set (cp_listeners p)
           then \<exists>ids si1 changed. e = EvClientNotify wid ids \<and> si_pairing_info si' = si_pairing_info si1 \<and>
             notification_loop cd ids si False = Inr (si1, changed)
           else si_pairing_info si' = si_pairing_info si)))"

definition quiet_effects :: "'w client_effect list \<Rightarrow> bool" where
  "quiet_effects es \<longleftrightarrow> (\<forall>b wid. ManagerConnect b wid \<notin> set es \<and> ManagerRegisterListener b wid \<notin> set es)"

lemma quiet_effects_simps [simp]:
  "quiet_effects []" "quiet_effects (destroy_ServiceImpl si)" "quiet_effects [RunPairingCallback cb info]"
  "quiet_effects [RunConnectionCallback wid]" "quiet_effects [AbortCommand cmd a b]"
  "quiet_effects (ServiceImpl_OnCommand c n cmd si)"
  by (auto simp: quiet_effects_def destroy_ServiceImpl_def ServiceImpl_OnCommand_def split: option.splits)

definition process_moves :: "('v, 'd) codec \<Rightarrow> ('w, 'v, 'd) client_event \<Rightarrow> 'w client_process \<Rightarrow> 'w client_process \<Rightarrow> bool" where
  "process_moves cd e p p' \<longleftrightarrow>
     (\<exists>es. cp_effects p' = cp_effects p @ es \<and> (registers e p es p' \<or> quiet_effects es \<and> keeps_copy cd e p p'))"

lemma process_moves_still:
  "cp_effects p' = cp_effects p @ es \<Longrightarrow> quiet_effects es \<Longrightarrow> keeps_copy cd e p p' \<Longrightarrow> process_moves cd e p p'"
  by (auto simp: process_moves_def)

lemma process_moves_refl [simp]:
  "\<not> (\<exists>wid ids. e = EvClientNotify wid ids \<and> wid \<in> set (cp_listeners p) \<and> lock p wid \<noteq> None) \<Longrightarrow> process_moves cd e p p"
  by (rule process_moves_still [of _ _ "[]"]) (auto simp: keeps_copy_def lock_def)

lemma start_instance_moves:
  fixes p :: "'w client_process"
  shows "\<exists>es. cp_effects (start_instance p) = cp_effects p @ es \<and> quiet_effects es"
    "cp_listeners (start_instance p) = cp_listeners p"
  by (auto simp: start_instance_def BeginConnect_def Let_def split: option.split)

lemma run_task_moves:
  "process_moves cd (EvTask n gs ok) p (run_task gs ok t (p\<lparr>cp_tasks := ts\<rparr>))"
proof (cases t)
  case (TaskTryConnecting wid)
  show ?thesis
  proof (cases "cp_live p = None \<or> gs = None \<or> \<not> ok \<or> lock p wid = None")
    case True
    then show ?thesis
      using TaskTryConnecting
      by (intro process_moves_still [of _ _ "[]"])
        (auto simp: keeps_copy_def TryConnecting_def OnWeaveServiceDisconnected_def lock_def split: option.splits)
  next
    case False
    then obtain si b where "cp_live p = Some (wid, si)" "gs = Some b" ok
      by (auto simp: lock_def split: option.splits if_splits)
    then show ?thesis
      using TaskTryConnecting
      by (auto simp: process_moves_def registers_def TryConnecting_def lock_def Let_def)
  qed
next
  case (TaskReconnect wid)
  show ?thesis
  proof (cases "lock p wid")
    case None
    then show ?thesis
      using TaskReconnect by (intro process_moves_still [of _ _ "[]"]) (auto simp: keeps_copy_def lock_def)
  next
    case (Some si)
    let ?q = "p\<lparr>cp_tasks := ts, cp_live := Some (wid, si\<lparr>si_weave_service := None\<rparr>)\<rparr>"
    obtain es where "cp_effects (start_instance ?q) = cp_effects ?q @ es" "quiet_effects es"
      using start_instance_moves(1) by blast
    moreover have "keeps_copy cd (EvTask n gs ok) p (start_instance ?q)"
      by (simp add: keeps_copy_def start_instance_moves(2))
    ultimately show ?thesis
      using Some TaskReconnect
      by (intro process_moves_still [of _ _ es]) (simp_all add: ReconnectOnServiceDisconnection_def lock_def)
  qed
qed

text \<open>What the callback is told after reading.\<close>

definition said :: "bool \<Rightarrow> ServiceImpl \<Rightarrow> 'w client_effect list" where
  "said changed si =
     (if \<not> changed then []
      else case si_pairing_info_callback si of
             None \<Rightarrow> []
           | Some cb \<Rightarrow> [RunPairingCallback cb
               (if pairing_complete (si_pairing_info si) then Some (si_pairing_info si) else None)])"

lemma notified:
  assumes "NotificationListener_notifyServiceManagerChange cd wid ids p = Inr p'" and "lock p wid = Some si"
  obtains si1 changed where "notification_loop cd ids si False = Inr (si1, changed)"
    and "p' = cp_emit (said changed si1) (p\<lparr>cp_live := Some (wid, si1)\<rparr>)"
  using assms
  by (auto simp: NotificationListener_notifyServiceManagerChange_def ServiceImpl_OnNotification_def said_def)

lemma locked: "lock p wid = Some si \<Longrightarrow> cp_live p = Some (wid, si)"
  by (auto simp: lock_def split: option.splits if_splits)

lemma notify_moves:
  assumes "NotificationListener_notifyServiceManagerChange cd wid ids p = Inr p'" and "wid \<in> set (cp_listeners p)"
  shows "process_moves cd (EvClientNotify wid ids) p p'"
proof (cases "lock p wid")
  case None
  then have "p' = p" using assms(1) by (simp add: NotificationListener_notifyServiceManagerChange_def)
  then show ?thesis
    using None by (intro process_moves_still [of _ _ "[]"]) (auto simp: keeps_copy_def lock_def)
next
  case (Some si)
  from notified [OF assms(1) this] obtain si1 changed where loop: "notification_loop cd ids si False = Inr (si1, changed)"
    and p': "p' = cp_emit (said changed si1) (p\<lparr>cp_live := Some (wid, si1)\<rparr>)" .
  have es: "quiet_effects (said changed si1)" by (auto simp: said_def split: option.split)
  have "cp_live p = Some (wid, si)" using Some by (rule locked)
  moreover have "si_manager si1 = si_manager si" using notification_loop_fields [OF loop] by blast
  ultimately show ?thesis
    using loop assms(2) es by (intro process_moves_still [of _ _ "said changed si1"]) (auto simp: p' keeps_copy_def)
qed

lemma api_moves:
  assumes "cp_live p = Some (wid, si)" and "api_step cd dict_Set wid si call p = Inr p'"
  shows "process_moves cd (EvApi wid call) p p'"
proof (cases call)
  case (ApiAddCommandHandler component trait_name command_name callback st)
  then show ?thesis
    using assms by (intro process_moves_still [of _ _ "[]"])
      (auto simp: ServiceImpl_AddCommandHandler_def keeps_copy_def Let_def split: prod.splits)
next
  case (ApiSetPairingInfoListener callback)
  then show ?thesis
    using assms by (auto simp: ServiceImpl_SetPairingInfoListener_def keeps_copy_def Let_def
        intro!: process_moves_still split: option.splits if_splits)
qed (use assms in auto)

lemma client_step_moves:
  assumes "client_step cd dict_Set p e = Inr p'"
  shows "process_moves cd e p p'"
proof (cases e)
  case (EvTask n gs ok)
  then show ?thesis using assms by (auto simp: run_task_moves split: if_splits)
next
  case (EvClientNotify wid ids)
  then show ?thesis using assms by (auto intro: notify_moves split: if_splits)
next
  case (EvApi wid call)
  then show ?thesis
    using assms by (auto intro: api_moves simp: lock_def split: option.splits if_splits)
next
  case (EvServiceConnected wid service)
  then show ?thesis
    using assms by (auto simp: WeaveClient_onServiceConnected_def ServiceImpl_OnServiceConnected_def lock_def
        keeps_copy_def intro!: process_moves_still split: if_splits option.splits)
next
  case (EvClientCommand wid component command cmd)
  then show ?thesis
    using assms by (auto simp: WeaveClient_onCommand_def lock_def keeps_copy_def intro!: process_moves_still
        split: if_splits option.splits)
next
  case (EvBinderDied wid)
  then show ?thesis
    using assms by (auto simp: OnWeaveServiceDisconnected_def keeps_copy_def
        intro!: process_moves_still [of _ _ "[]"] split: if_splits)
next
  case EvDestroySubscription
  then show ?thesis
    using assms by (auto simp: destroy_Subscription_def keeps_copy_def intro!: process_moves_still
        split: option.splits)
qed

text \<open>The callback of the live instance was last told of its copy, if that is a complete session.\<close>

definition pairing_runs :: "'w client_effect list \<Rightarrow> (nat \<times> PairingInfo option) list" where
  "pairing_runs es = concat (map (\<lambda>e. case e of RunPairingCallback cb info \<Rightarrow> [(cb, info)] | _ \<Rightarrow> []) es)"

lemma pairing_runs_simps [simp]:
  "pairing_runs [] = []" "pairing_runs (es @ es') = pairing_runs es @ pairing_runs es'"
  "pairing_runs [RunPairingCallback cb info] = [(cb, info)]"
  by (simp_all add: pairing_runs_def)

definition told :: "'w client_process \<Rightarrow> bool" where
  "told p \<longleftrightarrow> (\<forall>wid si cb. cp_live p = Some (wid, si) \<longrightarrow> si_pairing_info_callback si = Some cb \<longrightarrow>
     pairing_complete (si_pairing_info si) \<longrightarrow>
     pairing_runs (cp_effects p) \<noteq> [] \<and> last (pairing_runs (cp_effects p)) = (cb, Some (si_pairing_info si)))"

definition silent :: "'w client_effect list \<Rightarrow> bool" where
  "silent es \<longleftrightarrow> pairing_runs es = []"

lemma silent_simps [simp]:
  "silent []" "silent (destroy_ServiceImpl si)" "silent [RunConnectionCallback wid]" "silent [AbortCommand cmd x y]"
  "silent (ServiceImpl_OnCommand c n cmd si)" "silent [ManagerConnect b wid, ManagerRegisterListener b wid]"
  by (auto simp: silent_def pairing_runs_def destroy_ServiceImpl_def ServiceImpl_OnCommand_def split: option.splits)

text \<open>Without a word the callback and the copy have to stay, or the instance is new.\<close>

lemma told_silent:
  assumes "told p" and "cp_effects p' = cp_effects p @ es" and "silent es"
    and "\<And>wid si'. cp_live p' = Some (wid, si') \<Longrightarrow> si_pairing_info si' = no_session \<or>
      (\<exists>si. cp_live p = Some (wid, si) \<and> si_pairing_info si' = si_pairing_info si \<and>
        si_pairing_info_callback si' = si_pairing_info_callback si)"
  shows "told p'"
  unfolding told_def
proof (intro allI impI)
  fix wid si' cb
  assume p': "cp_live p' = Some (wid, si')" "si_pairing_info_callback si' = Some cb" "pairing_complete (si_pairing_info si')"
  then have "si_pairing_info si' \<noteq> no_session" by (auto simp: no_session_def pairing_complete_def)
  then obtain si where "cp_live p = Some (wid, si)" "si_pairing_info si' = si_pairing_info si"
    "si_pairing_info_callback si' = si_pairing_info_callback si"
    using assms(4) [OF p'(1)] by blast
  then show "pairing_runs (cp_effects p') \<noteq> [] \<and> last (pairing_runs (cp_effects p')) = (cb, Some (si_pairing_info si'))"
    using assms(1-3) p'(2,3) by (auto simp: told_def silent_def)
qed

lemma told_start: "told (start_instance p)"
  by (simp add: told_def pairing_complete_def no_session_def)

lemma client_step_told:
  assumes "client_step cd dict_Set p e = Inr p'" and "told p"
  shows "told p'"
proof (cases e)
  case (EvTask n gs ok)
  show ?thesis
  proof (cases "n < length (cp_tasks p)")
    case True
    let ?p = "p\<lparr>cp_tasks := take n (cp_tasks p) @ drop (Suc n) (cp_tasks p)\<rparr>"
    have "told ?p" using assms(2) by (simp add: told_def)
    then have "told (run_task gs ok (cp_tasks p ! n) ?p)"
      by (cases "cp_tasks p ! n")
        (auto simp: TryConnecting_def OnWeaveServiceDisconnected_def ReconnectOnServiceDisconnection_def lock_def
          Let_def told_start split: option.split intro: told_silent [of ?p _ "[]"]
          told_silent [of ?p _ "[ManagerConnect b wid, ManagerRegisterListener b wid]" for b wid])
    then show ?thesis using True EvTask assms(1) by simp
  qed (use assms EvTask in simp)
next
  case (EvClientNotify wid ids)
  show ?thesis
  proof (cases "wid \<in> set (cp_listeners p) \<and> lock p wid \<noteq> None")
    case True
    then obtain si where lock: "lock p wid = Some si" by blast
    have "NotificationListener_notifyServiceManagerChange cd wid ids p = Inr p'"
      using True EvClientNotify assms(1) by simp
    from notified [OF this lock] obtain si1 changed where loop: "notification_loop cd ids si False = Inr (si1, changed)"
      and p': "p' = cp_emit (said changed si1) (p\<lparr>cp_live := Some (wid, si1)\<rparr>)" .
    have si: "cp_live p = Some (wid, si)" using lock by (rule locked)
    show ?thesis
    proof (cases changed)
      case True
      then show ?thesis by (auto simp: p' told_def said_def)
    next
      case False
      then show ?thesis
        using loop unchanged_copy [of cd ids si False si1] notification_loop_fields [OF loop] si
        by (intro told_silent [OF assms(2), of _ "[]"]) (simp_all add: p' said_def)
    qed
  next
    case False
    then have "wid \<notin> set (cp_listeners p) \<or> lock p wid = None" by blast
    then have "p' = p"
      using EvClientNotify assms(1)
      by (auto simp: NotificationListener_notifyServiceManagerChange_def split: if_splits)
    then show ?thesis using assms(2) by simp
  qed
next
  case (EvApi wid call)
  show ?thesis
  proof (cases call)
    case (ApiSetPairingInfoListener callback)
    then show ?thesis
      using EvApi assms by (auto simp: ServiceImpl_SetPairingInfoListener_def told_def lock_def Let_def
          split: option.splits if_splits)
  next
    case (ApiAddCommandHandler component trait_name command_name callback st)
    then show ?thesis
      using EvApi assms by (auto simp: ServiceImpl_AddCommandHandler_def lock_def Let_def
          intro: told_silent [of p _ "[]"] split: option.splits if_splits prod.splits)
  qed (use EvApi assms in \<open>auto split: option.splits if_splits\<close>)
next
  case (EvServiceConnected wid service)
  then show ?thesis
    using assms by (auto simp: WeaveClient_onServiceConnected_def ServiceImpl_OnServiceConnected_def lock_def
        intro!: told_silent [of p _ "[RunConnectionCallback wid]"] split: if_splits option.splits)
next
  case (EvClientCommand wid component command cmd)
  then show ?thesis
    using assms by (auto simp: WeaveClient_onCommand_def intro: told_silent [of p] split: if_splits option.splits)
next
  case (EvBinderDied wid)
  then show ?thesis
    using assms by (auto simp: OnWeaveServiceDisconnected_def intro: told_silent [of p _ "[]"] split: if_splits)
next
  case EvDestroySubscription
  then show ?thesis using assms by (auto simp: destroy_Subscription_def told_def split: option.splits)
qed

section \<open>Before the listener is registered\<close>

definition listeners_named :: "('dev, 'v, 'd) world \<Rightarrow> bool" where
  "listeners_named w \<longleftrightarrow>
     (\<forall>pid wid pid' wid'. w_listener w pid wid = w_listener w pid' wid' \<longrightarrow> pid = pid' \<and> wid = wid')"

lemma listeners_namedD:
  "listeners_named w \<Longrightarrow> w_listener w pid wid = w_listener w pid' wid' \<Longrightarrow> pid = pid' \<and> wid = wid'"
  unfolding listeners_named_def by blast

definition daemon_listeners :: "('dev, 'w) weave_system \<Rightarrow> sp set" where
  "daemon_listeners S = (case ws_manager S of None \<Rightarrow> {} | Some m \<Rightarrow> listeners m)"

text \<open>Nobody knows the listener of an instance, and its copy is empty.\<close>

definition unregistered :: "('dev, 'v, 'd) world \<Rightarrow> ('dev, 'w) weave_system \<Rightarrow> nat \<Rightarrow> nat \<Rightarrow> bool" where
  "unregistered w S pid wid \<longleftrightarrow> w_listener w pid wid \<notin> daemon_listeners S \<and>
     (\<forall>ids. MsgNotify (w_listener w pid wid) ids \<notin> set (ws_to_clients S)) \<and>
     (\<forall>si. cp_live (ws_client S pid) = Some (wid, si) \<longrightarrow> si_pairing_info si = no_session)"

text \<open>How often the registration of an instance's listener is on its way.\<close>

definition registering :: "('dev, 'v, 'd) world \<Rightarrow> ('dev, 'w) weave_system \<Rightarrow> nat \<Rightarrow> nat \<Rightarrow> nat" where
  "registering w S pid wid =
     length (filter (\<lambda>c. c = CallRegisterListener (w_listener w pid wid)) (ws_to_manager S))"

definition registration_inv :: "('dev, 'v, 'd) world \<Rightarrow> ('dev, 'w) weave_system \<Rightarrow> bool" where
  "registration_inv w S \<longleftrightarrow> (ws_manager S = None \<longrightarrow> ws_to_manager S = []) \<and>
     (\<forall>pid wid.
        (connects_made (ws_client S pid) wid = 0 \<longrightarrow> registering w S pid wid = 0 \<and> unregistered w S pid wid) \<and>
        (0 < connects_made (ws_client S pid) wid \<longrightarrow> wid \<in> set (cp_listeners (ws_client S pid))) \<and>
        (0 < registering w S pid wid \<longrightarrow> registering w S pid wid = 1 \<and> unregistered w S pid wid \<and>
           (\<forall>si. cp_live (ws_client S pid) = Some (wid, si) \<longrightarrow>
              si_manager si = Some (w_manager w (ws_generation S)))))"

lemma retry_invD:
  assumes "retry_inv p"
  shows "connects_made p wid \<le> 1" and "0 < connects_made p wid \<Longrightarrow> wid < cp_made p"
proof -
  have "retries p wid + connects_made p wid \<le> (if wid < cp_made p then 1 else 0)"
    using assms by (simp add: retry_inv_def)
  then show "connects_made p wid \<le> 1" and "0 < connects_made p wid \<Longrightarrow> wid < cp_made p"
    by (simp_all split: if_splits)
qed

lemma registrations_counted:
  assumes "listeners_named w"
  shows "length (filter (\<lambda>c. c = CallRegisterListener (w_listener w pid' wid)) (concat (map (calls_of w pid) es))) =
    (if pid' = pid then length (filter (\<lambda>e. \<exists>b. e = ManagerRegisterListener b wid) es) else 0)"
proof (induction es)
  case (Cons e es)
  have "length (filter (\<lambda>c. c = CallRegisterListener (w_listener w pid' wid)) (calls_of w pid e)) =
      (if pid' = pid \<and> (\<exists>b. e = ManagerRegisterListener b wid) then 1 else 0)"
    using assms by (cases e) (auto simp: listeners_named_def)
  then show ?case using Cons by simp
qed simp

lemma quiet_counts:
  assumes "quiet_effects es"
  shows "filter (\<lambda>e. \<exists>b. e = ManagerRegisterListener b wid) es = []" and "filter (is_connect wid) es = []"
  using assms by (auto simp: filter_empty_conv quiet_effects_def is_connect_def split: client_effect.split)

lemma unregistered_cong:
  "unregistered w S pid wid \<Longrightarrow> ws_client S' pid = ws_client S pid \<Longrightarrow>
   (\<And>l ids. MsgNotify l ids \<in> set (ws_to_clients S') \<Longrightarrow> MsgNotify l ids \<in> set (ws_to_clients S)) \<Longrightarrow>
   daemon_listeners S' \<subseteq> daemon_listeners S \<Longrightarrow> unregistered w S' pid wid"
  by (auto simp: unregistered_def)

text \<open>A handler of a process; \<open>T\<close> is \<open>S\<close>, or \<open>S\<close> without the message that is handled.\<close>

lemma registration_ran:
  assumes named: "listeners_named w" and ok: "processes_ok S" and inv: "registration_inv w S"
    and step: "client_step cd dict_Set (ws_client S pid) e = Inr p"
    and finds: "\<And>n b k. e = EvTask n (Some b) k \<Longrightarrow> ws_manager S \<noteq> None \<and> b = w_manager w (ws_generation S)"
    and reads: "\<And>wid ids. e = EvClientNotify wid ids \<Longrightarrow> \<exists>ids'. MsgNotify (w_listener w pid wid) ids' \<in> set (ws_to_clients S)"
    and T: "ws_client T = ws_client S" "ws_manager T = ws_manager S" "ws_generation T = ws_generation S"
      "ws_to_manager T = ws_to_manager S" "set (ws_to_clients T) \<subseteq> set (ws_to_clients S)"
  shows "registration_inv w (process_ran w pid (Inr p) T)"
proof -
  let ?S = "process_ran w pid (Inr p) T"
  obtain es where es: "cp_effects p = cp_effects (ws_client S pid) @ es"
    and kind: "registers e (ws_client S pid) es p \<or> quiet_effects es \<and> keeps_copy cd e (ws_client S pid) p"
    using client_step_moves [OF step] unfolding process_moves_def by blast
  have retry: "retry_inv (ws_client S pid)" using ok by (simp add: processes_ok_def)
  have retry': "retry_inv p" using client_step_retry [OF retry step] .
  have queue: "ws_to_manager ?S = ws_to_manager S @
      (if ws_manager S = None then [] else concat (map (calls_of w pid) es))"
    using es by (simp add: process_ran_def T)
  have registering: "registering w ?S pid' wid = registering w S pid' wid +
      (if ws_manager S \<noteq> None \<and> pid' = pid then length (filter (\<lambda>e. \<exists>b. e = ManagerRegisterListener b wid) es) else 0)"
    for pid' wid
    using registrations_counted [OF named, of pid' wid pid es]
    by (cases "pid' = pid") (simp_all add: registering_def queue)
  have connects: "connects_made p wid = connects_made (ws_client S pid) wid + length (filter (is_connect wid) es)" for wid
    using es by (simp add: connects_made_def)
  have listeners: "daemon_listeners ?S = daemon_listeners S" by (simp add: daemon_listeners_def T)
  have others: "unregistered w ?S pid' wid" if "unregistered w S pid' wid" "pid' \<noteq> pid" for pid' wid
    using that subsetD [OF T(5)] by (intro unregistered_cong [OF that(1)]) (simp_all add: listeners T(1))
  have here: "(connects_made p wid = 0 \<longrightarrow> registering w ?S pid wid = 0 \<and> unregistered w ?S pid wid) \<and>
      (0 < connects_made p wid \<longrightarrow> wid \<in> set (cp_listeners p)) \<and>
      (0 < registering w ?S pid wid \<longrightarrow> registering w ?S pid wid = 1 \<and> unregistered w ?S pid wid \<and>
         (\<forall>si. cp_live p = Some (wid, si) \<longrightarrow> si_manager si = Some (w_manager w (ws_generation S))))" for wid
    using kind
  proof
    assume "registers e (ws_client S pid) es p"
    then obtain n b k wid0 si0 where e: "e = EvTask n (Some b) k"
      and made: "es = [ManagerConnect b wid0, ManagerRegisterListener b wid0]"
      and live: "cp_live (ws_client S pid) = Some (wid0, si0)" "cp_live p = Some (wid0, si0\<lparr>si_manager := Some b\<rparr>)"
      and listens: "cp_listeners p = cp_listeners (ws_client S pid) @ [wid0]"
      by (auto simp: registers_def)
    note found = finds [OF e]
    show ?thesis
    proof (cases "wid = wid0")
      case True
      have "connects_made p wid = Suc (connects_made (ws_client S pid) wid)"
        using True connects [of wid] by (simp add: made is_connect_def)
      moreover from this have made_one: "0 < connects_made p wid" by simp
      moreover have "connects_made p wid \<le> 1" using retry_invD(1) [OF retry'] .
      ultimately have "connects_made (ws_client S pid) wid = 0" by simp
      then have "registering w S pid wid = 0" "unregistered w S pid wid" using inv by (auto simp: registration_inv_def)
      then show ?thesis
        using True found live listens registering [of pid wid] made_one subsetD [OF T(5)]
        by (auto simp: made unregistered_def listeners)
    next
      case False
      then have "connects_made p wid = connects_made (ws_client S pid) wid"
        "registering w ?S pid wid = registering w S pid wid"
        using connects [of wid] registering [of pid wid] by (simp_all add: made is_connect_def)
      moreover have "unregistered w ?S pid wid" if "unregistered w S pid wid"
        using that False live T(5) by (auto simp: unregistered_def listeners)
      ultimately show ?thesis
        using inv False live listens by (auto simp: registration_inv_def)
    qed
  next
    assume "quiet_effects es \<and> keeps_copy cd e (ws_client S pid) p"
    then have quiet: "quiet_effects es" and keeps: "keeps_copy cd e (ws_client S pid) p" by blast+
    have same: "connects_made p wid = connects_made (ws_client S pid) wid"
      "registering w ?S pid wid = registering w S pid wid"
      using connects [of wid] registering [of pid wid] quiet_counts [OF quiet] by simp_all
    have un: "unregistered w ?S pid wid" if un: "unregistered w S pid wid"
    proof -
      have "\<not> (\<exists>ids. e = EvClientNotify wid ids)" using reads un by (auto simp: unregistered_def)
      then have "si_pairing_info si' = no_session" if "cp_live p = Some (wid, si')" for si'
        using keeps that un unfolding keeps_copy_def unregistered_def by (fastforce split: if_splits)
      then show ?thesis using un T(5) by (auto simp: unregistered_def listeners)
    qed
    have old: "\<exists>si. cp_live (ws_client S pid) = Some (wid, si) \<and> si_manager si' = si_manager si"
      if "cp_live p = Some (wid, si')" "0 < registering w S pid wid" for si'
    proof -
      have "connects_made (ws_client S pid) wid = 0 \<Longrightarrow> registering w S pid wid = 0"
        using inv unfolding registration_inv_def by blast
      then have "0 < connects_made (ws_client S pid) wid" using that(2) not_gr_zero by metis
      then have "wid \<noteq> cp_made (ws_client S pid)"
        using retry_invD(2) [OF retry, of wid] by auto
      then show ?thesis using keeps that(1) by (auto simp: keeps_copy_def)
    qed
    have "cp_listeners p = cp_listeners (ws_client S pid)" using keeps by (simp add: keeps_copy_def)
    then show ?thesis
      unfolding same using inv un old by (fastforce simp: registration_inv_def)
  qed
  have "ws_manager ?S = None \<longrightarrow> ws_to_manager ?S = []"
    using inv by (simp add: queue T(2) registration_inv_def)
  moreover have "registering w ?S pid' wid = registering w S pid' wid" if "pid' \<noteq> pid" for pid' wid
    using that registering by simp
  ultimately show ?thesis
    unfolding registration_inv_def
    using here inv others by (auto simp: registration_inv_def T)
qed

lemma registration_cong:
  assumes "registration_inv w S" and "ws_client S' = ws_client S" and "ws_to_manager S' = ws_to_manager S"
    and "\<And>l ids. MsgNotify l ids \<in> set (ws_to_clients S') \<Longrightarrow> MsgNotify l ids \<in> set (ws_to_clients S)"
    and "daemon_listeners S' \<subseteq> daemon_listeners S"
    and "ws_generation S' = ws_generation S" and "ws_manager S' = None \<longrightarrow> ws_manager S = None"
  shows "registration_inv w S'"
  using assms unregistered_cong [of w S _ _ S'] by (auto simp: registration_inv_def registering_def)

lemma notice_sent: "MsgNotify l ids \<in> set (sent es) \<longleftrightarrow> NotifyListener l ids \<in> set es"
proof (induction es)
  case (Cons e es)
  then show ?case by (cases e) auto
qed simp

lemma take_message_subset: "set (ws_to_clients (take_message n S)) \<subseteq> set (ws_to_clients S)"
  using in_take_message by blast

lemma Manager_Start_tells:
  assumes "Manager_Start wifi api env (new_Manager options first) = Inr m"
  shows "\<exists>es. same_pairing (new_Manager options first) es m"
proof -
  let ?start = "new_Manager options first"
  let ?m = "mg_emit [NewShillClient (device_whitelist options) (\<not> xmpp_enabled options)]
    (Manager_Stop wifi (mg_emit [PowerManagerInit] ?start)
      \<lparr>mg_task_runner := True, mg_config := True, mg_http_client := True, mg_shill_client := True\<rparr>)"
  have start: "same_pairing ?start [PowerManagerInit, NewShillClient (device_whitelist options) (\<not> xmpp_enabled options)] ?m"
    by (auto simp: same_pairing_def session_of_def Manager_Stop_def Let_def split: if_splits)
  show ?thesis
  proof (cases "wifi \<and> \<not> disable_privet options")
    case True
    have "same_pairing ?start ([PowerManagerInit, NewShillClient (device_whitelist options) (\<not> xmpp_enabled options)] @
        (if enable_ping options then [AddPingHandlers] else [])) m"
      using assms True by (auto simp: same_pairing_def session_of_def Manager_Start_def RestartWeave_def
          Manager_Stop_def new_Manager_def Let_def)
    then show ?thesis by blast
  next
    case False
    then have "CreateDevice api env ?m = Inr m"
      using assms by (auto simp: Manager_Start_def RestartWeave_def Let_def Manager_Stop_def new_Manager_def
          split: if_splits)
    then show ?thesis using CreateDevice_same start same_pairing_trans by blast
  qed
qed

lemma started_listeners:
  assumes "Manager_Start wifi api env (new_Manager options first) = Inr m"
  obtains es where "mg_effects m = [] @ es" and "\<And>l ids. NotifyListener l ids \<notin> set es" and "listeners m = {}"
  using Manager_Start_tells [OF assms] that by (auto simp: same_pairing_def new_Manager_def listeners_def)

text \<open>What the daemon does with a call it receives.\<close>

lemma called_tells:
  assumes "manager_step wifi api cd m (handle_call c :: ('dev, unit, unit) manager_event) = Inr m'"
  obtains es where "mg_effects m' = mg_effects m @ es" and "\<And>l ids. NotifyListener l ids \<notin> set es"
    and "listeners m' = listeners m \<union> {l. c = CallRegisterListener l}" and "session_of m' = session_of m"
proof (cases c)
  case (CallConnect client)
  then obtain es where "same_pairing m es m'" using assms Manager_connect_same [of client m m'] by auto
  then show ?thesis using that CallConnect by (auto simp: same_pairing_def listeners_def)
next
  case (CallRegisterListener l)
  then show ?thesis
    using that [of "[RegisterForDeathNotifications l]"] assms
    by (auto simp: registerNotificationListener_def listeners_def session_of_def insert_commute Collect_conv_if)
qed

lemma unregistered_daemon:
  assumes "unregistered w S pid wid" and "mg_effects m' = before @ es" and "ws_client S' = ws_client S"
    and "ws_to_clients S' = ws_to_clients S" and "\<And>ids. NotifyListener (w_listener w pid wid) ids \<notin> set es"
    and "w_listener w pid wid \<notin> listeners m'"
  shows "unregistered w (daemon_ran before (Inr m') S') pid wid"
  using assms by (auto simp: unregistered_def daemon_ran_hands_out [OF assms(2)] notice_sent daemon_listeners_def)

lemma move_registration:
  assumes "move w S S'" and "listeners_named w" and "processes_ok S" and "registration_inv w S"
  shows "registration_inv w S'"
  using assms
proof (induction rule: move.induct)
  case (ran pid e p)
  show ?case
  proof (rule registration_ran [OF ran(4-6,3)])
    show "ws_manager S \<noteq> None \<and> b = w_manager w (ws_generation S)" if "e = EvTask n (Some b) k" for n b k
      using ran(2) that GetService_Some [of w S b] by simp
  qed (use ran(2) in auto)
next
  case (delivered n pid wid p)
  show ?case
  proof (rule registration_ran [OF delivered(5-7,4)])
    fix i ids
    assume "message_event w (manager_of w S pid wid) wid (ws_to_clients S ! n) = EvClientNotify i ids"
    then obtain l ids' where "ws_to_clients S ! n = MsgNotify l ids'" "i = wid"
      by (auto simp: message_event_def split: client_message.splits)
    then show "\<exists>ids'. MsgNotify (w_listener w pid i) ids' \<in> set (ws_to_clients S)"
      using delivered(1,2) nth_mem [OF delivered(1)] by (auto simp: object_of_def)
  qed (use take_message_subset [of n S] in \<open>auto simp: message_event_def split: client_message.splits\<close>)
next
  case (lost n pid wid dead)
  then show ?case
    by (intro registration_cong [OF lost(7)]) (simp_all add: daemon_listeners_def in_take_message)
next
  case (called m c cs m')
  from called_tells [OF called(3)] obtain es where eff: "mg_effects m' = mg_effects m @ es"
    and quiet: "\<And>l ids. NotifyListener l ids \<notin> set es"
    and listeners: "listeners m' = listeners m \<union> {l. c = CallRegisterListener l}"
    by metis
  let ?S = "daemon_ran (mg_effects m) (Inr m') (S\<lparr>ws_to_manager := cs\<rparr>)"
  have registering: "registering w S pid wid = registering w ?S pid wid +
      (if c = CallRegisterListener (w_listener w pid wid) then 1 else 0)" for pid wid
    by (simp add: registering_def called(2))
  have keeps: "unregistered w ?S pid wid"
    if "unregistered w S pid wid" "c \<noteq> CallRegisterListener (w_listener w pid wid)" for pid wid
    using that called(1) quiet listeners
    by (intro unregistered_daemon [OF that(1) eff]) (auto simp: unregistered_def daemon_listeners_def)
  show ?case
    unfolding registration_inv_def
  proof (intro conjI allI)
    fix pid wid
    have inv: "connects_made (ws_client S pid) wid = 0 \<Longrightarrow> registering w S pid wid = 0 \<and> unregistered w S pid wid"
      "0 < registering w S pid wid \<Longrightarrow> registering w S pid wid = 1 \<and> unregistered w S pid wid \<and>
           (\<forall>si. cp_live (ws_client S pid) = Some (wid, si) \<longrightarrow>
              si_manager si = Some (w_manager w (ws_generation S)))"
      "0 < connects_made (ws_client S pid) wid \<longrightarrow> wid \<in> set (cp_listeners (ws_client S pid))"
      using called(6) unfolding registration_inv_def by blast+
    show "connects_made (ws_client ?S pid) wid = 0 \<longrightarrow> registering w ?S pid wid = 0 \<and> unregistered w ?S pid wid"
      using inv(1) registering [of pid wid] keeps [of pid wid] by (auto split: if_splits)
    show "0 < connects_made (ws_client ?S pid) wid \<longrightarrow> wid \<in> set (cp_listeners (ws_client ?S pid))"
      using inv(3) by simp
    show "0 < registering w ?S pid wid \<longrightarrow> registering w ?S pid wid = 1 \<and> unregistered w ?S pid wid \<and>
           (\<forall>si. cp_live (ws_client ?S pid) = Some (wid, si) \<longrightarrow>
              si_manager si = Some (w_manager w (ws_generation ?S)))"
      using inv(2) registering [of pid wid] keeps [of pid wid] by (auto split: if_splits)
  qed simp
next
  case (daemon m gone es m' unregistered)
  have eff: "mg_effects m' = mg_effects m @ es" using hands_outD(1) [OF daemon(2)] .
  have keeps: "System_Pairing.unregistered w (daemon_ran (mg_effects m) (Inr m') S) pid wid"
    if "System_Pairing.unregistered w S pid wid" for pid wid
    using that daemon(1,6)
    by (intro unregistered_daemon [OF that eff]) (auto simp: unregistered_def daemon_listeners_def tells_def)
  then show ?case using daemon(1,10) by (auto simp: registration_inv_def registering_def)
next
  case died
  then have "unregistered w (daemon_died S) pid wid" if "unregistered w S pid wid" for pid wid
    using that by (intro unregistered_cong [OF that]) (simp_all add: daemon_listeners_def)
  moreover have "ws_to_manager (daemon_died S) = []"
    using died(3) by (auto simp: daemon_died_def registration_inv_def split: option.split)
  ultimately show ?case using died(3) by (auto simp: registration_inv_def registering_def)
next
  case (started first env options m)
  from started_listeners [OF started(3)] obtain es where eff: "mg_effects m = [] @ es"
    and quiet: "\<And>l ids. NotifyListener l ids \<notin> set es" "listeners m = {}" by metis
  let ?S = "daemon_ran [] (Inr m) (S\<lparr>ws_generation := Suc (ws_generation S)\<rparr>)"
  have "unregistered w ?S pid wid" if "unregistered w S pid wid" for pid wid
    using that quiet by (intro unregistered_daemon [OF that eff]) simp_all
  moreover have "ws_to_manager S = []" using started(1,6) by (simp add: registration_inv_def)
  ultimately show ?case using started(6) by (auto simp: registration_inv_def registering_def)
next
  case not_started
  have same: "unregistered w (S\<lparr>ws_generation := Suc (ws_generation S)\<rparr>) pid wid = unregistered w S pid wid" for pid wid
    by (simp add: unregistered_def daemon_listeners_def)
  have "ws_to_manager S = []" using not_started(1,4) by (simp add: registration_inv_def)
  then show ?case using not_started(4) by (auto simp: registration_inv_def registering_def same)
qed (auto elim!: registration_cong simp: daemon_listeners_def listeners_def)

section \<open>After the listener is registered\<close>

text \<open>A notification of a value is on its way to the instance.\<close>

definition notice_due :: "('dev, 'v, 'd) world \<Rightarrow> ('dev, 'w) weave_system \<Rightarrow> nat \<Rightarrow> nat \<Rightarrow> int \<Rightarrow> bool" where
  "notice_due w S pid wid nid \<longleftrightarrow>
     (\<exists>ids. nid \<in> set ids \<and> MsgNotify (w_listener w pid wid) ids \<in> set (ws_to_clients S))"

text \<open>What the client reads of a value.\<close>

definition reading :: "('dev, 'v, 'd) world \<Rightarrow> 'dev Manager \<Rightarrow> int \<Rightarrow> string" where
  "reading w m nid = ToString (w_codec w) (ToString16 (w_codec w) (pairing_value m nid))"

text \<open>Instance \<open>wid\<close> of process \<open>pid\<close> follows the session of the daemon's \<open>g\<close>-th manager, while both live.\<close>

definition follows :: "('dev, 'v, 'd) world \<Rightarrow> nat \<Rightarrow> nat \<Rightarrow> nat \<Rightarrow> ('dev, 'w) weave_system \<Rightarrow> bool" where
  "follows w g pid wid S \<longleftrightarrow> g \<le> ws_generation S \<and> 0 < connects_made (ws_client S pid) wid \<and>
     wid \<in> set (cp_listeners (ws_client S pid)) \<and>
     (ws_generation S = g \<longrightarrow> pid \<notin> set (ws_dead S) \<longrightarrow>
       (\<forall>m. ws_manager S = Some m \<longrightarrow> w_listener w pid wid \<in> listeners m \<and>
          (\<forall>si. cp_live (ws_client S pid) = Some (wid, si) \<longrightarrow> si_manager si = Some (w_manager w g) \<and>
             (\<forall>nid \<in> pairing_ids. info_value (si_pairing_info si) nid = reading w m nid \<or>
                notice_due w S pid wid nid))))"

lemma follows_cong:
  assumes "follows w g pid wid S" and "ws_client S' = ws_client S" and "ws_generation S \<le> ws_generation S'"
    and "set (ws_dead S) \<subseteq> set (ws_dead S')"
    and "\<And>ids. pid \<notin> set (ws_dead S') \<Longrightarrow> MsgNotify (w_listener w pid wid) ids \<in> set (ws_to_clients S) \<Longrightarrow>
      MsgNotify (w_listener w pid wid) ids \<in> set (ws_to_clients S')"
    and "\<And>m. ws_manager S' = Some m \<Longrightarrow> ws_generation S' = ws_generation S \<Longrightarrow>
      \<exists>m0. ws_manager S = Some m0 \<and> listeners m0 = listeners m \<and> session_of m0 = session_of m"
  shows "follows w g pid wid S'"
proof -
  have same: "reading w m nid = reading w m0 nid" if "session_of m0 = session_of m" for m m0 nid
    using that by (simp add: reading_def session_of_def pairing_value_def)
  have due: "notice_due w S' pid wid nid" if "notice_due w S pid wid nid" "pid \<notin> set (ws_dead S')" for nid
    using that assms(5) by (auto simp: notice_due_def)
  have "w_listener w pid wid \<in> listeners m \<and>
      (\<forall>si. cp_live (ws_client S pid) = Some (wid, si) \<longrightarrow> si_manager si = Some (w_manager w g) \<and>
         (\<forall>nid \<in> pairing_ids. info_value (si_pairing_info si) nid = reading w m nid \<or> notice_due w S' pid wid nid))"
    if m: "ws_manager S' = Some m" and gen: "ws_generation S' = g" and alive: "pid \<notin> set (ws_dead S')" for m
  proof -
    have gen0: "ws_generation S = g" using assms(1,3) gen by (simp add: follows_def)
    obtain m0 where m0: "ws_manager S = Some m0" "listeners m0 = listeners m" "session_of m0 = session_of m"
      using assms(6) [OF m] gen gen0 by auto
    have alive0: "pid \<notin> set (ws_dead S)" using assms(4) alive by blast
    have "w_listener w pid wid \<in> listeners m0 \<and>
        (\<forall>si. cp_live (ws_client S pid) = Some (wid, si) \<longrightarrow> si_manager si = Some (w_manager w g) \<and>
           (\<forall>nid \<in> pairing_ids. info_value (si_pairing_info si) nid = reading w m0 nid \<or> notice_due w S pid wid nid))"
      using assms(1) gen0 alive0 m0(1) by (simp add: follows_def)
    then show ?thesis unfolding m0(2) same [OF m0(3)] using due [OF _ alive] by blast
  qed
  then show ?thesis using assms(1-3) by (simp add: follows_def)
qed

text \<open>
  A handler of a process; \<open>T\<close> is \<open>S\<close>, or \<open>S\<close> without the message that is handled.  The notifications
  for the instance stay in flight, but for the one that is read.
\<close>

lemma follows_ran:
  fixes S :: "('dev, 'w) weave_system"
  defines "reads \<equiv> \<lambda>(S :: ('dev, 'w) weave_system) w pid wid ids.
    EvClientNotify wid (map (\<lambda>nid. (nid, getter_reply w (manager_of w S pid wid) nid)) ids)"
  assumes ok: "processes_ok S" and inv: "follows w g pid wid S"
    and step: "client_step (w_codec w) (w_dict_Set w) (ws_client S pid') e = Inr p"
    and finds: "\<And>n b k. e = EvTask n (Some b) k \<Longrightarrow> b = w_manager w (ws_generation S)"
    and notified: "\<And>ids'. pid' = pid \<Longrightarrow> e = EvClientNotify wid ids' \<Longrightarrow> \<exists>ids. e = reads S w pid wid ids"
    and kept: "\<And>ids. MsgNotify (w_listener w pid wid) ids \<in> set (ws_to_clients S) \<Longrightarrow>
      MsgNotify (w_listener w pid wid) ids \<in> set (ws_to_clients T) \<or> pid' = pid \<and> e = reads S w pid wid ids"
    and T: "ws_client T = ws_client S" "ws_manager T = ws_manager S" "ws_generation T = ws_generation S"
      "ws_dead T = ws_dead S"
  shows "follows w g pid wid (process_ran w pid' (Inr p) T)"
proof (cases "pid' = pid")
  case False
  then have "notice_due w (process_ran w pid' (Inr p) T) pid wid nid" if "notice_due w S pid wid nid" for nid
    using that kept by (auto simp: notice_due_def)
  then show ?thesis using inv False by (simp add: follows_def T) blast
next
  case True
  let ?p = "ws_client S pid"
  obtain es where es: "cp_effects p = cp_effects ?p @ es"
    and kind: "registers e ?p es p \<or> quiet_effects es \<and> keeps_copy (w_codec w) e ?p p"
    using client_step_moves [OF step] True unfolding process_moves_def by blast
  have "connects_made ?p wid \<le> connects_made p wid" using es by (simp add: connects_made_def)
  moreover have "set (cp_listeners ?p) \<subseteq> set (cp_listeners p)"
    using kind by (auto simp: registers_def keeps_copy_def)
  moreover have "si_manager si' = Some (w_manager w g) \<and> (\<forall>nid \<in> pairing_ids.
      info_value (si_pairing_info si') nid = reading w m nid \<or> notice_due w (process_ran w pid (Inr p) T) pid wid nid)"
    if gen: "ws_generation S = g" and alive: "pid \<notin> set (ws_dead S)" and m: "ws_manager S = Some m"
      and live': "cp_live p = Some (wid, si')" for m si'
  proof -
    have before: "si_manager si = Some (w_manager w g) \<and> (\<forall>nid \<in> pairing_ids.
        info_value (si_pairing_info si) nid = reading w m nid \<or> notice_due w S pid wid nid)"
      if "cp_live ?p = Some (wid, si)" for si
      using inv gen alive m that by (simp add: follows_def)
    have due: "notice_due w (process_ran w pid (Inr p) T) pid wid nid"
      if "notice_due w S pid wid nid" "\<And>ids. e = reads S w pid wid ids \<Longrightarrow> nid \<notin> set ids" for nid
      using that kept by (auto simp: notice_due_def)
    show ?thesis
      using kind
    proof
      assume "registers e ?p es p"
      then obtain n b k si where e: "e = EvTask n (Some b) k" and live: "cp_live ?p = Some (wid, si)"
        and si': "si' = si\<lparr>si_manager := Some b\<rparr>"
        using live' by (auto simp: registers_def)
      then show ?thesis using before [OF live] finds [OF e] gen due by (auto simp: reads_def)
    next
      assume "quiet_effects es \<and> keeps_copy (w_codec w) e ?p p"
      moreover have "wid \<noteq> cp_made ?p"
        using inv retry_invD(2) [of ?p wid] ok by (auto simp: follows_def processes_ok_def)
      ultimately obtain si where live: "cp_live ?p = Some (wid, si)" and manager: "si_manager si' = si_manager si"
        and copy: "if \<exists>ids. e = EvClientNotify wid ids \<and> wid \<in> set (cp_listeners ?p)
           then \<exists>ids si1 changed. e = EvClientNotify wid ids \<and> si_pairing_info si' = si_pairing_info si1 \<and>
             notification_loop (w_codec w) ids si False = Inr (si1, changed)
           else si_pairing_info si' = si_pairing_info si"
        using live' unfolding keeps_copy_def by blast
      show ?thesis
      proof (cases "\<exists>ids. e = EvClientNotify wid ids")
        case False
        then show ?thesis using before [OF live] manager copy due by (auto simp: reads_def)
      next
        case notify: True
        then obtain ids where e: "e = reads S w pid wid ids" using notified [OF True] by blast
        have "manager_of w S pid wid = Some m"
          using before [OF live] live gen m by (simp add: manager_of_def lock_def)
        then have e': "e = EvClientNotify wid (map (\<lambda>nid. (nid, pairing_reply (w_codec w) m nid)) ids)"
          by (simp add: e reads_def getter_reply_def)
        moreover have "wid \<in> set (cp_listeners ?p)" using inv by (simp add: follows_def)
        ultimately obtain si1 changed where same: "si_pairing_info si' = si_pairing_info si1"
          and loop: "notification_loop (w_codec w) (map (\<lambda>nid. (nid, pairing_reply (w_codec w) m nid)) ids) si False =
            Inr (si1, changed)"
          using copy by auto
        have only: "ids' = ids" if "e = reads S w pid wid ids'" for ids'
          using that map_injective [of "\<lambda>nid. (nid, getter_reply w (manager_of w S pid wid) nid)" ids' ids]
          by (simp add: e reads_def inj_on_def)
        show ?thesis
        proof (intro conjI ballI)
          fix nid
          assume nid: "nid \<in> pairing_ids"
          show "info_value (si_pairing_info si') nid = reading w m nid \<or>
              notice_due w (process_ran w pid (Inr p) T) pid wid nid"
            using reading_values [OF loop nid] before [OF live] nid due only
            by (auto simp: same reading_def split: if_splits)
        qed (use before [OF live] manager in simp)
      qed
    qed
  qed
  ultimately show ?thesis
    using inv True by (auto simp: follows_def T)
qed

lemma follows_daemon:
  assumes inv: "follows w g pid wid S" and m: "ws_manager S = Some m" and eff: "mg_effects m' = mg_effects m @ es"
    and S0: "ws_client S0 = ws_client S" "ws_generation S0 = ws_generation S" "ws_dead S0 = ws_dead S"
      "ws_to_clients S0 = ws_to_clients S"
    and stays: "pid \<notin> set (ws_dead S) \<Longrightarrow> w_listener w pid wid \<in> listeners m \<Longrightarrow> w_listener w pid wid \<in> listeners m'"
    and told: "\<And>nid. nid \<in> pairing_ids \<Longrightarrow> pairing_value m' nid \<noteq> pairing_value m nid \<Longrightarrow>
      w_listener w pid wid \<in> listeners m \<Longrightarrow>
      \<exists>ids. nid \<in> set ids \<and> NotifyListener (w_listener w pid wid) ids \<in> set es"
  shows "follows w g pid wid (daemon_ran (mg_effects m) (Inr m') S0)"
proof -
  let ?S = "daemon_ran (mg_effects m) (Inr m') S0"
  have messages: "ws_to_clients ?S = ws_to_clients S @ sent es" using daemon_ran_hands_out(1) [OF eff, of S0] S0(4) by simp
  have "info_value info nid = reading w m' nid \<or> notice_due w ?S pid wid nid"
    if "info_value info nid = reading w m nid \<or> notice_due w S pid wid nid" "nid \<in> pairing_ids"
      "w_listener w pid wid \<in> listeners m" for nid info
  proof (cases "pairing_value m' nid = pairing_value m nid")
    case True
    then show ?thesis using that(1) by (auto simp: reading_def notice_due_def messages)
  next
    case False
    then show ?thesis using told [OF that(2) _ that(3)] by (auto simp: notice_due_def messages notice_sent)
  qed
  then show ?thesis using inv m stays by (simp add: follows_def S0)
qed

lemma served_fields [simp]:
  "listeners (m\<lparr>mg_device := d, mg_services := sv\<rparr>) = listeners m"
  "session_of (m\<lparr>mg_device := d, mg_services := sv\<rparr>) = session_of m"
  by (simp_all add: listeners_def session_of_def)

lemma move_follows:
  assumes "move w S S'" and "names_ok w" and "listeners_named w" and "processes_ok S" and "follows w g pid0 wid0 S"
  shows "follows w g pid0 wid0 S'"
  using assms
proof (induction rule: move.induct)
  case (killed pid)
  then show ?case by (intro follows_cong [OF killed(4)]) auto
next
  case (ran pid e p)
  show ?case
  proof (rule follows_ran [OF ran(6,7,3)])
    show "b = w_manager w (ws_generation S)" if "e = EvTask n (Some b) k" for n b k
      using ran(2) that GetService_Some [of w S b] by simp
  qed (use ran(2) in auto)
next
  case (delivered n pid wid p)
  let ?msg = "ws_to_clients S ! n" and ?e = "message_event w (manager_of w S pid wid) wid (ws_to_clients S ! n)"
  have event: "?e = EvClientNotify i ids' \<longleftrightarrow> i = wid \<and> (\<exists>l ids. ?msg = MsgNotify l ids \<and>
      ids' = map (\<lambda>nid. (nid, getter_reply w (manager_of w S pid wid) nid)) ids)" for i ids'
    by (auto simp: message_event_def split: client_message.split)
  show ?case
  proof (rule follows_ran [OF delivered(7,8,4)])
    show "\<exists>ids. ?e = EvClientNotify wid0 (map (\<lambda>nid. (nid, getter_reply w (manager_of w S pid0 wid0) nid)) ids)"
      if "pid = pid0" "?e = EvClientNotify wid0 ids'" for ids'
      using that(2) unfolding event using that(1) by auto
    fix ids
    assume here: "MsgNotify (w_listener w pid0 wid0) ids \<in> set (ws_to_clients S)"
    have split: "set (ws_to_clients S) = insert ?msg (set (ws_to_clients (take_message n S)))"
      by (subst id_take_nth_drop [OF delivered(1)]) (simp add: take_message_def)
    show "MsgNotify (w_listener w pid0 wid0) ids \<in> set (ws_to_clients (take_message n S)) \<or>
        pid = pid0 \<and> ?e = EvClientNotify wid0 (map (\<lambda>nid. (nid, getter_reply w (manager_of w S pid0 wid0) nid)) ids)"
    proof (cases "?msg = MsgNotify (w_listener w pid0 wid0) ids")
      case True
      then have "pid = pid0" "wid = wid0"
        using delivered(2,6) by (auto simp: object_of_def listeners_named_def)
      then show ?thesis using True by (simp add: message_event_def)
    next
      case False
      then show ?thesis using here split by auto
    qed
  qed (auto simp: message_event_def split: client_message.splits)
next
  case (lost n pid wid dead)
  have split: "set (ws_to_clients S) = insert (ws_to_clients S ! n) (set (ws_to_clients (take_message n S)))"
    by (subst id_take_nth_drop [OF lost(1)]) (simp add: take_message_def)
  show ?case
  proof (rule follows_cong [OF lost(8)])
    fix ids
    assume alive: "pid0 \<notin> set (ws_dead (take_message n S\<lparr>ws_dead := dead\<rparr>))"
      and "MsgNotify (w_listener w pid0 wid0) ids \<in> set (ws_to_clients S)"
    moreover have "ws_to_clients S ! n \<noteq> MsgNotify (w_listener w pid0 wid0) ids"
      using lost(2,3) alive listeners_namedD [OF lost(6), of pid0 wid0 pid wid] by (auto simp: object_of_def)
    ultimately show "MsgNotify (w_listener w pid0 wid0) ids \<in> set (ws_to_clients (take_message n S\<lparr>ws_dead := dead\<rparr>))"
      using split by auto
  qed (use lost(4) in auto)
next
  case (called m c cs m')
  from called_tells [OF called(3)] obtain es where eff: "mg_effects m' = mg_effects m @ es"
    and listeners: "listeners m' = listeners m \<union> {l. c = CallRegisterListener l}" "session_of m' = session_of m"
    by metis
  then have "pairing_value m' nid = pairing_value m nid" for nid by (simp add: session_of_def pairing_value_def)
  then show ?case using listeners by (intro follows_daemon [OF called(7,1) eff]) simp_all
next
  case (daemon m gone es m' unregistered)
  have eff: "mg_effects m' = mg_effects m @ es" using hands_outD(1) [OF daemon(2)] .
  show ?case
  proof (rule follows_daemon [OF daemon(11,1) eff])
    assume alive: "pid0 \<notin> set (ws_dead S)" and l: "w_listener w pid0 wid0 \<in> listeners m"
    then have "w_listener w pid0 wid0 \<notin> unregistered"
      using daemon(7) alive listeners_namedD [OF daemon(9), of pid0 wid0] unfolding dead_listeners_def by blast
    then show "w_listener w pid0 wid0 \<in> listeners m'" using daemon(6) l by (auto simp: tells_def)
  qed (use daemon(6) in \<open>auto simp: tells_def\<close>)
next
  case died
  then show ?case by (intro follows_cong [OF died(4)]) auto
next
  case (started first env options m)
  then show ?case by (simp add: follows_def)
qed (auto elim!: follows_cong)

section \<open>Properties\<close>

text \<open>The invariants of a run, from the start and from the registration on.\<close>

lemma sys_moves_keep:
  assumes "(move w)\<^sup>*\<^sup>* S S'" and "names_ok w" and "listeners_named w" and "sys_inv w S"
  shows "sys_inv w S' \<and> (registration_inv w S \<longrightarrow> registration_inv w S') \<and>
    (follows w g pid wid S \<longrightarrow> follows w g pid wid S') \<and> ((\<forall>i. told (ws_client S i)) \<longrightarrow> (\<forall>i. told (ws_client S' i)))"
  using assms(1)
proof (induction rule: rtranclp_induct)
  case (step S1 S2)
  have "(\<forall>i. told (ws_client S1 i)) \<longrightarrow> (\<forall>i. told (ws_client S2 i))"
    using step(2) by (induction rule: move.induct) (auto dest: client_step_told)
  moreover have "sys_inv w S2" using sys_inv_move [OF assms(2) _ step(2)] step(3) by blast
  ultimately show ?case
    using step(3) move_registration [OF step(2) assms(3)] move_follows [OF step(2) assms(2,3)] sys_invD(1)
    by blast
qed (use assms(4) in simp)

lemma sys_run_keeps:
  fixes es :: "('dev, 'pt, 'role, 'w, 'v, 'd) system_event list"
  assumes "names_ok w" and "listeners_named w" and "sys_inv w S"
  shows "sys_inv w (sys_run w es S) \<and> (registration_inv w S \<longrightarrow> registration_inv w (sys_run w es S)) \<and>
    (follows w g pid wid S \<longrightarrow> follows w g pid wid (sys_run w es S)) \<and>
    ((\<forall>i. told (ws_client S i)) \<longrightarrow> (\<forall>i. told (ws_client (sys_run w es S) i)))"
  using assms(3)
proof (induction es arbitrary: S)
  case (Cons e es)
  have "(move w)\<^sup>*\<^sup>* S (sys_step w e S)" using sys_step_moves sys_invD(2) [OF Cons.prems] by blast
  from sys_moves_keep [OF this assms(1,2) Cons.prems, of g pid wid] Cons.IH [of "sys_step w e S"]
  show ?case by (auto simp: sys_run_def)
qed (simp add: sys_run_def)

lemma registration_inv_start: "registration_inv w new_system"
  by (simp add: registration_inv_def new_system_def registering_def unregistered_def daemon_listeners_def
      connects_made_def fresh_process)

lemma told_at_start: "told (ws_client new_system i)"
  by (simp add: new_system_def Service_Connect_def told_start)

lemma registered_follows:
  assumes inv: "registration_inv w S" and m: "ws_manager S = Some m"
    and call: "ws_to_manager S = CallRegisterListener (w_listener w pid wid) # calls"
    and session: "session_of m = no_session" and empty: "text_ok (w_codec w) ''''"
  shows "follows w (ws_generation S) pid wid
    (sys_step w (SysReceive :: ('dev, 'pt, 'role, 'w, 'v, 'd) system_event) (S :: ('dev, 'w) weave_system))"
proof -
  have "0 < registering w S pid wid" by (simp add: registering_def call)
  then have un: "unregistered w S pid wid" and "connects_made (ws_client S pid) wid \<noteq> 0"
    and current: "\<And>si. cp_live (ws_client S pid) = Some (wid, si) \<Longrightarrow> si_manager si = Some (w_manager w (ws_generation S))"
    using inv unfolding registration_inv_def by (metis less_irrefl)+
  then have made: "0 < connects_made (ws_client S pid) wid" "wid \<in> set (cp_listeners (ws_client S pid))"
    using inv unfolding registration_inv_def by simp_all
  let ?m = "registerNotificationListener (w_listener w pid wid) m"
  let ?S = "daemon_ran (mg_effects m) (Inr ?m) (S\<lparr>ws_to_manager := calls\<rparr>)"
  have step: "sys_step w (SysReceive :: ('dev, 'pt, 'role, 'w, 'v, 'd) system_event) S = ?S"
    by (simp add: m call daemon_step_def)
  have "info_value no_session nid = reading w ?m nid" if "nid \<in> pairing_ids" for nid
  proof -
    have "pairing_value ?m nid = pairing_value m nid"
      by (simp add: pairing_value_def registerNotificationListener_def)
    moreover have "info_value no_session nid = pairing_value m nid"
      using session_of_values [of no_session m] session that by simp
    moreover have "info_value no_session nid = ''''" by (simp add: info_value_def no_session_def)
    ultimately show ?thesis using ToString_ToString16 [OF empty] by (simp add: reading_def)
  qed
  moreover have "w_listener w pid wid \<in> listeners ?m"
    by (simp add: listeners_def registerNotificationListener_def)
  ultimately show ?thesis
    unfolding step follows_def using made current un by (auto simp: unregistered_def)
qed

text \<open>
  Property C25.  A client follows the daemon's pairing session, over any run of the whole system:
  if its listener was registered while there was no session, then, as long as that daemon, the process
  and the instance live, every pairing value of the client's copy is the manager's or a notification
  of it is on its way; so the copy is exact whenever no notification for the listener is.  The
  application knows what the client knows: if the copy is a complete session and the instance has a
  callback, the last thing any pairing callback was told is exactly this session.
\<close>

theorem pairing_session_is_mirrored:
  fixes es1 es2 :: "('dev, 'pt, 'role, 'w, 'v, 'd) system_event list" and S1 S :: "('dev, 'w) weave_system"
  assumes "names_ok w" and "listeners_named w"
    and "S1 = sys_run w es1 new_system"
    and "ws_manager S1 = Some m1"
    and "ws_to_manager S1 = CallRegisterListener (w_listener w pid wid) # calls"
    and "session_of m1 = no_session"
    and "S = sys_run w (SysReceive # es2) S1"
    and "ws_generation S = ws_generation S1" and "ws_manager S = Some m"
    and "pid \<notin> set (ws_dead S)" and "lock (ws_client S pid) wid = Some si"
    and "text_ok (w_codec w) ''''" and "pairing_texts_ok (w_codec w) m"
  shows "(\<forall>nid \<in> pairing_ids. info_value (si_pairing_info si) nid = pairing_value m nid \<or>
      (\<exists>ids. nid \<in> set ids \<and> MsgNotify (w_listener w pid wid) ids \<in> set (ws_to_clients S))) \<and>
    ((\<forall>ids. MsgNotify (w_listener w pid wid) ids \<notin> set (ws_to_clients S)) \<longrightarrow> si_pairing_info si = session_of m) \<and>
    (\<forall>cb. si_pairing_info_callback si = Some cb \<longrightarrow> pairing_complete (si_pairing_info si) \<longrightarrow>
      pairing_runs (cp_effects (ws_client S pid)) \<noteq> [] \<and>
      last (pairing_runs (cp_effects (ws_client S pid))) = (cb, Some (si_pairing_info si)))"
proof -
  have start: "sys_inv w S1" "registration_inv w S1" "\<forall>i. told (ws_client S1 i)"
    using sys_run_keeps [OF assms(1,2) sys_inv_start, of es1] registration_inv_start told_at_start
    unfolding assms(3) by blast+
  let ?S2 = "sys_step w (SysReceive :: ('dev, 'pt, 'role, 'w, 'v, 'd) system_event) S1"
  have S: "S = sys_run w es2 ?S2" using assms(7) by (simp add: sys_run_def)
  have "sys_run w [SysReceive :: ('dev, 'pt, 'role, 'w, 'v, 'd) system_event] S1 = ?S2" by (simp add: sys_run_def)
  with sys_run_keeps [OF assms(1,2) start(1), of "[SysReceive :: ('dev, 'pt, 'role, 'w, 'v, 'd) system_event]"] start(3)
  have second: "sys_inv w ?S2" "\<forall>i. told (ws_client ?S2 i)" by auto
  have "follows w (ws_generation S1) pid wid ?S2"
    using registered_follows [OF start(2) assms(4-6,12)] .
  with sys_run_keeps [OF assms(1,2) second(1), of es2 "ws_generation S1" pid wid] second(2)
  have follows: "follows w (ws_generation S1) pid wid S" and told: "told (ws_client S pid)"
    unfolding S by blast+
  have live: "cp_live (ws_client S pid) = Some (wid, si)" using assms(11) by (rule locked)
  have "reading w m nid = pairing_value m nid" if "nid \<in> pairing_ids" for nid
    using assms(13) that by (simp add: reading_def pairing_texts_ok_def ToString_ToString16)
  then have vals: "\<forall>nid \<in> pairing_ids. info_value (si_pairing_info si) nid = pairing_value m nid \<or> notice_due w S pid wid nid"
    using follows assms(8-10) live by (auto simp: follows_def)
  have "si_pairing_info si = session_of m"
    if "\<forall>ids. MsgNotify (w_listener w pid wid) ids \<notin> set (ws_to_clients S)"
    using vals that by (auto simp: session_of_values notice_due_def)
  then show ?thesis using vals told live unfolding told_def notice_due_def by blast
qed

text \<open>A client connects, and libweave starts a session and changes it before the client has read it.\<close>

definition registration_run :: "sample_event list" where
  "registration_run = [SysDaemonStart sample_env sample_manager_options 100, SysTask 0 0 True,
     SysManager (MeWebServerReady sample_env), SysReceive]"

definition pairing_run :: "sample_event list" where
  "pairing_run = [SysDeliver 0 0 0, SysApp 0 0 (AppSetPairingInfoListener (Some 7)),
     SysManager (MePairingStart ''s1'' ''pinCode'' [49]), SysManager (MePairingStart ''s2'' ''pinCode'' [50]),
     SysDeliver 0 0 0, SysDeliver 0 0 0]"

definition paired_system :: "(string, nat) weave_system" where
  "paired_system = sys_run sample_world (SysReceive # pairing_run) (sample_run registration_run)"

lemma registration_run_ends:
  "map_option session_of (ws_manager (sample_run registration_run)) = Some no_session \<and>
   ws_to_manager (sample_run registration_run) = [CallRegisterListener (w_listener sample_world 0 0)] \<and>
   ws_generation (sample_run registration_run) = 1"
  by (unfold registration_run_def) code_simp

lemma paired_system_state:
  "map_option session_of (ws_manager paired_system) =
     Some \<lparr>session_id = ''s2'', pairing_mode = ''pinCode'', pairing_code = ''2''\<rparr> \<and>
   ws_to_clients paired_system = [] \<and> ws_dead paired_system = [] \<and> ws_generation paired_system = 1 \<and>
   map_option si_pairing_info_callback (lock (ws_client paired_system 0) 0) = Some (Some 7)"
  by (unfold paired_system_def registration_run_def pairing_run_def) code_simp

theorem pairing_session_is_mirrored_witness:
  "\<exists>si. lock (ws_client paired_system 0) 0 = Some si \<and>
     si_pairing_info si = \<lparr>session_id = ''s2'', pairing_mode = ''pinCode'', pairing_code = ''2''\<rparr> \<and>
     last (pairing_runs (cp_effects (ws_client paired_system 0))) = (7, Some (si_pairing_info si))"
proof -
  obtain m1 where m1: "ws_manager (sample_run registration_run) = Some m1" "session_of m1 = no_session"
    and call: "ws_to_manager (sample_run registration_run) = CallRegisterListener (w_listener sample_world 0 0) # []"
    using registration_run_ends by auto
  obtain m si where m: "ws_manager paired_system = Some m"
      "session_of m = \<lparr>session_id = ''s2'', pairing_mode = ''pinCode'', pairing_code = ''2''\<rparr>"
    and si: "lock (ws_client paired_system 0) 0 = Some si" "si_pairing_info_callback si = Some 7"
    and quiet: "ws_to_clients paired_system = []" "0 \<notin> set (ws_dead paired_system)"
      "ws_generation paired_system = ws_generation (sample_run registration_run)"
    using paired_system_state registration_run_ends by auto
  have named: "listeners_named sample_world" by (simp add: listeners_named_def sample_world_def)
  have texts: "text_ok (w_codec sample_world) ''''" "pairing_texts_ok (w_codec sample_world) m"
    using m(2) by (auto simp: pairing_texts_ok_def pairing_ids_def pairing_value_def session_of_def sample_world_def
        sample_text_ok notification_id_defs)
  note mirrored = pairing_session_is_mirrored [OF sample_names named refl m1(1) call m1(2) paired_system_def
      quiet(3) m(1) quiet(2) si(1) texts]
  then have "si_pairing_info si = session_of m" by (simp add: quiet(1))
  moreover from this have "pairing_complete (si_pairing_info si)" by (simp add: m(2) pairing_complete_def)
  ultimately show ?thesis using mirrored si m(2) by auto
qed

end
