(* ===== verification/Unit_Tests.thy ===== *)
theory Unit_Tests
  imports Binder_Command_Proxy Buffet_Config
begin

text \<open>
  The repository's unit tests, run on the model: \<^verbatim>\<open>buffet/binder_command_proxy_unittest.cc\<close>
  and \<^verbatim>\<open>buffet/buffet_config_unittest.cc\<close>.  A test is a boolean, the conjunction of its
  expectations.  The mock command keeps the calls it still expects; like a strict mock it fails on
  any other.  The JSON, Base64 and enumeration libraries remain arguments, and the hypotheses of the
  properties say what they do on the texts the tests use.
\<close>

section \<open>The mock command\<close>

datatype 'd mock_call =
    MockSetProgress 'd
  | MockComplete 'd
  | MockAbort string string
  | MockCancel
  | MockPause

record 'd mock_command =
  expected_calls :: "'d mock_call list"
  unexpected_call :: bool

text \<open>\<open>WillOnce(Return(true))\<close> for an expected call.\<close>

definition mock_answer :: "'d mock_call \<Rightarrow> 'd mock_command \<Rightarrow> 'd mock_command command_reply" where
  "mock_answer call m =
     (if call \<in> set (expected_calls m) then (m\<lparr>expected_calls := remove1 call (expected_calls m)\<rparr>, True, None)
      else (m\<lparr>unexpected_call := True\<rparr>, False, Some ''unexpected call''))"

text \<open>\<open>ExpectError(code, message)\<close> looks at the error itself, the last one added.\<close>

definition mock_error :: "weave_error_ptr \<Rightarrow> 'd mock_call" where
  "mock_error e = (case e of [] \<Rightarrow> MockAbort '''' '''' | a # _ \<Rightarrow> MockAbort (wa_code a) (wa_message a))"

definition kTestCommandId :: string where
  "kTestCommandId = ''cmd_1''"

text \<open>The expectations of \<open>SetUp\<close>, with the names \<open>EnumToString\<close> gives.\<close>

definition mock_api :: "'d \<Rightarrow> 'd \<Rightarrow> string \<Rightarrow> string \<Rightarrow> ('d mock_command, 'd) weave_command_api" where
  "mock_api expected_result_dict empty_dict kQueued kLocal =
     \<lparr>cmd_GetID = (\<lambda>_. kTestCommandId), cmd_GetName = (\<lambda>_. ''robot.jump''),
      cmd_GetComponent = (\<lambda>_. ''myComponent''), cmd_GetState = (\<lambda>_. kQueued),
      cmd_GetOrigin = (\<lambda>_. kLocal), cmd_GetParameters = (\<lambda>_. expected_result_dict),
      cmd_GetProgress = (\<lambda>_. empty_dict), cmd_GetResults = (\<lambda>_. empty_dict),
      cmd_SetProgress = (\<lambda>d. mock_answer (MockSetProgress d)),
      cmd_Complete = (\<lambda>d. mock_answer (MockComplete d)),
      cmd_Abort = (\<lambda>e. mock_answer (mock_error e)),
      cmd_Cancel = mock_answer MockCancel, cmd_Pause = mock_answer MockPause,
      cmd_SetError = (\<lambda>e. mock_answer (mock_error e))\<rparr>"

definition expecting :: "'d mock_call list \<Rightarrow> 'd mock_command option" where
  "expecting calls = Some \<lparr>expected_calls = calls, unexpected_call = False\<rparr>"

definition call_succeeded :: "'d mock_command proxy_reply \<Rightarrow> bool" where
  "call_succeeded r =
     (case r of
        Inl _ \<Rightarrow> False
      | Inr (None, _) \<Rightarrow> False
      | Inr (Some m, st) \<Rightarrow> isOk st \<and> expected_calls m = [] \<and> \<not> unexpected_call m)"

section \<open>The proxy's tests\<close>

definition parameters_json :: string where
  "parameters_json = ''{\"_jumpType\":\"_withKick\",\"height\":53}''"
definition progress_json :: string where
  "progress_json = ''{\"progress\": 10}''"
definition results_json :: string where
  "results_json = ''{\"foo\": 42, \"bar\": \"foobar\", \"resultList\": [1, 2, 3]}''"

definition yields :: "('v, 'd) codec \<Rightarrow> string16 status \<Rightarrow> string \<Rightarrow> bool" where
  "yields cd st text = (case st of Inl _ \<Rightarrow> False | Inr result \<Rightarrow> ToString cd result = text)"

definition TEST_Init ::
    "binder_codes \<Rightarrow> ('v, 'd) codec \<Rightarrow> 'd \<Rightarrow> 'd \<Rightarrow> string \<Rightarrow> string \<Rightarrow> bool" where
  "TEST_Init bc cd dict empty_dict kQueued kLocal =
     (let api = mock_api dict empty_dict kQueued kLocal; proxy = expecting []
      in yields cd (BinderCommandProxy_getState bc api cd proxy) kQueued \<and>
         yields cd (BinderCommandProxy_getOrigin bc api cd proxy) kLocal \<and>
         yields cd (BinderCommandProxy_getParameters bc api cd proxy)
           parameters_json \<and>
         yields cd (BinderCommandProxy_getProgress bc api cd proxy) ''{}'' \<and>
         yields cd (BinderCommandProxy_getResults bc api cd proxy) ''{}'' \<and>
         yields cd (BinderCommandProxy_getName bc api cd proxy) ''robot.jump'' \<and>
         yields cd (BinderCommandProxy_getComponent bc api cd proxy) ''myComponent'' \<and>
         yields cd (BinderCommandProxy_getId bc api cd proxy) kTestCommandId)"

text \<open>\<open>progress\<close> and \<open>results\<close> are what \<open>CreateDictionaryValue\<close> makes of the quoted texts.\<close>

definition TEST_SetProgress ::
    "binder_codes \<Rightarrow> ('v, 'd) codec \<Rightarrow> ('d mock_command, 'd) weave_command_api \<Rightarrow> 'd \<Rightarrow> bool" where
  "TEST_SetProgress bc cd api progress =
     call_succeeded (BinderCommandProxy_setProgress bc api cd
       (ToString16 cd progress_json) (expecting [MockSetProgress progress]))"

definition TEST_Complete ::
    "binder_codes \<Rightarrow> ('v, 'd) codec \<Rightarrow> ('d mock_command, 'd) weave_command_api \<Rightarrow> 'd \<Rightarrow> bool" where
  "TEST_Complete bc cd api results =
     call_succeeded (BinderCommandProxy_complete bc api cd
       (utf16 cd results_json)
       (expecting [MockComplete results]))"

definition TEST_Abort ::
    "binder_codes \<Rightarrow> ('v, 'd) codec \<Rightarrow> ('d mock_command, 'd) weave_command_api \<Rightarrow> bool" where
  "TEST_Abort bc cd api =
     call_succeeded (BinderCommandProxy_abort bc api cd (ToString16 cd ''foo'') (ToString16 cd ''bar'')
       (expecting [MockAbort ''foo'' ''bar'']))"

definition TEST_Cancel :: "binder_codes \<Rightarrow> ('d mock_command, 'd) weave_command_api \<Rightarrow> bool" where
  "TEST_Cancel bc api = call_succeeded (BinderCommandProxy_cancel bc api (expecting [MockCancel]))"

definition TEST_Pause :: "binder_codes \<Rightarrow> ('d mock_command, 'd) weave_command_api \<Rightarrow> bool" where
  "TEST_Pause bc api = call_succeeded (BinderCommandProxy_pause bc api (expecting [MockPause]))"

text \<open>What the codec does on the texts of the tests.\<close>

definition json_gives :: "('v, 'd) codec \<Rightarrow> string \<Rightarrow> 'd \<Rightarrow> bool" where
  "json_gives cd text d \<longleftrightarrow> (\<exists>v. json_read cd text = Inr v \<and> as_dictionary cd v = Some d)"

definition codec_on_tests :: "('v, 'd) codec \<Rightarrow> 'd \<Rightarrow> 'd \<Rightarrow> 'd \<Rightarrow> 'd \<Rightarrow> bool" where
  "codec_on_tests cd dict empty_dict progress results \<longleftrightarrow>
     list_all (text_ok cd) [parameters_json, progress_json, results_json, ''{}'', ''robot.jump'',
       ''myComponent'', kTestCommandId, ''foo'', ''bar''] \<and>
     json_write cd (of_dictionary cd dict) = parameters_json \<and>
     json_write cd (of_dictionary cd empty_dict) = ''{}'' \<and>
     json_gives cd progress_json progress \<and> json_gives cd results_json results"

lemma ToString_utf16: "text_ok cd s \<Longrightarrow> ToString cd (utf16 cd s) = s"
  by (simp add: text_ok_def ToString_def c_str_no_nul)

lemma TEST_Init_passes:
  "codec_on_tests cd dict empty_dict progress results \<Longrightarrow> text_ok cd kQueued \<Longrightarrow> text_ok cd kLocal \<Longrightarrow>
   TEST_Init bc cd dict empty_dict kQueued kLocal"
  by (simp add: codec_on_tests_def TEST_Init_def Let_def yields_def proxy_getter_defs expecting_def
      mock_api_def ToString16_value_def conversions)

lemma mock_accepts: "call_succeeded (answer bc (mock_answer call \<lparr>expected_calls = [call], unexpected_call = False\<rparr>))"
  by (simp add: call_succeeded_def answer_def mock_answer_def)

lemma TEST_SetProgress_passes:
  "codec_on_tests cd dict empty_dict progress results \<Longrightarrow>
   TEST_SetProgress bc cd (mock_api d e q l) progress"
  by (auto simp: codec_on_tests_def json_gives_def TEST_SetProgress_def expecting_def ParseDictionary_def
      BinderCommandProxy_setProgress_def mock_api_def conversions mock_accepts)

lemma TEST_Complete_passes:
  "codec_on_tests cd dict empty_dict progress results \<Longrightarrow>
   TEST_Complete bc cd (mock_api d e q l) results"
  by (auto simp: codec_on_tests_def json_gives_def TEST_Complete_def expecting_def ParseDictionary_def
      BinderCommandProxy_complete_def mock_api_def ToString_utf16 mock_accepts)

lemma TEST_Abort_passes:
  "codec_on_tests cd dict empty_dict progress results \<Longrightarrow> TEST_Abort bc cd (mock_api d e q l)"
  by (simp add: codec_on_tests_def TEST_Abort_def expecting_def BinderCommandProxy_abort_def mock_api_def
      conversions mock_error_def weave_AddTo_def mock_accepts)

text \<open>
  The tests of the command proxy pass on the model: with a codec that writes and
  reads the tests' texts as they say, every expectation of all six tests holds.
\<close>

theorem proxy_tests_pass:
  assumes "codec_on_tests cd dict empty_dict progress results"
    and "text_ok cd kQueued" and "text_ok cd kLocal"
  shows "TEST_Init bc cd dict empty_dict kQueued kLocal \<and>
    (let api = mock_api dict empty_dict kQueued kLocal
     in TEST_SetProgress bc cd api progress \<and> TEST_Complete bc cd api results \<and>
        TEST_Abort bc cd api \<and> TEST_Cancel bc api \<and> TEST_Pause bc api)"
  using TEST_Init_passes [OF assms] TEST_SetProgress_passes [OF assms(1)]
    TEST_Complete_passes [OF assms(1)] TEST_Abort_passes [OF assms(1)]
  by (simp add: Let_def TEST_Cancel_def TEST_Pause_def expecting_def BinderCommandProxy_cancel_def
      BinderCommandProxy_pause_def mock_api_def mock_accepts)

lemma proxy_tests_pass_witness:
  "TEST_Init sample_codes sample_codec parameters_json ''{}'' ''queued'' ''local'' \<and>
   (let api = mock_api parameters_json ''{}'' ''queued'' ''local''
    in TEST_SetProgress sample_codes sample_codec api progress_json \<and>
       TEST_Complete sample_codes sample_codec api results_json \<and>
       TEST_Abort sample_codes sample_codec api \<and> TEST_Cancel sample_codes api \<and> TEST_Pause sample_codes api)"
proof -
  have "codec_on_tests sample_codec parameters_json ''{}'' progress_json results_json"
    by (simp add: codec_on_tests_def json_gives_def sample_text_ok)
      (simp add: sample_codec_def parameters_json_def progress_json_def results_json_def kTestCommandId_def)
  then show ?thesis by (rule proxy_tests_pass) (simp_all add: sample_text_ok)
qed

section \<open>The configuration's tests\<close>

text \<open>
  The store of \<open>LoadConfig\<close>: strings and booleans by key.  The keys the code ignores are there
  too.
\<close>

definition test_strings :: "(string \<times> string) list" where
  "test_strings =
     [(''client_id'', ''conf_client_id''), (''client_secret'', ''conf_client_secret''),
      (''api_key'', ''conf_api_key''), (''oauth_url'', ''conf_oauth_url''),
      (''service_url'', ''conf_service_url''), (''oem_name'', ''conf_oem_name''),
      (''model_name'', ''conf_model_name''), (''model_id'', ''ABCDE''),
      (''polling_period_ms'', ''12345''), (''backup_polling_period_ms'', ''6589''),
      (''pairing_modes'', ''pinCode,embeddedCode''), (''embedded_code'', ''567''),
      (''name'', ''conf_name''), (''description'', ''conf_description''),
      (''location'', ''conf_location''), (''local_anonymous_access_role'', ''user''),
      (''device_kind'', ''conf_device_kind''), (''device_id'', ''conf_device_id''),
      (''refresh_token'', ''conf_refresh_token''), (''robot_account'', ''conf_robot_account''),
      (''last_configured_ssid'', ''conf_last_configured_ssid'')]"

definition test_booleans :: "(string \<times> bool) list" where
  "test_booleans =
     [(''wifi_auto_setup_enabled'', False), (''ble_setup_enabled'', True),
      (''local_pairing_enabled'', False), (''local_discovery_enabled'', False)]"

definition test_store :: key_value_store where
  "test_store = \<lparr>GetString = map_of test_strings, GetBoolean = map_of test_booleans\<rparr>"

text \<open>\<open>fresh\<close> is \<^verbatim>\<open>weave::Settings\<close> as it is constructed.\<close>

definition TEST_LoadConfig ::
    "('pt, 'role) config_lib \<Rightarrow> 'pt \<Rightarrow> 'pt \<Rightarrow> 'role \<Rightarrow> ('pt, 'role) Settings \<Rightarrow> bool" where
  "TEST_LoadConfig lib kPinCode kEmbeddedCode kUser fresh =
     (case LoadDefaults_store lib test_store fresh of (settings, res) \<Rightarrow>
        res \<and>
        client_id settings = ''conf_client_id'' \<and> client_secret settings = ''conf_client_secret'' \<and>
        api_key settings = ''conf_api_key'' \<and> oauth_url settings = ''conf_oauth_url'' \<and>
        service_url settings = ''conf_service_url'' \<and> oem_name settings = ''conf_oem_name'' \<and>
        model_name settings = ''conf_model_name'' \<and> model_id settings = ''ABCDE'' \<and>
        \<not> wifi_auto_setup_enabled settings \<and>
        {kPinCode, kEmbeddedCode} = pairing_modes settings \<and>
        embedded_code settings = ''567'' \<and> set_name settings = ''conf_name'' \<and>
        description settings = ''conf_description'' \<and> location_text settings = ''conf_location'' \<and>
        kUser = local_anonymous_access_role settings \<and>
        \<not> local_pairing_enabled settings \<and> \<not> local_discovery_enabled settings)"

text \<open>
  The tests with fakes: \<open>SetUp\<close>'s options, and the file a name is stored in.  An
  expectation on a file that is not there reads an empty string, as \<open>operator[]\<close> does.
\<close>

definition test_options :: config_options where
  "test_options =
     \<lparr>opt_client_id = '''', opt_client_secret = '''', opt_api_key = '''', opt_oauth_url = '''',
      opt_service_url = '''', opt_defaults = '''', opt_settings = ''settings_file'', opt_definitions = '''',
      opt_test_definitions = '''', opt_test_privet_ssid = ''''\<rparr>"

definition no_files :: config_fakes where
  "no_files = \<lparr>fake_file_content = Map.empty, io_result = True\<rparr>"

definition content :: "config_fakes \<Rightarrow> string" where
  "content fs = (case fake_file_content fs ''settings_file.config'' of None \<Rightarrow> '''' | Some c \<Rightarrow> c)"

type_synonym base64 = "(string \<Rightarrow> string) \<times> (string \<Rightarrow> string option)"

definition test_save ::
    "base64 \<Rightarrow> (string \<Rightarrow> string \<Rightarrow> string) \<Rightarrow> bool \<Rightarrow> string \<Rightarrow> string \<Rightarrow> config_fakes \<Rightarrow> config_fakes" where
  "test_save b64 insert_ext encryptor_result name text fs =
     fst (SaveSettings fakes_io (test_encryptor (fst b64) (snd b64) encryptor_result) insert_ext
            test_options name text None fs)"

definition test_load ::
    "base64 \<Rightarrow> (string \<Rightarrow> string \<Rightarrow> string) \<Rightarrow> bool \<Rightarrow> string \<Rightarrow> config_fakes \<Rightarrow> string" where
  "test_load b64 insert_ext encryptor_result name fs =
     fst (LoadSettings fakes_io (test_encryptor (fst b64) (snd b64) encryptor_result) insert_ext
            test_options name fs)"

definition TEST_EncryptionEnabled :: "base64 \<Rightarrow> (string \<Rightarrow> string \<Rightarrow> string) \<Rightarrow> bool" where
  "TEST_EncryptionEnabled b64 insert_ext =
     (let fs = test_save b64 insert_ext True ''config'' ''test'' no_files
      in content fs \<noteq> ''test'' \<and> test_load b64 insert_ext True ''config'' fs = ''test'')"

definition TEST_EncryptionFailure :: "base64 \<Rightarrow> (string \<Rightarrow> string \<Rightarrow> string) \<Rightarrow> bool" where
  "TEST_EncryptionFailure b64 insert_ext =
     (let fs = test_save b64 insert_ext True ''config'' ''test'' no_files;
          fs' = test_save b64 insert_ext False ''config'' ''test2'' fs
      in content fs \<noteq> '''' \<and> content fs' = '''')"

definition TEST_DecryptionFailure :: "base64 \<Rightarrow> (string \<Rightarrow> string \<Rightarrow> string) \<Rightarrow> bool" where
  "TEST_DecryptionFailure b64 insert_ext =
     (let fs = test_save b64 insert_ext True ''config'' ''test'' no_files
      in content fs \<noteq> '''' \<and> test_load b64 insert_ext False ''config'' fs = '''')"

definition TEST_SettingsIOFailure :: "base64 \<Rightarrow> (string \<Rightarrow> string \<Rightarrow> string) \<Rightarrow> bool" where
  "TEST_SettingsIOFailure b64 insert_ext =
     (let fs = test_save b64 insert_ext True ''config'' ''test'' no_files;
          original = content fs;
          fs = fs\<lparr>io_result := False\<rparr>;
          fs' = test_save b64 insert_ext True ''config2'' ''test'' fs
      in original \<noteq> '''' \<and> test_load b64 insert_ext True ''config'' fs = '''' \<and> content fs' = original)"

text \<open>
  The tests of the configuration pass on the model, given the libraries' answers on
  the texts they use.
\<close>

theorem config_tests_pass:
  assumes "Split lib ''pinCode,embeddedCode'' = [''pinCode'', ''embeddedCode'']"
    and "StringToPairingType lib ''pinCode'' = Some kPinCode"
    and "StringToPairingType lib ''embeddedCode'' = Some kEmbeddedCode"
    and "StringToAuthScope lib ''user'' = Some kUser"
    and "\<And>x. snd b64 (fst b64 x) = Some x"
    and "fst b64 ''test'' \<noteq> ''test''" and "fst b64 ''test'' \<noteq> ''''"
    and "insert_ext ''settings_file'' ''.config'' = ''settings_file.config''"
    and "insert_ext ''settings_file'' ''.config2'' \<noteq> ''settings_file.config''"
  shows "TEST_LoadConfig lib kPinCode kEmbeddedCode kUser fresh \<and>
    TEST_EncryptionEnabled b64 insert_ext \<and> TEST_EncryptionFailure b64 insert_ext \<and>
    TEST_DecryptionFailure b64 insert_ext \<and> TEST_SettingsIOFailure b64 insert_ext"
proof -
  have "TEST_LoadConfig lib kPinCode kEmbeddedCode kUser fresh"
    using assms(1-4)
    by (auto simp: TEST_LoadConfig_def LoadDefaults_store_def LoadDefaults_tail_def test_store_def
        test_strings_def test_booleans_def get_into_def Let_def split: option.split)
  moreover note storage = test_save_def test_load_def SaveSettings_def LoadSettings_def CreatePath_def
    test_options_def fakes_io_def test_encryptor_def no_files_def content_def Let_def assms(5-9)
  have "TEST_EncryptionEnabled b64 insert_ext" by (simp add: TEST_EncryptionEnabled_def storage)
  moreover have "TEST_EncryptionFailure b64 insert_ext" by (simp add: TEST_EncryptionFailure_def storage)
  moreover have "TEST_DecryptionFailure b64 insert_ext" by (simp add: TEST_DecryptionFailure_def storage)
  moreover have "TEST_SettingsIOFailure b64 insert_ext" by (simp add: TEST_SettingsIOFailure_def storage)
  ultimately show ?thesis by blast
qed


definition test_lib :: "(string, string) config_lib" where
  "test_lib = \<lparr>Split = (\<lambda>s. [takeWhile (\<lambda>c. c \<noteq> CHR '','') s, tl (dropWhile (\<lambda>c. c \<noteq> CHR '','') s)]),
     StringToPairingType = Some, StringToAuthScope = Some, product_version = None\<rparr>"

definition marking_codec :: base64 where
  "marking_codec = (\<lambda>x. CHR ''#'' # x, \<lambda>x. case x of [] \<Rightarrow> None | _ # y \<Rightarrow> Some y)"

lemma config_tests_pass_witness:
  "\<forall>fresh. TEST_LoadConfig test_lib ''pinCode'' ''embeddedCode'' ''user'' fresh \<and>
    TEST_EncryptionEnabled marking_codec (@) \<and> TEST_EncryptionFailure marking_codec (@) \<and>
    TEST_DecryptionFailure marking_codec (@) \<and> TEST_SettingsIOFailure marking_codec (@)"
  by (rule allI, rule config_tests_pass) (simp_all add: test_lib_def marking_codec_def)

end
