(* ===== verification/Spec2Isabelle.thy ===== *)
theory Spec2Isabelle
  imports Shill_Attempts Pairing_System Command_Session Config_Storage AP_Manager_Client Mdns_Providers Secure_Connection
    Http_Transport Bluetooth_Client Daemon_System System_Progress System_Pairing Unit_Tests
begin

text \<open>
  A verification library for weaved, the Weave daemon of Brillo, and libweaved, the library
  applications use to talk to it (\<^verbatim>\<open>src/buffet\<close>, \<^verbatim>\<open>src/libweaved\<close>,
  \<^verbatim>\<open>src/common\<close>).

  \<^bold>\<open>The program.\<close>  weaved is one process around libweave (not in the repository): its
  \<^verbatim>\<open>Manager\<close> creates the providers libweave needs (network, mDNS, web server, access point,
  HTTP transport, settings storage) and, once these are ready, libweave's device.  An application
  links libweaved, whose \<^verbatim>\<open>ServiceImpl\<close> finds the manager through binder, asks it for a
  per-client service (\<^verbatim>\<open>BinderWeaveService\<close>), registers components, state and command
  handlers there, and receives commands as \<^verbatim>\<open>IWeaveCommand\<close> proxies
  (\<^verbatim>\<open>BinderCommandProxy\<close> in the daemon, \<^verbatim>\<open>Command\<close> in the client).  When the
  daemon dies, libweaved replaces its instance and connects again.

  \<^bold>\<open>Theories.\<close>  Each component has its own theory; the properties that need more room than
  the model have one beside it.

  \<^item> \<open>Prelude\<close>: faults (\<open>CHECK\<close>, null and dangling pointers) and results, C strings,
    \<^verbatim>\<open>std::map\<close> as sorted lists, reference-counted pointers, runs of event handlers, and the
    locales \<open>ordered_map\<close>, \<open>guarded_component\<close> (an invariant every handler keeps),
    \<open>safe_component\<close> (and none faults) and \<open>simulation\<close> (a run implements a
    specification's run).
  \<^item> \<open>Binder_Utils\<close>: \<^verbatim>\<open>common/binder_utils.{h,cc}\<close> and
    \<^verbatim>\<open>buffet/weave_error_conversion.h\<close>.
  \<^item> \<open>Binder_Interfaces\<close>: the AIDL interfaces as records of remote methods, with the
    locales \<open>weave_command_remote\<close> and \<open>weave_service_remote\<close> for what a client relies on.
  \<^item> \<open>Binder_Command_Proxy\<close> and \<open>Weaved_Command\<close>: the two ends of a command.  The
    proxy interprets \<open>weave_command_remote\<close>, the client's methods are proved against that
    locale, and the properties compose the two: over binder the client's calls are libweave's.
    \<open>Command_Session\<close> is a \<open>Command\<close> object over its life, a refinement of libweave's
    command for any sequence of calls (\<open>simulation\<close>).
  \<^item> \<open>Binder_Weave_Service\<close>, \<open>Weaved_Service\<close> and \<open>Weaved_Connection\<close>: the two
    ends of a client's service.  \<open>Weaved_Service\<close> holds \<^verbatim>\<open>ServiceImpl\<close> and the client
    process around it (the subscription that owns the live instance, the message loop's tasks, the
    binder objects that hold an instance weakly); \<open>Weaved_Connection\<close> shows that the
    connection always comes back, that a dead instance does nothing, and that calls and commands
    arrive.
  \<^item> \<open>Shill_Client\<close>, \<open>Shill_Connectivity\<close> and \<open>Shill_Attempts\<close>:
    \<^verbatim>\<open>buffet/shill_client.{h,cc}\<close>, the network provider; its connectivity state as an
    invariant over all signals, and its connection attempts with their callbacks and timeouts.
  \<^item> \<open>Buffet_Config\<close>: \<^verbatim>\<open>buffet/buffet_config.{h,cc}\<close>, the two encryptors, and the
    fakes of its unit test; the storage is proved in the locale \<open>config_storage\<close> over any file
    layer (\<open>file_io\<close>) and any encryptor (\<open>encryptor\<close>), and interpreted for the daemon's
    and for the test's.
  \<^item> \<open>Config_Storage\<close>: the configuration object and its settings over the daemon's life: a
    map, whatever is saved, loaded, fails to be written or is restarted, and what a file does to it
    that does not decrypt.
  \<^item> \<open>Buffet_Manager\<close> and \<open>Manager_Properties\<close>: \<^verbatim>\<open>buffet/manager.{h,cc}\<close>;
    clients are served once per request, listeners are told exactly what changed.
  \<^item> \<open>Pairing_System\<close>: the pairing session on either side, what one step of the manager
    announces and what one notification makes a client read; a client that registers during a session
    misses it.
  \<^item> \<open>AP_Manager_Client\<close>: \<^verbatim>\<open>buffet/ap_manager_client.cc\<close>, the soft access point; when it
    can die, that it forgets no service, that a start brings the access point up.
  \<^item> \<open>Avahi_Mdns_Client\<close>: \<^verbatim>\<open>buffet/avahi_mdns_client.cc\<close>; the network sees what was
    requested last (an interpretation of \<open>simulation\<close>).
  \<^item> \<open>Mdns_Providers\<close>: the interface of \<^verbatim>\<open>buffet/mdns_client.h\<close> and the stub;
    libweave's requests over either provider (locale \<open>mdns_provider\<close>).
  \<^item> \<open>Web_Server_Client\<close>: \<^verbatim>\<open>buffet/webserv_client.cc\<close>; ports, certificate and
    announcements as functions of the events (\<open>simulation\<close>), and the reading of a request's body.
  \<^item> \<open>Completion\<close>, \<open>Socket_Stream\<close> and \<open>Http_Transport\<close>: the locale
    \<open>completion\<close> states that a provider runs each callback it was handed once; it is
    interpreted for \<^verbatim>\<open>buffet/socket_stream.cc\<close> and
    \<^verbatim>\<open>buffet/http_transport_client.cc\<close>.
  \<^item> \<open>Socket_Connect\<close> and \<open>Bluetooth_Client\<close>: connections with an account of the file
    descriptors; \<open>Secure_Connection\<close> puts the network client, the socket and the TLS stream
    together.
  \<^item> \<open>Daemon_Main\<close> and \<open>Daemon_System\<close>: \<^verbatim>\<open>buffet/main.cc\<close>, and the daemon from its
    command line through the manager and the web server to the device.
  \<^item> \<open>Weaved_Retries\<close>: a bound on the connection attempts of the client library.
  \<^item> \<open>Weave_System\<close>, \<open>System_Moves\<close>, \<open>System_Conservation\<close>,
    \<open>System_Services\<close> and \<open>System_Properties\<close>: the whole system, one daemon, any number of
    applications and the binder driver between them, under every interleaving, with processes that
    die and daemons that are started again.  A step of the system is a few \<open>move\<close>s, the
    invariants are proved over the moves: services are handed out under fresh addresses, a
    connection request is neither duplicated nor forgotten, the daemon keeps the services of the
    living.  From these follow that no two instances share a service, that a quiet system is a
    connected one, that command handlers work end to end, and what can kill an application.
    \<open>System_Progress\<close> shows that the system never gets stuck: from every reachable state with a
    daemon an application can still be connected.  \<open>System_Pairing\<close> follows the pairing session
    across the processes, over one-way notifications that stay in flight.
  \<^item> \<open>Unit_Tests\<close>: the repository's tests of the command proxy and of the configuration, run
    on the model.

  \<^bold>\<open>How the code is translated.\<close>  An object is a record with the fields of the source, a
  method a function that returns the new record, a callback or a call to another process an entry
  of a list of effects, a reply an argument or part of the event.  A failed \<open>CHECK\<close> and the use
  of a null or dangling pointer are values of \<open>fault\<close>, so that a theorem about a run says that
  the run returns.  A weak pointer is the number of the object it refers to.  Code that is not in
  the repository (libweave, D-Bus, binder, the JSON codec, Avahi, libwebserv, the keystore, the
  file system) is an argument of the definitions; what is assumed of it stands as a named
  hypothesis in the theorems that need it (\<open>avahi_documented\<close>, \<open>keystore_sound\<close>,
  \<open>atomic_files\<close>, \<open>fresh_sockets\<close> and others), and a witness gives an instance.

  \<^bold>\<open>Termination.\<close>  All loops of the modelled code but one run over finite lists and are
  structural recursions, so no fuel is used.  The reading of a request's body need not end: it is a
  partial function, and \<open>reading_a_body_ends\<close> shows that it returns whenever each read leaves
  less to read.

  \<^bold>\<open>Concurrency.\<close>  The daemon and the client library are single-threaded message loops, so a
  run is a list of events, each handled to its end; tasks, replies and signals may come in any
  order.  \<open>Weave_System\<close> interleaves the processes: one-way calls are messages in flight, in
  order for each object, and synchronous calls are answered within a step.  Avahi's callbacks come
  from a thread of their own without a lock being taken around the client's fields; they are events
  here too, so a race between the two threads is not covered.

  \<^bold>\<open>Not modelled.\<close>  Log output; the marshalling code generated from the AIDL files; the parsing of
  flags; what only forwards to a library (tasks to the message loop, the request timeout to the
  web server, the stop of Avahi's poll thread); pure interfaces and constants; the build files.
\<close>

end
